(* ===== verification/GoBase.thy ===== *)
theory GoBase
  imports Main "HOL-Library.Word" "HOL-Library.Multiset" "HOL-Library.Char_ord"
    "HOL-Library.List_Lexorder"
begin

unbundle bit_operations_syntax

text \<open>
  The vocabulary of the development: what the broker uses of the Go language and its standard
  library. Strings are byte strings (\<open>char list\<close>); case folding is the ASCII part of
  \<open>strings.ToLower\<close> and \<open>strings.EqualFold\<close> (user names, room addresses and labels are ASCII in
  the model). An instant is an \<open>int\<close>, nanoseconds since the Unix epoch; a duration is an \<open>int\<close>
  number of nanoseconds that \<open>time.Time.Sub\<close> saturates to 64 bits. A time zone is the function
  that gives the offset from UTC, in seconds, at a Unix second (what \<open>Location.lookup\<close> returns).
  Errors are values of a sum type: \<open>Inl\<close> is the error, \<open>Inr\<close> the result.
\<close>

named_theorems go_defs "definitions of the Go vocabulary, unfolded on closed terms"

section \<open>Results and first errors\<close>

type_synonym byte = "8 word"
type_synonym u32 = "32 word"

fun first_err :: "'e option list \<Rightarrow> 'e option" where
  "first_err [] = None"
| "first_err (Some e # es) = Some e"
| "first_err (None # es) = first_err es"

lemma first_err_None [simp]: "first_err es = None \<longleftrightarrow> (\<forall>e \<in> set es. e = None)"
  by (induction es rule: first_err.induct) auto

lemma first_err_Some_mem: "first_err es = Some e \<Longrightarrow> Some e \<in> set es"
  by (induction es rule: first_err.induct) auto

definition err_if :: "bool \<Rightarrow> 'e \<Rightarrow> 'e option" where
  "err_if b e = (if b then Some e else None)"

lemma err_if_None [simp]: "err_if b e = None \<longleftrightarrow> \<not> b"
  by (simp add: err_if_def)

lemma err_if_Some [simp]: "err_if b e = Some e' \<longleftrightarrow> b \<and> e' = e"
  by (auto simp: err_if_def)

section \<open>Lists\<close>

fun find_first :: "('a \<Rightarrow> bool) \<Rightarrow> 'a list \<Rightarrow> 'a option" where
  "find_first P [] = None"
| "find_first P (x # xs) = (if P x then Some x else find_first P xs)"

lemma find_first_Some: "find_first P xs = Some x \<Longrightarrow> P x \<and> x \<in> set xs"
  by (induction xs) (auto split: if_splits)

lemma find_first_None [simp]: "find_first P xs = None \<longleftrightarrow> (\<forall>x \<in> set xs. \<not> P x)"
  by (induction xs) auto

lemma find_first_appendI:
  "\<forall>y \<in> set ys. \<not> P y \<Longrightarrow> P x \<Longrightarrow> find_first P (ys @ x # zs) = Some x"
  by (induction ys) auto

lemma find_first_split:
  "find_first P xs = Some x \<Longrightarrow> \<exists>ys zs. xs = ys @ x # zs \<and> P x \<and> (\<forall>y \<in> set ys. \<not> P y)"
proof (induction xs)
  case (Cons a xs)
  show ?case
  proof (cases "P a")
    case True
    with Cons.prems show ?thesis by (auto intro: exI [of _ "[]"])
  next
    case False
    with Cons obtain ys zs where "xs = ys @ x # zs" "P x" "\<forall>y \<in> set ys. \<not> P y" by auto
    with False have "a # xs = (a # ys) @ x # zs \<and> P x \<and> (\<forall>y \<in> set (a # ys). \<not> P y)" by simp
    then show ?thesis by blast
  qed
qed simp

text \<open>The first element that satisfies \<open>P\<close> is replaced, or the new one appended: the loop with
  \<open>replaced\<close> and \<open>break\<close> of \<open>WithRoom\<close> and \<open>WithUser\<close>.\<close>

fun replace_first :: "('a \<Rightarrow> bool) \<Rightarrow> 'a \<Rightarrow> 'a list \<Rightarrow> 'a list option" where
  "replace_first P y [] = None"
| "replace_first P y (x # xs) =
     (if P x then Some (y # xs) else map_option (Cons x) (replace_first P y xs))"

definition upsert :: "('a \<Rightarrow> bool) \<Rightarrow> 'a \<Rightarrow> 'a list \<Rightarrow> 'a list" where
  "upsert P y xs = (case replace_first P y xs of Some ys \<Rightarrow> ys | None \<Rightarrow> xs @ [y])"

lemma replace_first_None: "replace_first P y xs = None \<longleftrightarrow> (\<forall>x \<in> set xs. \<not> P x)"
  by (induction xs) auto

lemma replace_first_Some:
  "replace_first P y xs = Some ys \<Longrightarrow>
     \<exists>as x bs. xs = as @ x # bs \<and> ys = as @ y # bs \<and> P x \<and> (\<forall>a \<in> set as. \<not> P a)"
proof (induction xs arbitrary: ys)
  case (Cons a xs)
  show ?case
  proof (cases "P a")
    case True
    with Cons.prems show ?thesis by (auto intro: exI [of _ "[]"])
  next
    case False
    with Cons.prems obtain zs where z: "replace_first P y xs = Some zs" "ys = a # zs" by auto
    from Cons.IH [OF z(1)] obtain as x bs
      where "xs = as @ x # bs" "zs = as @ y # bs" "P x" "\<forall>a \<in> set as. \<not> P a" by blast
    with z(2) False have "a # xs = (a # as) @ x # bs \<and> ys = (a # as) @ y # bs \<and> P x
      \<and> (\<forall>b \<in> set (a # as). \<not> P b)" by simp
    then show ?thesis by blast
  qed
qed simp

lemma upsert_cases:
  obtains (append) "\<forall>x \<in> set xs. \<not> P x" "upsert P y xs = xs @ [y]"
  | (replace) as x bs where "xs = as @ x # bs" "upsert P y xs = as @ y # bs" "P x"
      "\<forall>a \<in> set as. \<not> P a"
proof (cases "replace_first P y xs")
  case None
  with append show ?thesis by (simp add: upsert_def replace_first_None)
next
  case (Some ys)
  from replace_first_Some [OF this] Some replace show ?thesis by (auto simp: upsert_def)
qed

lemma upsert_mem: "y \<in> set (upsert P y xs)"
  by (rule upsert_cases [of xs P y]) auto

lemma upsert_keep: "x \<in> set xs \<Longrightarrow> \<not> P x \<Longrightarrow> x \<in> set (upsert P y xs)"
  by (rule upsert_cases [of xs P y]) auto

lemma upsert_sub: "set (upsert P y xs) \<subseteq> insert y (set xs)"
  by (rule upsert_cases [of xs P y]) auto

lemma find_first_upsert_same:
  assumes "P y"
  shows "find_first P (upsert P y xs) = Some y"
proof (rule upsert_cases [of xs P y])
  assume "\<forall>x \<in> set xs. \<not> P x" "upsert P y xs = xs @ [y]"
  with assms show ?thesis by (simp add: find_first_appendI)
next
  fix as x bs
  assume "upsert P y xs = as @ y # bs" "\<forall>a \<in> set as. \<not> P a"
  with assms show ?thesis by (simp add: find_first_appendI)
qed

section \<open>Strings\<close>

definition char_lower :: "char \<Rightarrow> char" where
  "char_lower c =
     (let n = of_char c :: nat in if 65 \<le> n \<and> n \<le> 90 then char_of (n + 32) else c)"

definition to_lower :: "string \<Rightarrow> string" where
  "to_lower s = map char_lower s"

definition equal_fold :: "string \<Rightarrow> string \<Rightarrow> bool" where
  "equal_fold a b \<longleftrightarrow> to_lower a = to_lower b"

lemma equal_fold_refl [simp]: "equal_fold a a"
  by (simp add: equal_fold_def)

lemma equal_fold_sym: "equal_fold a b \<Longrightarrow> equal_fold b a"
  by (simp add: equal_fold_def)

lemma equal_fold_trans: "equal_fold a b \<Longrightarrow> equal_fold b c \<Longrightarrow> equal_fold a c"
  by (simp add: equal_fold_def)

fun has_prefix :: "'a list \<Rightarrow> 'a list \<Rightarrow> bool" where
  "has_prefix s [] = True"
| "has_prefix [] (p # ps) = False"
| "has_prefix (x # xs) (p # ps) = (x = p \<and> has_prefix xs ps)"

lemma has_prefix_iff: "has_prefix s p \<longleftrightarrow> (\<exists>t. s = p @ t)"
  by (induction s p rule: has_prefix.induct) auto

text \<open>The UTF-8 bytes of the dash.\<close>

definition em_dash :: string where "em_dash = [CHR 0xE2, CHR 0x80, CHR 0x94]"

text \<open>\<open>strings.Contains\<close>.\<close>

fun contains :: "string \<Rightarrow> string \<Rightarrow> bool" where
  "contains [] t = (t = [])"
| "contains (c # s) t = (has_prefix (c # s) t \<or> contains s t)"

lemma contains_append: "contains (a @ t @ b) t"
proof (induction a)
  case Nil
  have "has_prefix (t @ b) t" by (auto simp: has_prefix_iff)
  then show ?case by (cases "t @ b") auto
qed simp

definition trim_prefix :: "'a list \<Rightarrow> 'a list \<Rightarrow> 'a list" where
  "trim_prefix s p = (if has_prefix s p then drop (length p) s else s)"

definition is_space :: "char \<Rightarrow> bool" where
  "is_space c \<longleftrightarrow> c \<in> {CHR 0x09, CHR 0x0A, CHR 0x0B, CHR 0x0C, CHR 0x0D, CHR 0x20}"

definition trim_space :: "string \<Rightarrow> string" where
  "trim_space s = rev (dropWhile is_space (rev (dropWhile is_space s)))"

definition trim_right :: "char \<Rightarrow> string \<Rightarrow> string" where
  "trim_right c s = rev (dropWhile (\<lambda>x. x = c) (rev s))"

fun fields_go :: "string \<Rightarrow> string \<Rightarrow> string list" where
  "fields_go [] w = (if w = [] then [] else [rev w])"
| "fields_go (c # cs) w =
     (if is_space c then (if w = [] then fields_go cs [] else rev w # fields_go cs [])
      else fields_go cs (c # w))"

definition fields_of :: "string \<Rightarrow> string list" where
  "fields_of s = fields_go s []"

text \<open>\<open>%d\<close> of a number.\<close>

fun show_nat :: "nat \<Rightarrow> string" where
  "show_nat n = (if n < 10 then [char_of (48 + n)] else show_nat (n div 10) @ [char_of (48 + n mod 10)])"

declare show_nat.simps [simp del]

definition show_int :: "int \<Rightarrow> string" where
  "show_int i = (if i < 0 then CHR ''-'' # show_nat (nat (- i)) else show_nat (nat i))"

section \<open>Hexadecimal and base64\<close>

definition hex_digit :: "nat \<Rightarrow> char" where
  "hex_digit n = (if n < 10 then char_of (48 + n) else char_of (87 + n))"

definition hex_val :: "char \<Rightarrow> nat option" where
  "hex_val c = (let n = of_char c :: nat in
     if 48 \<le> n \<and> n \<le> 57 then Some (n - 48)
     else if 97 \<le> n \<and> n \<le> 102 then Some (n - 87)
     else if 65 \<le> n \<and> n \<le> 70 then Some (n - 55) else None)"

definition hex_byte :: "byte \<Rightarrow> string" where
  "hex_byte b = [hex_digit (unat b div 16), hex_digit (unat b mod 16)]"

definition hex_encode :: "byte list \<Rightarrow> string" where
  "hex_encode bs = concat (map hex_byte bs)"

fun hex_decode :: "string \<Rightarrow> byte list option" where
  "hex_decode [] = Some []"
| "hex_decode [c] = None"
| "hex_decode (c # d # cs) =
     (case (hex_val c, hex_val d, hex_decode cs) of
        (Some h, Some l, Some bs) \<Rightarrow> Some (of_nat (16 * h + l) # bs)
      | _ \<Rightarrow> None)"

lemma of_char_char_of_nat [simp]: "n < 256 \<Longrightarrow> (of_char (char_of n :: char) :: nat) = n"
  by simp

lemma unat_of_char: "unat (of_char c :: 8 word) = of_char c"
proof -
  have "unat (of_nat (of_char c) :: 8 word) = of_char c" by (simp add: unat_of_nat nat_of_char_less_256)
  then show ?thesis by (simp add: of_nat_of_char)
qed

lemma hex_val_digit: "n < 16 \<Longrightarrow> hex_val (hex_digit n) = Some n"
  by (auto simp: hex_val_def hex_digit_def Let_def)

lemma hex_decode_encode [simp]: "hex_decode (hex_encode bs) = Some bs"
proof (induction bs)
  case (Cons b bs)
  have "unat b < 256" using unsigned_less [of b, where ?'a = nat] by simp
  then have "hex_val (hex_digit (unat b div 16)) = Some (unat b div 16)"
    and "hex_val (hex_digit (unat b mod 16)) = Some (unat b mod 16)"
    by (auto intro: hex_val_digit)
  then show ?case using Cons by (simp add: hex_encode_def hex_byte_def)
qed (simp add: hex_encode_def)

lemma length_hex_encode [simp]: "length (hex_encode bs) = 2 * length bs"
  by (induction bs) (auto simp: hex_encode_def hex_byte_def)

lemma hex_encode_inj: "hex_encode a = hex_encode b \<Longrightarrow> a = b"
  by (metis hex_decode_encode option.inject)

lemma length_hex_decode: "hex_decode s = Some bs \<Longrightarrow> length s = 2 * length bs"
  by (induction s arbitrary: bs rule: hex_decode.induct) (auto split: option.splits)

definition b64_val :: "char \<Rightarrow> nat option" where
  "b64_val c = (let n = of_char c :: nat in
     if 65 \<le> n \<and> n \<le> 90 then Some (n - 65)
     else if 97 \<le> n \<and> n \<le> 122 then Some (n - 71)
     else if 48 \<le> n \<and> n \<le> 57 then Some (n + 4)
     else if c = CHR ''-'' then Some 62 else if c = CHR ''_'' then Some 63 else None)"

fun b64_groups :: "nat list \<Rightarrow> byte list option" where
  "b64_groups [] = Some []"
| "b64_groups [a] = None"
| "b64_groups [a, b] = Some [of_nat (4 * a + b div 16)]"
| "b64_groups [a, b, c] = Some [of_nat (4 * a + b div 16), of_nat (16 * (b mod 16) + c div 4)]"
| "b64_groups (a # b # c # d # r) =
     map_option (\<lambda>bs. of_nat (4 * a + b div 16) # of_nat (16 * (b mod 16) + c div 4)
                       # of_nat (64 * (c mod 4) + d) # bs) (b64_groups r)"

text \<open>\<open>b64url\<close> of \<open>internal/config/notify.go\<close>: \<open>RawURLEncoding\<close> after the padding is trimmed.
  The decoder skips carriage returns and newlines.\<close>

definition b64url :: "string \<Rightarrow> byte list option" where
  "b64url s =
     (let vs = map b64_val (filter (\<lambda>c. c \<noteq> CHR 0x0A \<and> c \<noteq> CHR 0x0D) (trim_right (CHR ''='') s))
      in if None \<in> set vs then None else b64_groups (map the vs))"

section \<open>Byte buffers and CRC-32\<close>

text \<open>\<open>copy(buf[off:], bs)\<close> and \<open>binary.LittleEndian.PutUint16/32\<close> into a buffer long enough.\<close>

definition put_at :: "nat \<Rightarrow> 'a list \<Rightarrow> 'a list \<Rightarrow> 'a list" where
  "put_at off bs buf = take off buf @ bs @ drop (off + length bs) buf"

lemma length_put_at [simp]:
  "off + length bs \<le> length buf \<Longrightarrow> length (put_at off bs buf) = length buf"
  by (simp add: put_at_def)

lemma put_at_append1:
  "off + length bs \<le> length a \<Longrightarrow> put_at off bs (a @ b) = put_at off bs a @ b"
  by (simp add: put_at_def)

lemma put_at_append2:
  "length a \<le> off \<Longrightarrow> put_at off bs (a @ b) = a @ put_at (off - length a) bs b"
  by (simp add: put_at_def)

lemma put_at_all: "length bs = length b \<Longrightarrow> put_at 0 bs b = bs"
  by (simp add: put_at_def)

lemma take_put_at_before [simp]:
  "n \<le> off \<Longrightarrow> off \<le> length buf \<Longrightarrow> take n (put_at off bs buf) = take n buf"
  by (simp add: put_at_def min_def)

lemma drop_put_at_after [simp]:
  "off + length bs \<le> n \<Longrightarrow> off + length bs \<le> length buf \<Longrightarrow> drop n (put_at off bs buf) = drop n buf"
  by (simp add: put_at_def)

lemma slice_put_at_same [simp]:
  "off + length bs \<le> length buf \<Longrightarrow> n = length bs \<Longrightarrow> take n (drop off (put_at off bs buf)) = bs"
  by (simp add: put_at_def)

definition le16 :: "16 word \<Rightarrow> byte list" where
  "le16 w = [ucast w, ucast (drop_bit 8 w)]"

definition le32 :: "32 word \<Rightarrow> byte list" where
  "le32 w = [ucast w, ucast (drop_bit 8 w), ucast (drop_bit 16 w), ucast (drop_bit 24 w)]"

definition of_le16 :: "byte list \<Rightarrow> 16 word" where
  "of_le16 bs = (case bs of [a, b] \<Rightarrow> ucast a OR push_bit 8 (ucast b) | _ \<Rightarrow> 0)"

definition of_le32 :: "byte list \<Rightarrow> 32 word" where
  "of_le32 bs = (case bs of [a, b, c, d] \<Rightarrow>
     ucast a OR push_bit 8 (ucast b) OR push_bit 16 (ucast c) OR push_bit 24 (ucast d) | _ \<Rightarrow> 0)"

definition be32 :: "u32 \<Rightarrow> byte list" where "be32 w = rev (le32 w)"

lemma length_le [simp]: "length (le16 w) = 2" "length (le32 v) = 4"
  by (simp_all add: le16_def le32_def)

lemma of_le16_le16 [simp]: "of_le16 (le16 w) = w"
  unfolding of_le16_def le16_def
  by (rule bit_word_eqI) (auto simp: bit_simps)

lemma le32_bits:
  fixes w :: "32 word"
  shows "ucast (ucast w :: byte) OR push_bit 8 (ucast (ucast (drop_bit 8 w) :: byte))
    OR push_bit 16 (ucast (ucast (drop_bit 16 w) :: byte))
    OR push_bit 24 (ucast (ucast (drop_bit 24 w) :: byte)) = w"
proof (rule bit_word_eqI)
  fix n assume "n < LENGTH(32)"
  then show "bit (ucast (ucast w :: byte) OR push_bit 8 (ucast (ucast (drop_bit 8 w) :: byte))
    OR push_bit 16 (ucast (ucast (drop_bit 16 w) :: byte))
    OR push_bit 24 (ucast (ucast (drop_bit 24 w) :: byte)) :: 32 word) n = bit w n"
    by (cases "n < 8"; cases "n < 16"; cases "n < 24") (auto simp: bit_simps)
qed

lemma of_le32_le32 [simp]: "of_le32 (le32 w) = w"
  by (simp add: of_le32_def le32_def le32_bits)

text \<open>\<open>hash/crc32\<close> with the IEEE table: one table entry, \<open>Update\<close>, and \<open>ChecksumIEEE\<close>.\<close>

definition crc_shift :: "32 word \<Rightarrow> 32 word" where
  "crc_shift c = (if c AND 1 = 1 then drop_bit 1 c XOR 0xEDB88320 else drop_bit 1 c)"

definition crc_entry :: "byte \<Rightarrow> 32 word" where
  "crc_entry i = (crc_shift ^^ 8) (ucast i)"

definition crc32_update :: "32 word \<Rightarrow> byte list \<Rightarrow> 32 word" where
  "crc32_update crc bs =
     NOT (fold (\<lambda>v c. crc_entry (ucast c XOR v) XOR drop_bit 8 c) bs (NOT crc))"

definition checksum_ieee :: "byte list \<Rightarrow> 32 word" where
  "checksum_ieee bs = crc32_update 0 bs"

section \<open>Time\<close>

type_synonym time = int
type_synonym duration = int
type_synonym zone = "int \<Rightarrow> int"

definition second :: duration where "second = 1000000000"
definition minute :: duration where "minute = 60 * second"
definition hour :: duration where "hour = 60 * minute"

lemmas dur_defs = second_def minute_def hour_def

text \<open>The zero \<open>time.Time\<close> (January 1 of year 1, UTC).\<close>

definition zero_time :: time where "zero_time = - 62135596800 * second"

definition is_zero_time :: "time \<Rightarrow> bool" where "is_zero_time t \<longleftrightarrow> t = zero_time"

definition max_duration :: int where "max_duration = 9223372036854775807"
definition min_duration :: int where "min_duration = - 9223372036854775808"

definition time_sub :: "time \<Rightarrow> time \<Rightarrow> duration" where
  "time_sub t u = max min_duration (min max_duration (t - u))"

lemma time_sub_gt:
  "0 \<le> d \<Longrightarrow> d < max_duration \<Longrightarrow> time_sub t u > d \<longleftrightarrow> t - u > d"
  by (auto simp: time_sub_def max_duration_def min_duration_def)

lemma time_sub_ge:
  "0 \<le> d \<Longrightarrow> d \<le> max_duration \<Longrightarrow> time_sub t u \<ge> d \<longleftrightarrow> t - u \<ge> d"
  by (auto simp: time_sub_def max_duration_def min_duration_def)

lemma time_sub_le:
  "0 \<le> d \<Longrightarrow> d < max_duration \<Longrightarrow> time_sub t u \<le> d \<longleftrightarrow> t - u \<le> d"
  by (auto simp: time_sub_def max_duration_def min_duration_def)

lemma time_sub_exact:
  "min_duration \<le> t - u \<Longrightarrow> t - u \<le> max_duration \<Longrightarrow> time_sub t u = t - u"
  by (simp add: time_sub_def)

definition unix :: "time \<Rightarrow> int" where "unix t = t div second"

text \<open>\<open>int64(d.Seconds())\<close>: the conversion truncates towards zero.\<close>

definition trunc_secs :: "duration \<Rightarrow> int" where
  "trunc_secs d = (if d < 0 then - ((- d) div second) else d div second)"

definition local_secs :: "zone \<Rightarrow> time \<Rightarrow> int" where
  "local_secs z t = unix t + z (unix t)"

definition local_hour :: "zone \<Rightarrow> time \<Rightarrow> int" where
  "local_hour z t = local_secs z t mod 86400 div 3600"

definition local_day :: "zone \<Rightarrow> time \<Rightarrow> int" where
  "local_day z t = local_secs z t div 86400"

text \<open>\<open>time.Weekday\<close>: Sunday is 0; the epoch was a Thursday.\<close>

definition local_weekday :: "zone \<Rightarrow> time \<Rightarrow> int" where
  "local_weekday z t = (local_day z t + 4) mod 7"

text \<open>Go's reference-time formats \<open>3:04\<close>, \<open>3:04 PM\<close> and the upper case of \<open>Mon\<close>.\<close>

definition two_digits :: "int \<Rightarrow> string" where
  "two_digits n = (let s = show_int n in replicate (2 - length s) (CHR ''0'') @ s)"

definition weekday_names :: "string list" where
  "weekday_names = [''SUN'', ''MON'', ''TUE'', ''WED'', ''THU'', ''FRI'', ''SAT'']"

definition weekday_abbrev :: "zone \<Rightarrow> time \<Rightarrow> string" where
  "weekday_abbrev z t = weekday_names ! nat (local_weekday z t)"

definition clock_face :: "zone \<Rightarrow> time \<Rightarrow> string" where
  "clock_face z t =
     (let h = local_hour z t mod 12
      in show_int (if h = 0 then 12 else h) @ '':'' @ two_digits (local_secs z t mod 3600 div 60))"

definition clock12 :: "zone \<Rightarrow> time \<Rightarrow> string" where
  "clock12 z t = clock_face z t @ (if local_hour z t < 12 then '' AM'' else '' PM'')"

text \<open>\<open>time.Date\<close> for a wall-clock time given as seconds since the local epoch: the offset is
  looked up at the wall-clock value read as UTC, and corrected once.\<close>

definition time_of_local :: "zone \<Rightarrow> int \<Rightarrow> time" where
  "time_of_local z w =
     (let off = z w in (if off = 0 then w else w - z (w - off)) * second)"

lemma local_hour_range: "0 \<le> local_hour z t \<and> local_hour z t < 24"
proof -
  have "0 \<le> local_secs z t mod 86400" "local_secs z t mod 86400 < 86400" by auto
  then show ?thesis unfolding local_hour_def by linarith
qed

lemmas time_defs = unix_def local_secs_def local_hour_def local_day_def local_weekday_def
  time_of_local_def dur_defs

section \<open>Finite maps and their changes\<close>

definition map_keep :: "('v \<Rightarrow> bool) \<Rightarrow> ('k \<rightharpoonup> 'v) \<Rightarrow> ('k \<rightharpoonup> 'v)" where
  "map_keep P m = (\<lambda>k. case m k of Some v \<Rightarrow> if P v then Some v else None | None \<Rightarrow> None)"

lemma map_keep_Some [simp]: "map_keep P m k = Some v \<longleftrightarrow> m k = Some v \<and> P v"
  by (auto simp: map_keep_def split: option.splits)

lemma map_keep_None: "map_keep P m k = None \<longleftrightarrow> (\<forall>v. m k = Some v \<longrightarrow> \<not> P v)"
  by (auto simp: map_keep_def split: option.splits)

end
