(* ===== verification/Config.thy ===== *)
theory Config
  imports GoBase
begin

text \<open>
  The data of \<open>internal/config/config.go\<close> and \<open>internal/config/notify.go\<close>: one record per
  struct, in the order of the source, with the queries on a configuration and the defaults of
  \<open>applyDefaults\<close>. The answers of \<open>time.LoadLocation\<close> (the zone a name denotes) and
  \<open>url.Parse\<close> (scheme and host) depend on the machine's zone database and on a large parser; they
  are the two fields of the environment \<open>go_env\<close>, over which every definition and lemma of the
  development is quantified.
\<close>

section \<open>The configuration\<close>

record go_env =
  env_zone :: "string \<Rightarrow> zone option"
  env_url :: "string \<Rightarrow> (string \<times> string) option"

record telemetry_sqlite_config =
  ts_path :: string
  ts_retention_days :: int
  ts_prune_interval :: duration
  ts_queue_size :: int

record telemetry_config =
  tc_backend :: string
  tc_sqlite :: telemetry_sqlite_config

record persist_file_config =
  pf_path :: string

record persist_configmap_config =
  pc_namespace :: string
  pc_name :: string
  pc_key :: string

record config_persistence_config =
  cp_mode :: string
  cp_file :: persist_file_config
  cp_configmap :: persist_configmap_config

record password_reset_config =
  pr_enabled :: bool
  pr_smtp_host :: string
  pr_smtp_port :: int
  pr_from_address :: string
  pr_public_base_url :: string

record auth_config =
  ac_session_secret :: string
  ac_password_reset :: password_reset_config
  ac_require_2fa :: "bool option"
  ac_session_store_path :: string

definition two_factor_required :: "auth_config \<Rightarrow> bool" where
  "two_factor_required a = (case ac_require_2fa a of None \<Rightarrow> True | Some b \<Rightarrow> b)"

record user =
  us_username :: string
  us_password_sha256 :: string
  us_role :: string
  us_must_change :: bool
  us_totp_secret :: string
  us_email :: string
  us_locations :: "string list"

definition limited :: "user \<Rightarrow> bool" where
  "limited u \<longleftrightarrow> us_role u \<noteq> ''admin'' \<and> length (us_locations u) > 0"

definition can_see_location :: "user \<Rightarrow> string \<Rightarrow> bool" where
  "can_see_location u location = (if \<not> limited u then True else location \<in> set (us_locations u))"

record firmware_config =
  fw_version :: string
  fw_url :: string
  fw_dir :: string
  fw_web_tools_url :: string

record fleet_config =
  fl_wifi_ssid :: string
  fl_wifi_psk :: string

record lark_app_config =
  lk_app_id :: string
  lk_app_secret :: string
  lk_base_url :: string

record web_push_config =
  wp_public_key :: string
  wp_private_key :: string
  wp_subject :: string

record alert_config =
  al_low_battery_pct :: int
  al_clear_pct :: int
  al_min_renotify :: duration
  al_webhook_url :: string
  al_stale_after :: duration
  al_channels :: "string list"
  al_lark_app :: lark_app_config
  al_lark_fallback :: string
  al_webpush :: web_push_config
  al_message_style :: string

record wake_config =
  wk_mode :: string
  wk_business_hours_seconds :: u32
  wk_off_hours_seconds :: u32
  wk_business_start_hour :: int
  wk_business_end_hour :: int
  wk_timezone :: string
  wk_forced_refresh_hour :: "int option"

record render_config =
  rc_width :: int
  rc_height :: int
  rc_dither :: bool

record google_config =
  gc_credentials_file :: string
  gc_detail_level :: string

record room =
  rm_device_id :: string
  rm_name :: string
  rm_room :: string
  rm_token_sha256 :: string
  rm_location :: string
  rm_label :: string
  rm_wake_mode :: "string option"
  rm_flat_interval :: "u32 option"

record push_subscription =
  ps_username :: string
  ps_location :: string
  ps_endpoint :: string
  ps_p256dh :: string
  ps_auth :: string
  ps_created :: time

record location =
  lo_id :: string
  lo_name :: string
  lo_lark_user_email :: string
  lo_lark_chat_id :: string
  lo_delivery :: string

record config =
  cf_listen :: string
  cf_poll_interval :: duration
  cf_wake :: wake_config
  cf_render :: render_config
  cf_provider :: string
  cf_google :: google_config
  cf_alerts :: alert_config
  cf_firmware :: firmware_config
  cf_fleet :: fleet_config
  cf_auth :: auth_config
  cf_telemetry :: telemetry_config
  cf_persistence :: config_persistence_config
  cf_rooms :: "room list"
  cf_users :: "user list"
  cf_push_subscriptions :: "push_subscription list"
  cf_locations :: "location list"
  cf_default_location :: string
  cf_env_refs :: "(string \<times> string) list"

text \<open>The zero \<open>Room\<close> and \<open>User\<close> that a failed lookup returns.\<close>

definition zero_room :: room where
  "zero_room = \<lparr>rm_device_id = [], rm_name = [], rm_room = [], rm_token_sha256 = [],
     rm_location = [], rm_label = [], rm_wake_mode = None, rm_flat_interval = None\<rparr>"

definition zero_user :: user where
  "zero_user = \<lparr>us_username = [], us_password_sha256 = [], us_role = [], us_must_change = False,
     us_totp_secret = [], us_email = [], us_locations = []\<rparr>"

section \<open>Queries\<close>

definition room_by_device_id :: "config \<Rightarrow> string \<Rightarrow> room option" where
  "room_by_device_id c d = find_first (\<lambda>r. rm_device_id r = d) (cf_rooms c)"

definition user_by_username :: "config \<Rightarrow> string \<Rightarrow> user option" where
  "user_by_username c name = find_first (\<lambda>u. equal_fold (us_username u) name) (cf_users c)"

definition location_by_id :: "config \<Rightarrow> string \<Rightarrow> location option" where
  "location_by_id c i = find_first (\<lambda>l. lo_id l = i) (cf_locations c)"

definition location_of :: "config \<Rightarrow> room \<Rightarrow> string" where
  "location_of c r = (if rm_location r \<noteq> [] then rm_location r else cf_default_location c)"

definition can_see_room :: "config \<Rightarrow> user \<Rightarrow> room \<Rightarrow> bool" where
  "can_see_room c u r = can_see_location u (location_of c r)"

definition push_subscriptions_for :: "config \<Rightarrow> string \<Rightarrow> push_subscription list" where
  "push_subscriptions_for c name =
     filter (\<lambda>s. equal_fold (ps_username s) name) (cf_push_subscriptions c)"

definition effective_channels :: "alert_config \<Rightarrow> string list" where
  "effective_channels a =
     (if length (al_channels a) > 0 then al_channels a
      else if al_webhook_url a \<noteq> [] then [''slack''] else [])"

lemma room_by_device_id_SomeD:
  "room_by_device_id c d = Some r \<Longrightarrow> r \<in> set (cf_rooms c) \<and> rm_device_id r = d"
  by (auto simp: room_by_device_id_def dest: find_first_Some)

lemma user_by_username_SomeD:
  "user_by_username c n = Some u \<Longrightarrow> u \<in> set (cf_users c) \<and> equal_fold (us_username u) n"
  by (auto simp: user_by_username_def dest: find_first_Some)

lemma can_see_location_unlimited [simp]: "\<not> limited u \<Longrightarrow> can_see_location u l"
  by (simp add: can_see_location_def)

section \<open>Defaults\<close>

definition default_lark_base_url :: string where
  "default_lark_base_url = ''https://open.larksuite.com/open-apis''"

text \<open>The pattern \<open>if x == zero { x = default }\<close>.\<close>

definition or_default :: "'a \<Rightarrow> 'a \<Rightarrow> 'a \<Rightarrow> 'a" where
  "or_default zero d x = (if x = zero then d else x)"

definition default_wake :: "wake_config \<Rightarrow> wake_config" where
  "default_wake w = w\<lparr>
     wk_business_hours_seconds := or_default 0 600 (wk_business_hours_seconds w),
     wk_off_hours_seconds := or_default 0 3600 (wk_off_hours_seconds w),
     wk_timezone := or_default [] ''UTC'' (wk_timezone w)\<rparr>"

definition default_alerts :: "alert_config \<Rightarrow> alert_config" where
  "default_alerts a =
     (let lark = al_lark_app a;
          lark = (if lk_app_id lark \<noteq> [] \<and> lk_base_url lark = []
                  then lark\<lparr>lk_base_url := default_lark_base_url\<rparr> else lark);
          low = or_default 0 45 (al_low_battery_pct a)
      in a\<lparr>al_lark_app := lark,
           al_low_battery_pct := low,
           al_clear_pct := or_default 0 (low + 10) (al_clear_pct a),
           al_min_renotify := or_default 0 (24 * hour) (al_min_renotify a),
           al_stale_after := or_default 0 hour (al_stale_after a)\<rparr>)"

definition default_telemetry :: "telemetry_config \<Rightarrow> telemetry_config" where
  "default_telemetry t =
     (let s = tc_sqlite t
      in \<lparr>tc_backend = or_default [] ''memory'' (tc_backend t),
          tc_sqlite = \<lparr>ts_path = or_default [] ''/var/lib/meeting-displays/telemetry.db'' (ts_path s),
            ts_retention_days = or_default 0 90 (ts_retention_days s),
            ts_prune_interval = or_default 0 (6 * hour) (ts_prune_interval s),
            ts_queue_size = or_default 0 256 (ts_queue_size s)\<rparr>\<rparr>)"

definition default_persistence :: "config_persistence_config \<Rightarrow> config_persistence_config" where
  "default_persistence p =
     (let m = cp_configmap p
      in p\<lparr>cp_mode := or_default [] ''auto'' (cp_mode p),
           cp_configmap := \<lparr>pc_namespace = or_default [] ''meeting-displays'' (pc_namespace m),
             pc_name = or_default [] ''broker-config'' (pc_name m),
             pc_key = or_default [] ''config.yaml'' (pc_key m)\<rparr>\<rparr>)"

definition apply_defaults :: "config \<Rightarrow> config" where
  "apply_defaults c = c\<lparr>
     cf_alerts := default_alerts (cf_alerts c),
     cf_google := (cf_google c)\<lparr>gc_detail_level := or_default [] ''free_busy'' (gc_detail_level (cf_google c))\<rparr>,
     cf_listen := or_default [] '':8080'' (cf_listen c),
     cf_poll_interval := or_default 0 (2 * minute) (cf_poll_interval c),
     cf_render := (cf_render c)\<lparr>rc_width := or_default 0 800 (rc_width (cf_render c)),
       rc_height := or_default 0 480 (rc_height (cf_render c))\<rparr>,
     cf_wake := default_wake (cf_wake c),
     cf_telemetry := default_telemetry (cf_telemetry c),
     cf_persistence := default_persistence (cf_persistence c),
     cf_firmware := (cf_firmware c)\<lparr>fw_web_tools_url :=
       or_default [] ''https://unpkg.com/esp-web-tools@10/dist/web/install-button.js''
         (fw_web_tools_url (cf_firmware c))\<rparr>\<rparr>"

lemma or_default_idem [simp]: "or_default z d (or_default z d x) = or_default z d x"
  by (simp add: or_default_def)

lemma default_alerts_idem: "default_alerts (default_alerts a) = default_alerts a"
  by (simp add: default_alerts_def Let_def or_default_def default_lark_base_url_def)

text \<open>Filling in defaults a second time (a saved configuration loaded again) changes nothing.\<close>

lemma apply_defaults_idem: "apply_defaults (apply_defaults c) = apply_defaults c"
  unfolding apply_defaults_def
  by (simp add: default_alerts_idem default_wake_def default_telemetry_def default_persistence_def Let_def)

end
