(* ===== verification/Validate.thy ===== *)
theory Validate
  imports Config
begin

text \<open>
  \<open>Validate\<close> of \<open>internal/config/config.go\<close> and everything it calls there and in
  \<open>notify.go\<close>. An error is a value of \<open>cfg_error\<close>, one constructor per message of the source,
  carrying what the message prints. The loops return at the first error; \<open>first_err\<close> is that
  order. \<open>well_formed\<close> is the contract, stated without loops or orders, and \<open>validates_wf\<close> says
  that a configuration passes exactly when it satisfies the contract.
\<close>

section \<open>Errors\<close>

text \<open>One constructor per message of \<open>Validate\<close> and its helpers; the wrapping messages
  (\<open>alerts.channels selects lark: ...\<close>) carry the inner error.\<close>

datatype room_error =
    NoRooms
  | RoomFieldsRequired nat
  | DuplicateDevice string
  | RoomTokenLength string
  | RoomWakeMode string string
  | RoomNeedsLabel string nat string
  | RoomLabelClash string string string

datatype setting_error =
    BadProvider string
  | BadTimezone string
  | BadForcedHour int
  | BadWakeMode string
  | BadTelemetryBackend string
  | BadDetailLevel string
  | BadPersistenceMode string
  | BadMessageStyle string

datatype user_error =
    SessionSecretShort
  | ResetNeedsSmtp
  | ResetNeedsFrom
  | ResetNeedsBaseUrl
  | UsernameRequired nat
  | DuplicateUsername string
  | PasswordHashLength string
  | BadRole string string
  | NoAdmin

datatype url_error = UrlEmpty string | UrlNotHttps string

datatype lark_error =
    LarkAppId
  | LarkAppSecret
  | LarkUrl url_error
  | LarkFallbackShape
  | LarkNowhere
  | LarkLocationNowhere string

datatype vapid_error = VapidKeysMissing | VapidPublicShape | VapidPrivateShape | VapidSubject

datatype channel_error =
    ChannelTwice string
  | ChannelLark lark_error
  | ChannelWebPush vapid_error
  | ChannelSlack url_error
  | LogNotAlone
  | UnknownChannel string

datatype sub_error = SubUsername | SubEndpoint | SubP256dh | SubAuth | SubUnknownLocation string

datatype location_error =
    LocationIdRequired nat
  | LocationDuplicate string
  | LocationComma string
  | LocationName string
  | LocationEmail string string
  | LocationChat string
  | LocationDelivery string string
  | LocationNeedsEmail string string
  | LocationNeedsChat string string
  | AdminLimited string
  | UserUnknownLocation string string
  | UserLocationTwice string string
  | DefaultLocationRequired
  | DefaultLocationUnknown string
  | RoomUnknownLocation string string

datatype edit_error =
    RoomNotFound string
  | LocationIsDefault string
  | LocationHasRoom string string
  | LocationHasUser string string

datatype cfg_error =
    RoomErr room_error
  | SettingErr setting_error
  | UserErr user_error
  | ChannelErr channel_error
  | SubscriptionErr nat sub_error
  | LocationErr location_error
  | EditErr edit_error

section \<open>The checks\<close>

definition valid_wake_mode :: "string \<Rightarrow> bool" where
  "valid_wake_mode m \<longleftrightarrow> m = [] \<or> m = ''flat'' \<or> m = ''smart''"

definition valid_user_role :: "string \<Rightarrow> bool" where
  "valid_user_role r \<longleftrightarrow> r = ''admin'' \<or> r = ''manager'' \<or> r = ''viewer''"

definition valid_google_detail_level :: "string \<Rightarrow> bool" where
  "valid_google_detail_level d \<longleftrightarrow> d = [] \<or> d = ''free_busy'' \<or> d = ''titles''"

definition valid_telemetry_backend :: "string \<Rightarrow> bool" where
  "valid_telemetry_backend b \<longleftrightarrow> b = [] \<or> b = ''memory'' \<or> b = ''sqlite'' \<or> b = ''prometheus''"

definition valid_config_persistence_mode :: "string \<Rightarrow> bool" where
  "valid_config_persistence_mode m \<longleftrightarrow>
     m = [] \<or> m = ''auto'' \<or> m = ''file'' \<or> m = ''configmap'' \<or> m = ''none''"

text \<open>The room loop: \<open>i\<close> is the index, \<open>seen\<close> the device ids met so far.\<close>

fun validate_rooms :: "nat \<Rightarrow> string list \<Rightarrow> room list \<Rightarrow> room_error option" where
  "validate_rooms i seen [] = None"
| "validate_rooms i seen (r # rs) =
     (if rm_device_id r = [] \<or> rm_room r = [] then Some (RoomFieldsRequired i)
      else if rm_device_id r \<in> set seen then Some (DuplicateDevice (rm_device_id r))
      else if length (rm_token_sha256 r) \<noteq> 64 then Some (RoomTokenLength (rm_device_id r))
      else case rm_wake_mode r of
             Some m \<Rightarrow> if \<not> valid_wake_mode m then Some (RoomWakeMode (rm_device_id r) m)
                       else validate_rooms (Suc i) (rm_device_id r # seen) rs
           | None \<Rightarrow> validate_rooms (Suc i) (rm_device_id r # seen) rs)"

text \<open>One group of \<open>byRoom\<close>; \<open>seen\<close> maps a lower-case label to the device that claimed it.\<close>

fun validate_group :: "nat \<Rightarrow> (string \<times> string) list \<Rightarrow> room list \<Rightarrow> room_error option" where
  "validate_group n seen [] = None"
| "validate_group n seen (r # rs) =
     (if rm_label r = [] then Some (RoomNeedsLabel (rm_room r) n (rm_device_id r))
      else case map_of seen (to_lower (rm_label r)) of
             Some other \<Rightarrow> Some (RoomLabelClash other (rm_device_id r) (rm_label r))
           | None \<Rightarrow> validate_group n ((to_lower (rm_label r), rm_device_id r) # seen) rs)"

definition room_group :: "room list \<Rightarrow> string \<Rightarrow> room list" where
  "room_group rooms key = filter (\<lambda>r. to_lower (rm_room r) = key) rooms"

text \<open>The groups are visited in the order of their first rooms; Go's map order is unspecified, and
  only which of several errors is reported depends on it.\<close>

definition validate_room_labels :: "room list \<Rightarrow> room_error option" where
  "validate_room_labels rooms =
     first_err (map (\<lambda>r. let group = room_group rooms (to_lower (rm_room r))
                         in if length group < 2 then None else validate_group (length group) [] group)
                    rooms)"

fun validate_users_go :: "nat \<Rightarrow> string list \<Rightarrow> bool \<Rightarrow> user list \<Rightarrow> user_error option" where
  "validate_users_go i seen has_admin [] = err_if (\<not> has_admin) NoAdmin"
| "validate_users_go i seen has_admin (u # us) =
     (if us_username u = [] then Some (UsernameRequired i)
      else if to_lower (us_username u) \<in> set seen then Some (DuplicateUsername (us_username u))
      else if length (us_password_sha256 u) \<noteq> 64 then Some (PasswordHashLength (us_username u))
      else if \<not> valid_user_role (us_role u) then Some (BadRole (us_username u) (us_role u))
      else validate_users_go (Suc i) (to_lower (us_username u) # seen)
             (if us_role u = ''admin'' then True else has_admin) us)"

definition validate_users :: "config \<Rightarrow> user_error option" where
  "validate_users c =
     (let pr = ac_password_reset (cf_auth c)
      in if cf_users c = [] then None
         else first_err
           [err_if (length (ac_session_secret (cf_auth c)) < 32) SessionSecretShort,
            err_if (pr_enabled pr \<and> (pr_smtp_host pr = [] \<or> pr_smtp_port pr = 0)) ResetNeedsSmtp,
            err_if (pr_enabled pr \<and> pr_from_address pr = []) ResetNeedsFrom,
            err_if (pr_enabled pr \<and> pr_public_base_url pr = []) ResetNeedsBaseUrl,
            validate_users_go 0 [] False (cf_users c)])"

definition https_url :: "go_env \<Rightarrow> string \<Rightarrow> bool" where
  "https_url e v = (case env_url e v of Some (scheme, host) \<Rightarrow> scheme = ''https'' \<and> host \<noteq> []
                    | None \<Rightarrow> False)"

definition require_https :: "go_env \<Rightarrow> string \<Rightarrow> string \<Rightarrow> url_error option" where
  "require_https e field v =
     (if v = [] then Some (UrlEmpty field)
      else if \<not> https_url e v then Some (UrlNotHttps field) else None)"

definition b64_len :: "string \<Rightarrow> nat \<Rightarrow> bool" where
  "b64_len s n = (case b64url s of Some b \<Rightarrow> length b = n | None \<Rightarrow> False)"

definition validate_vapid :: "web_push_config \<Rightarrow> vapid_error option" where
  "validate_vapid w = first_err
     [err_if (wp_public_key w = [] \<or> wp_private_key w = []) VapidKeysMissing,
      err_if (\<not> b64_len (wp_public_key w) 65) VapidPublicShape,
      err_if (\<not> b64_len (wp_private_key w) 32) VapidPrivateShape,
      err_if (\<not> has_prefix (wp_subject w) ''mailto:'' \<and> \<not> has_prefix (wp_subject w) ''https://'')
        VapidSubject]"

definition validate_push_subscription :: "go_env \<Rightarrow> push_subscription \<Rightarrow> sub_error option" where
  "validate_push_subscription e s = first_err
     [err_if (ps_username s = []) SubUsername,
      err_if (\<not> https_url e (ps_endpoint s)) SubEndpoint,
      err_if (\<not> b64_len (ps_p256dh s) 65) SubP256dh,
      err_if (\<not> b64_len (ps_auth s) 16) SubAuth]"

fun last_index :: "char \<Rightarrow> string \<Rightarrow> nat option" where
  "last_index c [] = None"
| "last_index c (x # xs) = (case last_index c xs of
       Some n \<Rightarrow> Some (Suc n) | None \<Rightarrow> if x = c then Some 0 else None)"

definition valid_email :: "string \<Rightarrow> bool" where
  "valid_email s = (case last_index CHR ''@'' s of
       None \<Rightarrow> False
     | Some at \<Rightarrow> at > 0 \<and> at < length s - 1
         \<and> \<not> list_ex (\<lambda>c. c \<in> {CHR '' '', CHR 0x09, CHR ''<'', CHR ''>''}) s
         \<and> CHR ''.'' \<in> set (drop at s))"

definition validate_location :: "nat \<Rightarrow> string list \<Rightarrow> location \<Rightarrow> location_error option" where
  "validate_location i seen l =
     (let d = lo_delivery l in first_err
       [err_if (lo_id l = []) (LocationIdRequired i),
        err_if (lo_id l \<in> set seen) (LocationDuplicate (lo_id l)),
        err_if (CHR '','' \<in> set (lo_id l)) (LocationComma (lo_id l)),
        err_if (trim_space (lo_name l) = []) (LocationName (lo_id l)),
        err_if (lo_lark_user_email l \<noteq> [] \<and> \<not> valid_email (lo_lark_user_email l))
          (LocationEmail (lo_id l) (lo_lark_user_email l)),
        err_if (lo_lark_chat_id l \<noteq> [] \<and> \<not> has_prefix (lo_lark_chat_id l) ''oc_'') (LocationChat (lo_id l)),
        err_if (d \<noteq> [] \<and> d \<noteq> ''dm'' \<and> d \<noteq> ''group'' \<and> d \<noteq> ''both'') (LocationDelivery (lo_id l) d),
        err_if ((d = ''dm'' \<or> d = ''both'') \<and> lo_lark_user_email l = []) (LocationNeedsEmail (lo_id l) d),
        err_if ((d = ''group'' \<or> d = ''both'') \<and> lo_lark_chat_id l = []) (LocationNeedsChat (lo_id l) d)])"

fun validate_location_list :: "nat \<Rightarrow> string list \<Rightarrow> location list \<Rightarrow> location_error option" where
  "validate_location_list i seen [] = None"
| "validate_location_list i seen (l # ls) =
     (case validate_location i seen l of
        Some e \<Rightarrow> Some e
      | None \<Rightarrow> validate_location_list (Suc i) (lo_id l # seen) ls)"

fun validate_user_ids :: "string list \<Rightarrow> string \<Rightarrow> string list \<Rightarrow> string list \<Rightarrow> location_error option" where
  "validate_user_ids seen name listed [] = None"
| "validate_user_ids seen name listed (i # is) =
     (if i \<notin> set seen then Some (UserUnknownLocation name i)
      else if i \<in> set listed then Some (UserLocationTwice name i)
      else validate_user_ids seen name (i # listed) is)"

definition validate_user_locations :: "string list \<Rightarrow> user \<Rightarrow> location_error option" where
  "validate_user_locations seen u =
     (if us_role u = ''admin'' \<and> length (us_locations u) > 0 then Some (AdminLimited (us_username u))
      else validate_user_ids seen (us_username u) [] (us_locations u))"

definition validate_locations :: "config \<Rightarrow> location_error option" where
  "validate_locations c =
     (let seen = map lo_id (cf_locations c) in first_err
       ([validate_location_list 0 [] (cf_locations c)]
        @ map (validate_user_locations seen) (cf_users c)
        @ [err_if (cf_locations c \<noteq> [] \<and> cf_default_location c = []) DefaultLocationRequired,
           err_if (cf_default_location c \<noteq> [] \<and> cf_default_location c \<notin> set seen)
             (DefaultLocationUnknown (cf_default_location c))]
        @ map (\<lambda>r. err_if (rm_location r \<noteq> [] \<and> rm_location r \<notin> set seen)
                 (RoomUnknownLocation (rm_device_id r) (rm_location r))) (cf_rooms c)))"

definition validate_lark_app :: "go_env \<Rightarrow> config \<Rightarrow> lark_error option" where
  "validate_lark_app e c =
     (let a = cf_alerts c; app = al_lark_app a in first_err
       ([err_if (lk_app_id app = []) LarkAppId,
         err_if (lk_app_secret app = []) LarkAppSecret,
         (if lk_base_url app \<noteq> []
          then map_option LarkUrl (require_https e ''alerts.lark_app.base_url'' (lk_base_url app)) else None),
         err_if (al_lark_fallback a \<noteq> [] \<and> \<not> has_prefix (al_lark_fallback a) ''oc_'') LarkFallbackShape]
        @ (if al_lark_fallback a \<noteq> [] then []
           else err_if (cf_locations c = []) LarkNowhere
             # map (\<lambda>l. err_if (lo_lark_user_email l = [] \<and> lo_lark_chat_id l = [])
                        (LarkLocationNowhere (lo_id l))) (cf_locations c))))"

definition validate_channel :: "go_env \<Rightarrow> config \<Rightarrow> string \<Rightarrow> channel_error option" where
  "validate_channel e c ch =
     (let a = cf_alerts c in
      if ch = ''lark'' then map_option ChannelLark (validate_lark_app e c)
      else if ch = ''webpush'' then map_option ChannelWebPush (validate_vapid (al_webpush a))
      else if ch = ''slack'' then
        map_option ChannelSlack (require_https e ''alerts.webhook_url'' (al_webhook_url a))
      else if ch = ''log'' then err_if (length (al_channels a) \<noteq> 1) LogNotAlone
      else Some (UnknownChannel ch))"

fun validate_channels :: "go_env \<Rightarrow> config \<Rightarrow> string list \<Rightarrow> string list \<Rightarrow> channel_error option" where
  "validate_channels e c seen [] = None"
| "validate_channels e c seen (ch # chs) =
     (if ch \<in> set seen then Some (ChannelTwice ch)
      else case validate_channel e c ch of
             Some er \<Rightarrow> Some er
           | None \<Rightarrow> validate_channels e c (ch # seen) chs)"

fun validate_subscriptions :: "go_env \<Rightarrow> config \<Rightarrow> nat \<Rightarrow> push_subscription list \<Rightarrow> cfg_error option" where
  "validate_subscriptions e c i [] = None"
| "validate_subscriptions e c i (s # ss) =
     (case validate_push_subscription e s of
        Some er \<Rightarrow> Some (SubscriptionErr i er)
      | None \<Rightarrow>
          if ps_location s \<noteq> [] \<and> location_by_id c (ps_location s) = None
          then Some (SubscriptionErr i (SubUnknownLocation (ps_location s)))
          else validate_subscriptions e c (Suc i) ss)"

definition validate_notify :: "go_env \<Rightarrow> config \<Rightarrow> cfg_error option" where
  "validate_notify e c =
     (let m = al_message_style (cf_alerts c) in first_err
       [err_if (m \<noteq> [] \<and> m \<noteq> ''plain'' \<and> m \<noteq> ''minimal'' \<and> m \<noteq> ''detailed'') (SettingErr (BadMessageStyle m)),
        map_option ChannelErr (validate_channels e c [] (al_channels (cf_alerts c))),
        validate_subscriptions e c 0 (cf_push_subscriptions c),
        map_option LocationErr (validate_locations c)])"

definition bad_hour :: "int option \<Rightarrow> int option" where
  "bad_hour h = (case h of Some x \<Rightarrow> if x < 0 \<or> x > 23 then Some x else None | None \<Rightarrow> None)"

definition validate :: "go_env \<Rightarrow> config \<Rightarrow> cfg_error option" where
  "validate e c = first_err
     [err_if (cf_provider c \<noteq> ''google'' \<and> cf_provider c \<noteq> ''demo'') (SettingErr (BadProvider (cf_provider c))),
      err_if (cf_rooms c = []) (RoomErr NoRooms),
      map_option RoomErr (validate_rooms 0 [] (cf_rooms c)),
      map_option RoomErr (validate_room_labels (cf_rooms c)),
      err_if (env_zone e (wk_timezone (cf_wake c)) = None) (SettingErr (BadTimezone (wk_timezone (cf_wake c)))),
      map_option (SettingErr \<circ> BadForcedHour) (bad_hour (wk_forced_refresh_hour (cf_wake c))),
      err_if (\<not> valid_wake_mode (wk_mode (cf_wake c))) (SettingErr (BadWakeMode (wk_mode (cf_wake c)))),
      err_if (\<not> valid_telemetry_backend (tc_backend (cf_telemetry c)))
        (SettingErr (BadTelemetryBackend (tc_backend (cf_telemetry c)))),
      err_if (\<not> valid_google_detail_level (gc_detail_level (cf_google c)))
        (SettingErr (BadDetailLevel (gc_detail_level (cf_google c)))),
      err_if (\<not> valid_config_persistence_mode (cp_mode (cf_persistence c)))
        (SettingErr (BadPersistenceMode (cp_mode (cf_persistence c)))),
      map_option UserErr (validate_users c),
      validate_notify e c]"

section \<open>The contract\<close>

definition room_ok :: "room \<Rightarrow> bool" where
  "room_ok r \<longleftrightarrow> rm_device_id r \<noteq> [] \<and> rm_room r \<noteq> [] \<and> length (rm_token_sha256 r) = 64
     \<and> (\<forall>m. rm_wake_mode r = Some m \<longrightarrow> valid_wake_mode m)"

text \<open>Two panels of one room address carry labels, and different ones.\<close>

definition labels_ok :: "room list \<Rightarrow> bool" where
  "labels_ok rs \<longleftrightarrow> (\<forall>r \<in> set rs. \<forall>r' \<in> set rs.
     rm_device_id r \<noteq> rm_device_id r' \<and> equal_fold (rm_room r) (rm_room r') \<longrightarrow>
       rm_label r \<noteq> [] \<and> \<not> equal_fold (rm_label r) (rm_label r'))"

definition rooms_ok :: "room list \<Rightarrow> bool" where
  "rooms_ok rs \<longleftrightarrow> rs \<noteq> [] \<and> (\<forall>r \<in> set rs. room_ok r) \<and> distinct (map rm_device_id rs) \<and> labels_ok rs"

definition settings_ok :: "go_env \<Rightarrow> config \<Rightarrow> bool" where
  "settings_ok e c \<longleftrightarrow>
     cf_provider c \<in> {''google'', ''demo''}
     \<and> env_zone e (wk_timezone (cf_wake c)) \<noteq> None
     \<and> (\<forall>h. wk_forced_refresh_hour (cf_wake c) = Some h \<longrightarrow> 0 \<le> h \<and> h \<le> 23)
     \<and> wk_mode (cf_wake c) \<in> {[], ''flat'', ''smart''}
     \<and> tc_backend (cf_telemetry c) \<in> {[], ''memory'', ''sqlite'', ''prometheus''}
     \<and> gc_detail_level (cf_google c) \<in> {[], ''free_busy'', ''titles''}
     \<and> cp_mode (cf_persistence c) \<in> {[], ''auto'', ''file'', ''configmap'', ''none''}
     \<and> al_message_style (cf_alerts c) \<in> {[], ''plain'', ''minimal'', ''detailed''}"

definition user_ok :: "user \<Rightarrow> bool" where
  "user_ok u \<longleftrightarrow> us_username u \<noteq> [] \<and> length (us_password_sha256 u) = 64
     \<and> us_role u \<in> {''admin'', ''manager'', ''viewer''}"

definition reset_ok :: "password_reset_config \<Rightarrow> bool" where
  "reset_ok p \<longleftrightarrow> (pr_enabled p \<longrightarrow> pr_smtp_host p \<noteq> [] \<and> pr_smtp_port p \<noteq> 0
     \<and> pr_from_address p \<noteq> [] \<and> pr_public_base_url p \<noteq> [])"

text \<open>As soon as there is one account there is a signing secret and an administrator.\<close>

definition users_ok :: "config \<Rightarrow> bool" where
  "users_ok c \<longleftrightarrow> (cf_users c \<noteq> [] \<longrightarrow>
     length (ac_session_secret (cf_auth c)) \<ge> 32 \<and> reset_ok (ac_password_reset (cf_auth c))
     \<and> (\<forall>u \<in> set (cf_users c). user_ok u)
     \<and> distinct (map (to_lower \<circ> us_username) (cf_users c))
     \<and> (\<exists>u \<in> set (cf_users c). us_role u = ''admin''))"

definition location_ok :: "location \<Rightarrow> bool" where
  "location_ok l \<longleftrightarrow> lo_id l \<noteq> [] \<and> CHR '','' \<notin> set (lo_id l) \<and> trim_space (lo_name l) \<noteq> []
     \<and> (lo_lark_user_email l \<noteq> [] \<longrightarrow> valid_email (lo_lark_user_email l))
     \<and> (lo_lark_chat_id l \<noteq> [] \<longrightarrow> has_prefix (lo_lark_chat_id l) ''oc_'')
     \<and> lo_delivery l \<in> {[], ''dm'', ''group'', ''both''}
     \<and> (lo_delivery l \<in> {''dm'', ''both''} \<longrightarrow> lo_lark_user_email l \<noteq> [])
     \<and> (lo_delivery l \<in> {''group'', ''both''} \<longrightarrow> lo_lark_chat_id l \<noteq> [])"

text \<open>Every location that is named anywhere exists.\<close>

definition locations_ok :: "config \<Rightarrow> bool" where
  "locations_ok c \<longleftrightarrow>
     (let ids = set (map lo_id (cf_locations c)) in
      (\<forall>l \<in> set (cf_locations c). location_ok l) \<and> distinct (map lo_id (cf_locations c))
      \<and> (\<forall>u \<in> set (cf_users c). (us_role u = ''admin'' \<longrightarrow> us_locations u = [])
           \<and> set (us_locations u) \<subseteq> ids \<and> distinct (us_locations u))
      \<and> (cf_locations c \<noteq> [] \<longrightarrow> cf_default_location c \<noteq> [])
      \<and> (cf_default_location c \<noteq> [] \<longrightarrow> cf_default_location c \<in> ids)
      \<and> (\<forall>r \<in> set (cf_rooms c). rm_location r \<noteq> [] \<longrightarrow> rm_location r \<in> ids))"

definition channels_ok :: "go_env \<Rightarrow> config \<Rightarrow> bool" where
  "channels_ok e c \<longleftrightarrow> distinct (al_channels (cf_alerts c))
     \<and> (\<forall>ch \<in> set (al_channels (cf_alerts c)). validate_channel e c ch = None)"

definition subscriptions_ok :: "go_env \<Rightarrow> config \<Rightarrow> bool" where
  "subscriptions_ok e c \<longleftrightarrow> (\<forall>s \<in> set (cf_push_subscriptions c).
     ps_username s \<noteq> [] \<and> https_url e (ps_endpoint s) \<and> b64_len (ps_p256dh s) 65 \<and> b64_len (ps_auth s) 16
     \<and> (ps_location s \<noteq> [] \<longrightarrow> ps_location s \<in> lo_id ` set (cf_locations c)))"

definition well_formed :: "go_env \<Rightarrow> config \<Rightarrow> bool" where
  "well_formed e c \<longleftrightarrow> rooms_ok (cf_rooms c) \<and> settings_ok e c \<and> users_ok c
     \<and> channels_ok e c \<and> subscriptions_ok e c \<and> locations_ok c"

section \<open>Each check decides its part of the contract\<close>

lemma validate_rooms_None:
  "validate_rooms i seen rs = None \<longleftrightarrow>
     (\<forall>r \<in> set rs. room_ok r) \<and> distinct (map rm_device_id rs)
     \<and> set (map rm_device_id rs) \<inter> set seen = {}"
proof (induction rs arbitrary: i seen)
  case (Cons r rs)
  then show ?case by (cases "rm_wake_mode r") (auto simp: room_ok_def)
qed simp

lemma validate_group_None:
  "validate_group n seen rs = None \<longleftrightarrow>
     (\<forall>r \<in> set rs. rm_label r \<noteq> []) \<and> distinct (map (to_lower \<circ> rm_label) rs)
     \<and> set (map (to_lower \<circ> rm_label) rs) \<inter> fst ` set seen = {}"
proof (induction rs arbitrary: seen)
  case (Cons r rs)
  show ?case
  proof (cases "map_of seen (to_lower (rm_label r))")
    case None
    then have "to_lower (rm_label r) \<notin> fst ` set seen" by (simp add: map_of_eq_None_iff)
    with None Cons show ?thesis by auto
  next
    case (Some other)
    then have "to_lower (rm_label r) \<in> fst ` set seen" by (auto dest: map_of_SomeD intro: rev_image_eqI)
    with Some show ?thesis by auto
  qed
qed simp

text \<open>Over a list with distinct keys, a distinctness condition on a sublist speaks about pairs of
  elements with different keys.\<close>

lemma distinct_filter_pairs:
  assumes "distinct (map k xs)"
  shows "distinct (map f (filter P xs)) \<longleftrightarrow>
    (\<forall>x \<in> set xs. \<forall>y \<in> set xs. k x \<noteq> k y \<and> P x \<and> P y \<longrightarrow> f x \<noteq> f y)"
  using assms
proof (induction xs)
  case (Cons a xs)
  then have a: "\<And>x. x \<in> set xs \<Longrightarrow> k x \<noteq> k a" by (auto simp: rev_image_eqI)
  from Cons have "distinct (map f (filter P xs)) \<longleftrightarrow>
    (\<forall>x \<in> set xs. \<forall>y \<in> set xs. k x \<noteq> k y \<and> P x \<and> P y \<longrightarrow> f x \<noteq> f y)" by simp
  with a show ?case by (cases "P a") (auto simp: image_iff)
qed simp

lemma filter_ge2_iff:
  assumes "distinct (map k xs)" "x \<in> set xs" "P x"
  shows "length (filter P xs) \<ge> 2 \<longleftrightarrow> (\<exists>y \<in> set xs. k y \<noteq> k x \<and> P y)"
proof
  assume l: "length (filter P xs) \<ge> 2"
  have d: "distinct (filter P xs)" using assms(1) by (simp add: distinct_map)
  have "card (set (filter P xs)) \<ge> 2" by (simp only: distinct_card [OF d] l)
  then have "\<not> set (filter P xs) \<subseteq> {x}" using card_mono [of "{x}" "set (filter P xs)"] by auto
  then obtain y where "y \<in> set (filter P xs)" "y \<noteq> x" by blast
  with assms show "\<exists>y \<in> set xs. k y \<noteq> k x \<and> P y"
    by (auto simp: distinct_map dest: inj_onD)
next
  assume "\<exists>y \<in> set xs. k y \<noteq> k x \<and> P y"
  then obtain y where "y \<in> set xs" "y \<noteq> x" "P y" by auto
  then have "{x, y} \<subseteq> set (filter P xs)" using assms by auto
  then have "card {x, y} \<le> card (set (filter P xs))" by (intro card_mono) auto
  also have "\<dots> \<le> length (filter P xs)" by (rule card_length)
  finally show "length (filter P xs) \<ge> 2" using \<open>y \<noteq> x\<close> by simp
qed

lemma pairs_with_partner:
  assumes "\<forall>x \<in> A. P x \<longrightarrow> (\<exists>y \<in> A. k x \<noteq> k y \<and> P y)"
  shows "(\<forall>x. x \<in> A \<and> P x \<longrightarrow> E x) \<and> (\<forall>x \<in> A. \<forall>y \<in> A. k x \<noteq> k y \<and> P x \<and> P y \<longrightarrow> f x \<noteq> f y) \<longleftrightarrow>
    (\<forall>x \<in> A. \<forall>y \<in> A. k x \<noteq> k y \<and> P x \<and> P y \<longrightarrow> E x \<and> f x \<noteq> f y)"
  using assms by blast

lemma pairs_by_key:
  "(\<forall>r \<in> A. \<forall>x \<in> A. \<forall>y \<in> A. k x \<noteq> k y \<and> g x = g r \<and> g y = g r \<longrightarrow> Q x y) \<longleftrightarrow>
   (\<forall>x \<in> A. \<forall>y \<in> A. k x \<noteq> k y \<and> g x = g y \<longrightarrow> Q x y)"
  by metis

lemma validate_room_labels_None:
  assumes "distinct (map rm_device_id rs)"
  shows "validate_room_labels rs = None \<longleftrightarrow> labels_ok rs"
proof -
  have group: "(let g = room_group rs (to_lower (rm_room r))
      in if length g < 2 then None else validate_group (length g) [] g) = None \<longleftrightarrow>
    (\<forall>x \<in> set rs. \<forall>y \<in> set rs. rm_device_id x \<noteq> rm_device_id y
        \<and> to_lower (rm_room x) = to_lower (rm_room r) \<and> to_lower (rm_room y) = to_lower (rm_room r)
        \<longrightarrow> rm_label x \<noteq> [] \<and> to_lower (rm_label x) \<noteq> to_lower (rm_label y))"
    if "r \<in> set rs" for r
  proof -
    let ?P = "\<lambda>x. to_lower (rm_room x) = to_lower (rm_room r)"
    have ge2: "length (filter ?P rs) \<ge> 2 \<longleftrightarrow> (\<exists>y \<in> set rs. rm_device_id y \<noteq> rm_device_id x \<and> ?P y)"
      if "x \<in> set rs" "?P x" for x
      by (rule filter_ge2_iff [OF assms, of x ?P]) (use that in simp_all)
    show ?thesis
    proof (cases "length (filter ?P rs) < 2")
      case True
      then show ?thesis using ge2 by (force simp: room_group_def)
    next
      case False
      then have "\<forall>x \<in> set rs. ?P x \<longrightarrow> (\<exists>y \<in> set rs. rm_device_id x \<noteq> rm_device_id y \<and> ?P y)"
        using ge2 by (metis linorder_not_less)
      from pairs_with_partner [OF this, of "\<lambda>x. rm_label x \<noteq> []" "to_lower \<circ> rm_label"] False
      show ?thesis
        by (simp add: room_group_def Let_def validate_group_None
            distinct_filter_pairs [OF assms, where P = ?P])
    qed
  qed
  show ?thesis
    unfolding validate_room_labels_def first_err_None labels_ok_def equal_fold_def
    by (simp add: group pairs_by_key)
qed

lemma validate_users_go_None:
  "validate_users_go i seen adm us = None \<longleftrightarrow>
     (\<forall>u \<in> set us. user_ok u) \<and> distinct (map (to_lower \<circ> us_username) us)
     \<and> set (map (to_lower \<circ> us_username) us) \<inter> set seen = {}
     \<and> (adm \<or> (\<exists>u \<in> set us. us_role u = ''admin''))"
  by (induction us arbitrary: i seen adm) (auto simp: user_ok_def valid_user_role_def)

lemma validate_users_None: "validate_users c = None \<longleftrightarrow> users_ok c"
  by (auto simp: validate_users_def users_ok_def reset_ok_def Let_def validate_users_go_None)

lemma validate_location_None:
  "validate_location i seen l = None \<longleftrightarrow> location_ok l \<and> lo_id l \<notin> set seen"
  by (auto simp: validate_location_def location_ok_def Let_def)

lemma validate_location_list_None:
  "validate_location_list i seen ls = None \<longleftrightarrow>
     (\<forall>l \<in> set ls. location_ok l) \<and> distinct (map lo_id ls) \<and> set (map lo_id ls) \<inter> set seen = {}"
proof (induction ls arbitrary: i seen)
  case (Cons l ls)
  show ?case
  proof (cases "validate_location i seen l")
    case None
    then have "location_ok l" "lo_id l \<notin> set seen" by (simp_all add: validate_location_None)
    with None Cons show ?thesis by auto
  next
    case (Some e)
    then have "\<not> (location_ok l \<and> lo_id l \<notin> set seen)"
      using validate_location_None [of i seen l] by simp
    with Some show ?thesis by auto
  qed
qed simp

lemma validate_user_ids_None:
  "validate_user_ids seen name listed ids = None \<longleftrightarrow>
     set ids \<subseteq> set seen \<and> distinct ids \<and> set ids \<inter> set listed = {}"
  by (induction ids arbitrary: listed) auto

lemma validate_user_locations_None:
  "validate_user_locations seen u = None \<longleftrightarrow>
     (us_role u = ''admin'' \<longrightarrow> us_locations u = []) \<and> set (us_locations u) \<subseteq> set seen
     \<and> distinct (us_locations u)"
  by (auto simp: validate_user_locations_def validate_user_ids_None)

lemma validate_locations_None: "validate_locations c = None \<longleftrightarrow> locations_ok c"
proof -
  let ?ids = "map lo_id (cf_locations c)"
  have rooms: "(\<forall>x \<in> set (map (\<lambda>r. err_if (rm_location r \<noteq> [] \<and> rm_location r \<notin> set ?ids)
      (RoomUnknownLocation (rm_device_id r) (rm_location r))) (cf_rooms c)). x = None) \<longleftrightarrow>
    (\<forall>r \<in> set (cf_rooms c). rm_location r \<noteq> [] \<longrightarrow> rm_location r \<in> set ?ids)" by auto
  have users: "(\<forall>x \<in> set (map (validate_user_locations ?ids) (cf_users c)). x = None) \<longleftrightarrow>
    (\<forall>u \<in> set (cf_users c). (us_role u = ''admin'' \<longrightarrow> us_locations u = [])
       \<and> set (us_locations u) \<subseteq> set ?ids \<and> distinct (us_locations u))"
    by (simp only: set_map ball_simps validate_user_locations_None)
  show ?thesis
    unfolding validate_locations_def locations_ok_def Let_def first_err_None set_append ball_Un
      rooms users
    by (simp only: list.set ball_simps err_if_None validate_location_list_None empty_iff
        Int_empty_right simp_thms de_Morgan_conj not_not) argo
qed

lemma validate_channels_None:
  "validate_channels e c seen chs = None \<longleftrightarrow>
     (\<forall>ch \<in> set chs. validate_channel e c ch = None) \<and> distinct chs \<and> set chs \<inter> set seen = {}"
  by (induction chs arbitrary: seen) (auto split: option.splits)

lemma validate_push_subscription_None:
  "validate_push_subscription e s = None \<longleftrightarrow>
     ps_username s \<noteq> [] \<and> https_url e (ps_endpoint s) \<and> b64_len (ps_p256dh s) 65 \<and> b64_len (ps_auth s) 16"
  by (auto simp: validate_push_subscription_def)

lemma location_by_id_None: "location_by_id c i = None \<longleftrightarrow> i \<notin> lo_id ` set (cf_locations c)"
  by (auto simp: location_by_id_def)

lemma validate_subscriptions_None:
  "validate_subscriptions e c i ss = None \<longleftrightarrow> (\<forall>s \<in> set ss.
     validate_push_subscription e s = None
     \<and> (ps_location s \<noteq> [] \<longrightarrow> ps_location s \<in> lo_id ` set (cf_locations c)))"
proof (induction ss arbitrary: i)
  case (Cons s ss)
  then show ?case
    by (cases "validate_push_subscription e s") (auto simp: location_by_id_None)
qed simp

lemma bad_hour_None: "bad_hour h = None \<longleftrightarrow> (\<forall>x. h = Some x \<longrightarrow> 0 \<le> x \<and> x \<le> 23)"
  by (auto simp: bad_hour_def split: option.splits)

lemma validate_notify_None:
  "validate_notify e c = None \<longleftrightarrow>
     al_message_style (cf_alerts c) \<in> {[], ''plain'', ''minimal'', ''detailed''}
     \<and> channels_ok e c \<and> subscriptions_ok e c \<and> locations_ok c"
  unfolding validate_notify_def Let_def
  by (auto simp: validate_channels_None validate_subscriptions_None validate_push_subscription_None
      validate_locations_None channels_ok_def subscriptions_ok_def)

lemma validates_wf: "validate e c = None \<longleftrightarrow> well_formed e c"
proof -
  have rooms: "validate_rooms 0 [] (cf_rooms c) = None \<and> validate_room_labels (cf_rooms c) = None
      \<and> cf_rooms c \<noteq> [] \<longleftrightarrow> rooms_ok (cf_rooms c)"
    using validate_room_labels_None [of "cf_rooms c"]
    by (auto simp: validate_rooms_None rooms_ok_def)
  have "validate e c = None \<longleftrightarrow>
      (validate_rooms 0 [] (cf_rooms c) = None \<and> validate_room_labels (cf_rooms c) = None
        \<and> cf_rooms c \<noteq> []) \<and> settings_ok e c \<and> users_ok c
      \<and> channels_ok e c \<and> subscriptions_ok e c \<and> locations_ok c"
    unfolding validate_def settings_ok_def
    by (simp add: bad_hour_None validate_users_None validate_notify_None valid_wake_mode_def
        valid_telemetry_backend_def valid_google_detail_level_def valid_config_persistence_mode_def)
      blast
  with rooms show ?thesis by (simp add: well_formed_def)
qed


lemma well_formed_zone: "well_formed e c \<Longrightarrow> \<exists>z. env_zone e (wk_timezone (cf_wake c)) = Some z"
  by (simp add: well_formed_def settings_ok_def)

section \<open>A small configuration\<close>

text \<open>An environment that knows one zone and one shape of address, and a fleet of three panels (two
  of them in one room) over two locations with three accounts. Lemmas with hypotheses are applied
  to it.\<close>

definition sample_env :: go_env where
  "sample_env = \<lparr>env_zone = (\<lambda>n. if n = ''UTC'' then Some (\<lambda>t. 0) else None),
     env_url = (\<lambda>v. if has_prefix v ''https://'' then Some (''https'', drop 8 v) else None)\<rparr>"

definition sample_hash :: string where
  "sample_hash = replicate 64 CHR ''0''"

definition sample_room :: "string \<Rightarrow> string \<Rightarrow> string \<Rightarrow> string \<Rightarrow> room" where
  "sample_room d addr loc label = zero_room\<lparr>rm_device_id := d, rm_name := d, rm_room := addr,
     rm_token_sha256 := sample_hash, rm_location := loc, rm_label := label\<rparr>"

definition sample_user :: "string \<Rightarrow> string \<Rightarrow> string list \<Rightarrow> user" where
  "sample_user n role locs = zero_user\<lparr>us_username := n, us_password_sha256 := sample_hash,
     us_role := role, us_email := n @ ''@x.io'', us_locations := locs\<rparr>"

definition sample_location :: "string \<Rightarrow> string \<Rightarrow> location" where
  "sample_location i name =
     \<lparr>lo_id = i, lo_name = name, lo_lark_user_email = [], lo_lark_chat_id = [], lo_delivery = []\<rparr>"

definition sample_config :: config where
  "sample_config =
     \<lparr>cf_listen = [], cf_poll_interval = 0,
      cf_wake = \<lparr>wk_mode = [], wk_business_hours_seconds = 0, wk_off_hours_seconds = 0,
        wk_business_start_hour = 8, wk_business_end_hour = 18, wk_timezone = ''UTC'',
        wk_forced_refresh_hour = Some 3\<rparr>,
      cf_render = \<lparr>rc_width = 0, rc_height = 0, rc_dither = False\<rparr>,
      cf_provider = ''demo'',
      cf_google = \<lparr>gc_credentials_file = [], gc_detail_level = []\<rparr>,
      cf_alerts = \<lparr>al_low_battery_pct = 0, al_clear_pct = 0, al_min_renotify = 0,
        al_webhook_url = [], al_stale_after = 0, al_channels = [''log''],
        al_lark_app = \<lparr>lk_app_id = [], lk_app_secret = [], lk_base_url = []\<rparr>,
        al_lark_fallback = [], al_webpush = \<lparr>wp_public_key = [], wp_private_key = [], wp_subject = []\<rparr>,
        al_message_style = []\<rparr>,
      cf_firmware = \<lparr>fw_version = [], fw_url = [], fw_dir = [], fw_web_tools_url = []\<rparr>,
      cf_fleet = \<lparr>fl_wifi_ssid = [], fl_wifi_psk = []\<rparr>,
      cf_auth = \<lparr>ac_session_secret = replicate 32 CHR ''s'',
        ac_password_reset = \<lparr>pr_enabled = False, pr_smtp_host = [], pr_smtp_port = 0,
          pr_from_address = [], pr_public_base_url = []\<rparr>,
        ac_require_2fa = None, ac_session_store_path = []\<rparr>,
      cf_telemetry = \<lparr>tc_backend = [], tc_sqlite = \<lparr>ts_path = [], ts_retention_days = 0,
        ts_prune_interval = 0, ts_queue_size = 0\<rparr>\<rparr>,
      cf_persistence = \<lparr>cp_mode = [], cp_file = \<lparr>pf_path = []\<rparr>,
        cp_configmap = \<lparr>pc_namespace = [], pc_name = [], pc_key = []\<rparr>\<rparr>,
      cf_rooms = [sample_room ''d1'' ''a@x.io'' ''sf'' ''Door'', sample_room ''d2'' ''A@x.io'' ''sf'' ''Wall'',
        sample_room ''d3'' ''b@x.io'' [] []],
      cf_users = [sample_user ''ann'' ''admin'' [], sample_user ''bob'' ''manager'' [''sf''],
        sample_user ''cy'' ''viewer'' []],
      cf_push_subscriptions = [],
      cf_locations = [sample_location ''sf'' ''San Francisco'', sample_location ''ny'' ''New York''],
      cf_default_location = ''ny'', cf_env_refs = []\<rparr>"

lemmas sample_defs = sample_config_def sample_user_def sample_room_def sample_location_def
  zero_room_def zero_user_def sample_hash_def

lemma sample_fields [simp]:
  "us_username (sample_user n r ls) = n" "us_role (sample_user n r ls) = r"
  "us_locations (sample_user n r ls) = ls" "length (us_password_sha256 (sample_user n r ls)) = 64"
  "rm_device_id (sample_room d a l b) = d" "rm_room (sample_room d a l b) = a"
  "rm_location (sample_room d a l b) = l" "rm_label (sample_room d a l b) = b"
  "length (rm_token_sha256 (sample_room d a l b)) = 64" "rm_wake_mode (sample_room d a l b) = None"
  "rm_flat_interval (sample_room d a l b) = None"
  "lo_id (sample_location i m) = i" "lo_name (sample_location i m) = m"
  "lo_lark_user_email (sample_location i m) = []" "lo_lark_chat_id (sample_location i m) = []"
  "lo_delivery (sample_location i m) = []"
  by (simp_all add: sample_user_def sample_room_def sample_location_def zero_room_def zero_user_def
      sample_hash_def)

text \<open>The parts of the contract on closed terms.\<close>

lemmas contract_defs = rooms_ok_def room_ok_def labels_ok_def settings_ok_def users_ok_def user_ok_def
  reset_ok_def channels_ok_def subscriptions_ok_def locations_ok_def location_ok_def
  validate_channel_def equal_fold_def to_lower_def char_lower_def char_of_def trim_space_def is_space_def

lemma sample_well_formed: "well_formed sample_env sample_config"
  unfolding well_formed_def
  by (intro conjI; simp add: sample_config_def; simp add: contract_defs sample_env_def Let_def)

end
