(* ===== verification/ConfigEdit.thy ===== *)
theory ConfigEdit
  imports Validate "HOL-Library.Product_Lexorder" "HOL-Library.Sublist"
begin

text \<open>
  How a configuration changes: the edits of \<open>internal/config\<close> (\<open>WithRoom\<close> and the other \<open>With...\<close>
  methods of \<open>config.go\<close> and \<open>notify.go\<close>). \<open>clone\<close> copies every slice an edit writes to, so an edit is a
  function of the old configuration. The lemmas say what each edit changes and what it leaves, and that
  nothing but a well-formed configuration comes out.
\<close>

section \<open>Edits\<close>

text \<open>The tail of every edit: \<open>if err := next.Validate(); err != nil { return nil, err }\<close>.\<close>

definition checked :: "go_env \<Rightarrow> config \<Rightarrow> cfg_error + config" where
  "checked e nxt = (case validate e nxt of Some err \<Rightarrow> Inl err | None \<Rightarrow> Inr nxt)"

definition with_room :: "go_env \<Rightarrow> config \<Rightarrow> room \<Rightarrow> cfg_error + config" where
  "with_room e c updated =
     checked e (c\<lparr>cf_rooms := upsert (\<lambda>r. rm_device_id r = rm_device_id updated) updated (cf_rooms c)\<rparr>)"

definition without_room :: "go_env \<Rightarrow> config \<Rightarrow> string \<Rightarrow> cfg_error + config" where
  "without_room e c d = checked e (c\<lparr>cf_rooms := filter (\<lambda>r. rm_device_id r \<noteq> d) (cf_rooms c)\<rparr>)"

definition with_room_wake_override ::
  "go_env \<Rightarrow> config \<Rightarrow> string \<Rightarrow> string option \<Rightarrow> u32 option \<Rightarrow> cfg_error + config" where
  "with_room_wake_override e c d mode flat =
     (case room_by_device_id c d of
        None \<Rightarrow> Inl (EditErr (RoomNotFound d))
      | Some r \<Rightarrow> checked e (c\<lparr>cf_rooms := upsert (\<lambda>x. rm_device_id x = d)
            (r\<lparr>rm_wake_mode := mode, rm_flat_interval := flat\<rparr>) (cf_rooms c)\<rparr>))"

definition with_wake :: "go_env \<Rightarrow> config \<Rightarrow> wake_config \<Rightarrow> cfg_error + config" where
  "with_wake e c w = checked e (c\<lparr>cf_wake := w\<rparr>)"

definition with_alerts :: "go_env \<Rightarrow> config \<Rightarrow> alert_config \<Rightarrow> cfg_error + config" where
  "with_alerts e c a = checked e (c\<lparr>cf_alerts := a\<rparr>)"

definition with_firmware :: "go_env \<Rightarrow> config \<Rightarrow> firmware_config \<Rightarrow> cfg_error + config" where
  "with_firmware e c f = checked e (c\<lparr>cf_firmware := f\<rparr>)"

definition with_fleet_wifi_ssid :: "go_env \<Rightarrow> config \<Rightarrow> string \<Rightarrow> cfg_error + config" where
  "with_fleet_wifi_ssid e c ssid = checked e (c\<lparr>cf_fleet := (cf_fleet c)\<lparr>fl_wifi_ssid := ssid\<rparr>\<rparr>)"

definition with_user :: "go_env \<Rightarrow> config \<Rightarrow> user \<Rightarrow> cfg_error + config" where
  "with_user e c updated =
     checked e (c\<lparr>cf_users :=
       upsert (\<lambda>u. equal_fold (us_username u) (us_username updated)) updated (cf_users c)\<rparr>)"

definition without_user :: "go_env \<Rightarrow> config \<Rightarrow> string \<Rightarrow> cfg_error + config" where
  "without_user e c name =
     checked e (c\<lparr>cf_users := filter (\<lambda>u. \<not> equal_fold (us_username u) name) (cf_users c)\<rparr>)"

definition with_push_subscription :: "go_env \<Rightarrow> config \<Rightarrow> push_subscription \<Rightarrow> cfg_error + config" where
  "with_push_subscription e c s =
     checked e (c\<lparr>cf_push_subscriptions :=
       filter (\<lambda>x. ps_endpoint x \<noteq> ps_endpoint s) (cf_push_subscriptions c) @ [s]\<rparr>)"

text \<open>Not validated; the flag tells whether a subscription was removed.\<close>

definition without_push_subscription :: "config \<Rightarrow> string \<Rightarrow> config \<times> bool" where
  "without_push_subscription c endpoint =
     (let out = filter (\<lambda>x. ps_endpoint x \<noteq> endpoint) (cf_push_subscriptions c)
      in (c\<lparr>cf_push_subscriptions := out\<rparr>, length out \<noteq> length (cf_push_subscriptions c)))"

definition with_location :: "go_env \<Rightarrow> config \<Rightarrow> location \<Rightarrow> cfg_error + config" where
  "with_location e c l =
     (let ls = cf_locations c;
          ls = (if \<exists>x \<in> set ls. lo_id x = lo_id l then map (\<lambda>x. if lo_id x = lo_id l then l else x) ls
                else ls @ [l])
      in checked e (c\<lparr>cf_locations := ls,
           cf_default_location := (if cf_default_location c = [] then lo_id l else cf_default_location c)\<rparr>))"

definition without_location :: "go_env \<Rightarrow> config \<Rightarrow> string \<Rightarrow> cfg_error + config" where
  "without_location e c i =
     (if cf_default_location c = i \<and> length (cf_locations c) > 1 then Inl (EditErr (LocationIsDefault i))
      else case find_first (\<lambda>r. rm_location r = i) (cf_rooms c) of
        Some r \<Rightarrow> Inl (EditErr (LocationHasRoom (rm_device_id r) i))
      | None \<Rightarrow>
          (case find_first (\<lambda>u. can_see_location u i \<and> limited u) (cf_users c) of
             Some u \<Rightarrow> Inl (EditErr (LocationHasUser (us_username u) i))
           | None \<Rightarrow> checked e (c\<lparr>cf_locations := filter (\<lambda>l. lo_id l \<noteq> i) (cf_locations c),
                 cf_default_location := (if cf_default_location c = i then [] else cf_default_location c)\<rparr>)))"

definition with_default_location :: "go_env \<Rightarrow> config \<Rightarrow> string \<Rightarrow> cfg_error + config" where
  "with_default_location e c i = checked e (c\<lparr>cf_default_location := i\<rparr>)"

section \<open>What an edit returns\<close>

lemma checked_Inr: "checked e n = Inr c' \<longleftrightarrow> c' = n \<and> well_formed e n"
  by (auto simp: checked_def validates_wf [symmetric] split: option.splits)

lemma checked_Inl: "(\<exists>err. checked e n = Inl err) \<longleftrightarrow> \<not> well_formed e n"
  by (auto simp: checked_def validates_wf [symmetric] split: option.splits)

lemmas edit_defs = with_room_def without_room_def with_room_wake_override_def with_wake_def
  with_alerts_def with_firmware_def with_fleet_wifi_ssid_def with_user_def without_user_def
  with_push_subscription_def with_location_def without_location_def with_default_location_def

datatype edit =
    WithRoom room | WithoutRoom string | WithRoomWake string "string option" "u32 option"
  | WithWake wake_config | WithAlerts alert_config | WithFirmware firmware_config
  | WithFleetWifiSSID string | WithUser user | WithoutUser string
  | WithPushSubscription push_subscription | WithLocation location | WithoutLocation string
  | WithDefaultLocation string

fun run_edit :: "go_env \<Rightarrow> config \<Rightarrow> edit \<Rightarrow> cfg_error + config" where
  "run_edit e c (WithRoom r) = with_room e c r"
| "run_edit e c (WithoutRoom d) = without_room e c d"
| "run_edit e c (WithRoomWake d m f) = with_room_wake_override e c d m f"
| "run_edit e c (WithWake w) = with_wake e c w"
| "run_edit e c (WithAlerts a) = with_alerts e c a"
| "run_edit e c (WithFirmware f) = with_firmware e c f"
| "run_edit e c (WithFleetWifiSSID s) = with_fleet_wifi_ssid e c s"
| "run_edit e c (WithUser u) = with_user e c u"
| "run_edit e c (WithoutUser n) = without_user e c n"
| "run_edit e c (WithPushSubscription s) = with_push_subscription e c s"
| "run_edit e c (WithLocation l) = with_location e c l"
| "run_edit e c (WithoutLocation i) = without_location e c i"
| "run_edit e c (WithDefaultLocation i) = with_default_location e c i"

lemma run_edit_well_formed: "run_edit e c op = Inr c' \<Longrightarrow> well_formed e c'"
  by (cases op)
    (auto simp: edit_defs checked_Inr Let_def split: if_splits option.splits)

text \<open>No edit touches the signing secret, the passwords of Wi-Fi, or the remembered references.\<close>

lemma run_edit_keeps:
  "run_edit e c op = Inr c' \<Longrightarrow> cf_auth c' = cf_auth c \<and> cf_env_refs c' = cf_env_refs c
     \<and> fl_wifi_psk (cf_fleet c') = fl_wifi_psk (cf_fleet c) \<and> cf_persistence c' = cf_persistence c
     \<and> cf_telemetry c' = cf_telemetry c"
  by (cases op)
    (auto simp: edit_defs checked_Inr Let_def split: if_splits option.splits)

text \<open>What the parts of the contract look at.\<close>

lemma subs_frame:
  "settings_ok e (c\<lparr>cf_push_subscriptions := ss\<rparr>) = settings_ok e c"
  "users_ok (c\<lparr>cf_push_subscriptions := ss\<rparr>) = users_ok c"
  "locations_ok (c\<lparr>cf_push_subscriptions := ss\<rparr>) = locations_ok c"
  "validate_channel e (c\<lparr>cf_push_subscriptions := ss\<rparr>) ch = validate_channel e c ch"
  by (simp_all add: settings_ok_def users_ok_def locations_ok_def validate_channel_def
      validate_lark_app_def Let_def)

lemma users_frame:
  "settings_ok e (c\<lparr>cf_users := us\<rparr>) = settings_ok e c"
  "subscriptions_ok e (c\<lparr>cf_users := us\<rparr>) = subscriptions_ok e c"
  "validate_channel e (c\<lparr>cf_users := us\<rparr>) ch = validate_channel e c ch"
  by (simp_all add: settings_ok_def subscriptions_ok_def validate_channel_def
      validate_lark_app_def Let_def)

lemma without_push_subscription_well_formed:
  assumes "well_formed e c"
  shows "well_formed e (fst (without_push_subscription c ep))"
proof -
  let ?c = "fst (without_push_subscription c ep)"
  have eq: "?c = c\<lparr>cf_push_subscriptions := filter (\<lambda>x. ps_endpoint x \<noteq> ep) (cf_push_subscriptions c)\<rparr>"
    by (simp add: without_push_subscription_def Let_def)
  have "subscriptions_ok e ?c" using assms by (simp add: eq well_formed_def subscriptions_ok_def)
  moreover have "channels_ok e ?c" using assms by (simp add: eq well_formed_def channels_ok_def subs_frame)
  ultimately show ?thesis using assms by (simp add: eq well_formed_def subs_frame)
qed

text \<open>The single accepted edit of the accounts: lookups after it.\<close>

lemma with_user_lookup:
  assumes "with_user e c u = Inr c'"
  shows "user_by_username c' (us_username u) = Some u"
proof -
  from assms have "cf_users c' =
      upsert (\<lambda>x. equal_fold (us_username x) (us_username u)) u (cf_users c)"
    by (simp add: with_user_def checked_Inr)
  then show ?thesis by (simp add: user_by_username_def find_first_upsert_same)
qed

lemma find_first_upsert_other:
  assumes "\<And>x. P x \<Longrightarrow> \<not> Q x" "\<not> Q y"
  shows "find_first Q (upsert P y xs) = find_first Q xs"
proof -
  have app: "find_first Q (as @ x # bs) = find_first Q (as @ bs)" if "\<not> Q x" for as x bs
    using that by (induction as) auto
  show ?thesis
  proof (rule upsert_cases [of xs P y])
    assume "upsert P y xs = xs @ [y]"
    with app [OF assms(2), of xs "[]"] show ?thesis by simp
  next
    fix as x bs
    assume "xs = as @ x # bs" "upsert P y xs = as @ y # bs" "P x"
    with app [OF assms(2)] app [OF assms(1) [OF \<open>P x\<close>]] show ?thesis by simp
  qed
qed

lemma with_user_frame:
  assumes "with_user e c u = Inr c'" "\<not> equal_fold (us_username u) n"
  shows "user_by_username c' n = user_by_username c n"
proof -
  have "find_first (\<lambda>x. equal_fold (us_username x) n)
      (upsert (\<lambda>x. equal_fold (us_username x) (us_username u)) u (cf_users c))
    = find_first (\<lambda>x. equal_fold (us_username x) n) (cf_users c)"
    using assms(2) by (intro find_first_upsert_other) (auto simp: equal_fold_def)
  with assms(1) show ?thesis by (auto simp: with_user_def checked_Inr user_by_username_def)
qed

text \<open>After a room edit the room is found under its device id, every other device id finds
  what it found before, and nothing but the rooms has changed.\<close>

lemma with_room_correct:
  assumes "with_room e c r = Inr c'"
  shows "room_by_device_id c' (rm_device_id r) = Some r
    \<and> (\<forall>d. d \<noteq> rm_device_id r \<longrightarrow> room_by_device_id c' d = room_by_device_id c d)
    \<and> c' = c\<lparr>cf_rooms := cf_rooms c'\<rparr> \<and> well_formed e c'"
proof -
  let ?rs = "upsert (\<lambda>x. rm_device_id x = rm_device_id r) r (cf_rooms c)"
  from assms have c': "c' = c\<lparr>cf_rooms := ?rs\<rparr>" and wf: "well_formed e c'"
    by (auto simp: with_room_def checked_Inr)
  have "find_first (\<lambda>x. rm_device_id x = d) ?rs = find_first (\<lambda>x. rm_device_id x = d) (cf_rooms c)"
    if "d \<noteq> rm_device_id r" for d
    using that by (intro find_first_upsert_other) auto
  moreover have "find_first (\<lambda>x. rm_device_id x = rm_device_id r) ?rs = Some r"
    by (rule find_first_upsert_same) simp
  moreover have "c' = c\<lparr>cf_rooms := cf_rooms c'\<rparr>" by (simp add: c')
  ultimately show ?thesis using wf by (simp add: c' room_by_device_id_def)
qed

text \<open>C7. Removing a location changes what no account can see: every account sees exactly the rooms
  it saw before.\<close>

theorem without_location_keeps_access:
  assumes "well_formed e c" "without_location e c i = Inr c'"
    and "u \<in> set (cf_users c)" "r \<in> set (cf_rooms c)"
  shows "cf_users c' = cf_users c \<and> cf_rooms c' = cf_rooms c
    \<and> (can_see_room c' u r \<longleftrightarrow> can_see_room c u r)"
proof -
  from assms(2) have c': "c' = c\<lparr>cf_locations := filter (\<lambda>l. lo_id l \<noteq> i) (cf_locations c),
      cf_default_location := (if cf_default_location c = i then [] else cf_default_location c)\<rparr>"
    and one: "cf_default_location c = i \<Longrightarrow> length (cf_locations c) \<le> 1"
    and free: "\<forall>v \<in> set (cf_users c). limited v \<longrightarrow> \<not> can_see_location v i"
    by (auto simp: without_location_def checked_Inr split: if_splits option.splits)
  have "can_see_room c' u r \<longleftrightarrow> can_see_room c u r"
  proof (cases "cf_default_location c = i \<and> limited u")
    case True
    then have "set (us_locations u) \<subseteq> lo_id ` set (cf_locations c)" "us_locations u \<noteq> []"
      using assms(1,3) by (auto simp: well_formed_def locations_ok_def Let_def limited_def)
    moreover have "i \<in> lo_id ` set (cf_locations c)"
      using True calculation assms(1) by (auto simp: well_formed_def locations_ok_def Let_def)
    ultimately have "i \<in> set (us_locations u)"
      using one True by (cases "cf_locations c"; cases "us_locations u") auto
    with free True assms(3) show ?thesis by (auto simp: can_see_location_def)
  next
    case False
    then show ?thesis by (auto simp: can_see_room_def location_of_def c' can_see_location_def)
  qed
  then show ?thesis by (simp add: c')
qed

lemma sample_without_location:
  "\<exists>c'. without_location sample_env (sample_config\<lparr>cf_rooms := [sample_room ''d3'' ''b@x.io'' [] []],
      cf_users := [sample_user ''ann'' ''admin'' [], sample_user ''bob'' ''viewer'' [''ny'']]\<rparr>) ''sf'' = Inr c'"
proof -
  let ?c = "sample_config\<lparr>cf_rooms := [sample_room ''d3'' ''b@x.io'' [] []],
      cf_users := [sample_user ''ann'' ''admin'' [], sample_user ''bob'' ''viewer'' [''ny'']]\<rparr>"
  have "well_formed sample_env (?c\<lparr>cf_locations := [sample_location ''ny'' ''New York'']\<rparr>)"
    unfolding well_formed_def
    by (intro conjI; simp add: sample_config_def; simp add: contract_defs sample_env_def Let_def)
  then show ?thesis
    by (simp add: without_location_def checked_Inr sample_config_def limited_def can_see_location_def)
qed

theorem without_location_keeps_access_witness:
  "let c = sample_config\<lparr>cf_rooms := [sample_room ''d3'' ''b@x.io'' [] []],
      cf_users := [sample_user ''ann'' ''admin'' [], sample_user ''bob'' ''viewer'' [''ny'']]\<rparr>
   in \<exists>c'. without_location sample_env c ''sf'' = Inr c'
      \<and> can_see_room c' (sample_user ''bob'' ''viewer'' [''ny'']) (sample_room ''d3'' ''b@x.io'' [] [])
        = can_see_room c (sample_user ''bob'' ''viewer'' [''ny'']) (sample_room ''d3'' ''b@x.io'' [] [])"
proof -
  let ?c = "sample_config\<lparr>cf_rooms := [sample_room ''d3'' ''b@x.io'' [] []],
      cf_users := [sample_user ''ann'' ''admin'' [], sample_user ''bob'' ''viewer'' [''ny'']]\<rparr>"
  obtain c' where c': "without_location sample_env ?c ''sf'' = Inr c'"
    using sample_without_location by blast
  have "well_formed sample_env ?c"
    unfolding well_formed_def
    by (intro conjI; simp add: sample_config_def; simp add: contract_defs sample_env_def Let_def)
  from without_location_keeps_access [OF this c'] c' show ?thesis by (auto simp: Let_def)
qed

section \<open>The last administrator\<close>

lemma without_user_users:
  "without_user e c n = Inr c' \<Longrightarrow>
     cf_users c' = filter (\<lambda>u. \<not> equal_fold (us_username u) n) (cf_users c) \<and> well_formed e c'"
  by (auto simp: without_user_def checked_Inr)

lemma validate_users_go_NoAdmin:
  "\<lbrakk>\<forall>u \<in> set us. user_ok u; distinct (map (to_lower \<circ> us_username) us);
    set (map (to_lower \<circ> us_username) us) \<inter> set seen = {}; \<forall>u \<in> set us. us_role u \<noteq> ''admin''\<rbrakk>
   \<Longrightarrow> validate_users_go i seen False us = Some NoAdmin"
proof (induction us arbitrary: i seen)
  case (Cons u us)
  from Cons.IH [of "to_lower (us_username u) # seen" "Suc i"] Cons.prems
  show ?case by (auto simp: user_ok_def valid_user_role_def)
qed (simp add: err_if_def)

lemma distinct_map_filter: "distinct (map f xs) \<Longrightarrow> distinct (map f (filter P xs))"
  by (induction xs) auto

text \<open>While another account remains, removing the last administrator is refused, with the
  error that says so; the accounts of the configuration are unchanged by the attempt.\<close>

lemma last_admin_stays:
  assumes wf: "well_formed e c" and u: "u \<in> set (cf_users c)" "\<not> equal_fold (us_username u) n"
    and last: "\<forall>v \<in> set (cf_users c). us_role v = ''admin'' \<longrightarrow> equal_fold (us_username v) n"
  shows "without_user e c n = Inl (UserErr NoAdmin)"
proof -
  let ?us = "filter (\<lambda>u. \<not> equal_fold (us_username u) n) (cf_users c)"
  let ?c = "c\<lparr>cf_users := ?us\<rparr>"
  have "users_ok c" using wf by (simp add: well_formed_def)
  moreover from u have ne: "cf_users c \<noteq> []" "?us \<noteq> []" by (auto simp: filter_empty_conv)
  ultimately have ok: "length (ac_session_secret (cf_auth c)) \<ge> 32" "reset_ok (ac_password_reset (cf_auth c))"
    "\<forall>v \<in> set ?us. user_ok v" "distinct (map (to_lower \<circ> us_username) ?us)"
    by (auto simp: users_ok_def intro: distinct_map_filter)
  have "validate_users_go 0 [] False ?us = Some NoAdmin"
    using ok(3,4) last by (intro validate_users_go_NoAdmin) auto
  with ok(1,2) ne(2) have users: "validate_users ?c = Some NoAdmin"
    by (simp add: validate_users_def Let_def reset_ok_def err_if_def)
  have "validate e c = None" using wf by (simp add: validates_wf)
  with users have "validate e ?c = Some (UserErr NoAdmin)"
    by (simp add: validate_def err_if_def split: if_splits)
  then show ?thesis by (simp add: without_user_def checked_def)
qed

text \<open>The sole account, an administrator, can be removed: the check of the accounts returns at once
  when there are none.\<close>

lemma sole_admin_removable:
  "\<exists>c'. without_user sample_env (sample_config\<lparr>cf_users := [sample_user ''ann'' ''admin'' []]\<rparr>) ''ann'' = Inr c'
     \<and> cf_users c' = []"
proof -
  have "well_formed sample_env (sample_config\<lparr>cf_users := []\<rparr>)"
    unfolding well_formed_def
    by (intro conjI; simp add: sample_config_def; simp add: contract_defs sample_env_def Let_def)
  then show ?thesis by (simp add: without_user_def checked_Inr sample_config_def)
qed

section \<open>Giving a panel a new device id\<close>

text \<open>The two edits of \<open>handleAdminSaveRoom\<close> for a changed device id: the new entry is added first,
  and only then the old one removed. The first edit already has to validate.\<close>

definition rename_room :: "go_env \<Rightarrow> config \<Rightarrow> string \<Rightarrow> room \<Rightarrow> cfg_error + config" where
  "rename_room e c original updated =
     (case with_room e c updated of
        Inl err \<Rightarrow> Inl err
      | Inr nc \<Rightarrow> if original \<noteq> [] \<and> original \<noteq> rm_device_id updated
                 then (case without_room e nc original of Inr wo \<Rightarrow> Inr wo | Inl err \<Rightarrow> Inr nc)
                 else Inr nc)"

text \<open>A panel that keeps its room address cannot be given a new device id while its old entry
  has no label, or the label is kept: the edit that adds the new entry next to the old one breaks
  the rule on labels.\<close>

lemma rename_same_room_rejected:
  assumes "original \<noteq> rm_device_id r" "old \<in> set (cf_rooms c)" "rm_device_id old = original"
    and "equal_fold (rm_room old) (rm_room r)"
    and "rm_label old = [] \<or> rm_label r = [] \<or> equal_fold (rm_label old) (rm_label r)"
  shows "\<nexists>c'. rename_room e c original r = Inr c'"
proof -
  let ?rs = "upsert (\<lambda>x. rm_device_id x = rm_device_id r) r (cf_rooms c)"
  have "old \<in> set ?rs" using assms(1-3) by (intro upsert_keep) auto
  moreover have "r \<in> set ?rs" by (rule upsert_mem)
  ultimately have "\<not> labels_ok ?rs"
    using assms(1,3-5) equal_fold_sym unfolding labels_ok_def by metis
  then have "\<not> well_formed e (c\<lparr>cf_rooms := ?rs\<rparr>)" by (simp add: well_formed_def rooms_ok_def)
  then show ?thesis by (auto simp: rename_room_def with_room_def checked_Inr split: sum.splits)
qed

end
