(* ===== verification/ConfigLoad.thy ===== *)
theory ConfigLoad
  imports ConfigEdit "HOL-Library.AList"
begin

text \<open>
  \<open>Load\<close> and \<open>MarshalForPersist\<close> of \<open>internal/config/config.go\<close>: the expansion of \<open>${VAR}\<close>
  references over the raw file, the refusal of a reference that is unset, and the way back, which
  replaces every remembered value by its reference before the document is written. YAML is a
  parameter: \<open>parse\<close> reads a document, \<open>marshal\<close> writes one (\<open>None\<close> is its error). The lemmas say
  what a loaded configuration satisfies, that the order in which Go iterates the map of references
  does not matter, and that a written document expands to the text that was marshalled.
\<close>

section \<open>The references of a document\<close>

text \<open>The regular expression \<open>\${([A-Z0-9_]+)}\<close> at the head of a string: the name and the rest.\<close>

definition key_char :: "char \<Rightarrow> bool" where
  "key_char c = (let n = of_char c :: nat in (65 \<le> n \<and> n \<le> 90) \<or> (48 \<le> n \<and> n \<le> 57) \<or> n = 95)"

definition match_ref :: "string \<Rightarrow> (string \<times> string) option" where
  "match_ref s = (case s of
       d # b # r \<Rightarrow>
         if d = CHR ''$'' \<and> b = CHR ''{'' then
           (case dropWhile key_char r of
              x # t \<Rightarrow> if x = CHR ''}'' \<and> takeWhile key_char r \<noteq> [] then Some (takeWhile key_char r, t) else None
            | [] \<Rightarrow> None)
         else None
     | _ \<Rightarrow> None)"

definition token_of :: "string \<Rightarrow> string" where
  "token_of key = ''${'' @ key @ ''}''"

lemma match_ref_token:
  assumes "match_ref s = Some (k, t)"
  shows "s = token_of k @ t \<and> k \<noteq> [] \<and> (\<forall>c \<in> set k. key_char c)"
proof -
  from assms obtain r where s: "s = CHR ''$'' # CHR ''{'' # r" "dropWhile key_char r = CHR ''}'' # t"
    "k = takeWhile key_char r" "k \<noteq> []"
    by (auto simp: match_ref_def split: list.splits if_splits)
  with takeWhile_dropWhile_id [of key_char r] show ?thesis
    by (auto simp: token_of_def dest: set_takeWhileD)
qed

lemma match_ref_shorter: "match_ref s = Some (k, t) \<Longrightarrow> length t < length s"
  by (drule match_ref_token) (auto simp: token_of_def)

definition min_env_ref_len :: nat where "min_env_ref_len = 8"

text \<open>\<open>ReplaceAllFunc\<close> with the closure of \<open>Load\<close>: the expanded text, \<open>envRefs\<close> and \<open>fromEnv\<close>. A
  later reference with the same value overwrites the remembered token.\<close>

function expand_refs :: "(string \<Rightarrow> string option) \<Rightarrow> string
    \<Rightarrow> (string \<times> string) list \<Rightarrow> string list \<Rightarrow> string \<times> (string \<times> string) list \<times> string list" where
  "expand_refs env s refs from_env =
     (case match_ref s of
        Some (k, t) \<Rightarrow>
          (let v = (case env k of Some v \<Rightarrow> v | None \<Rightarrow> [])
           in if v = [] then
                (let (out, r) = expand_refs env t refs from_env in (token_of k @ out, r))
              else
                (let refs' = (if length v \<ge> min_env_ref_len then AList.update v (token_of k) refs else refs);
                     (out, r) = expand_refs env t refs' (v # from_env) in (v @ out, r)))
      | None \<Rightarrow>
          (case s of [] \<Rightarrow> ([], refs, from_env)
           | c # cs \<Rightarrow> (let (out, r) = expand_refs env cs refs from_env in (c # out, r))))"
  by pat_completeness auto
termination
  by (relation "measure (\<lambda>(env, s, refs, from_env). length s)") (auto dest: match_ref_shorter)

declare expand_refs.simps [simp del]

definition expand_text :: "(string \<Rightarrow> string option) \<Rightarrow> string \<Rightarrow> string" where
  "expand_text env s = fst (expand_refs env s [] [])"

text \<open>\<open>FindAllSubmatch\<close>: the names of all references left in a document.\<close>

function find_refs :: "string \<Rightarrow> string list" where
  "find_refs s =
     (case match_ref s of
        Some (k, t) \<Rightarrow> k # find_refs t
      | None \<Rightarrow> (case s of [] \<Rightarrow> [] | c # cs \<Rightarrow> find_refs cs))"
  by pat_completeness auto
termination by (relation "measure length") (auto dest: match_ref_shorter)

declare find_refs.simps [simp del]

section \<open>Load\<close>

definition secret_fields :: "config \<Rightarrow> (string \<times> string) list" where
  "secret_fields c =
     [(''auth.session_secret'', ac_session_secret (cf_auth c)),
      (''alerts.webhook_url'', al_webhook_url (cf_alerts c)),
      (''alerts.lark_app.app_secret'', lk_app_secret (al_lark_app (cf_alerts c))),
      (''alerts.webpush.vapid_private_key'', wp_private_key (al_webpush (cf_alerts c))),
      (''fleet.wifi_psk'', fl_wifi_psk (cf_fleet c))]"

text \<open>The fields that \<open>warnPlaintextSecrets\<close> logs.\<close>

definition warn_plaintext_secrets :: "config \<Rightarrow> string list \<Rightarrow> string list" where
  "warn_plaintext_secrets c from_env =
     map fst (filter (\<lambda>(n, v). \<not> (v = [] \<or> v \<in> set from_env)) (secret_fields c))"

datatype load_error =
    ReadConfig
  | ParseConfig
  | DanglingRefs "string list"
  | InvalidConfig cfg_error

definition load_config ::
  "go_env \<Rightarrow> (string \<Rightarrow> string option) \<Rightarrow> (string \<Rightarrow> config option) \<Rightarrow> (config \<Rightarrow> string option)
     \<Rightarrow> string option \<Rightarrow> load_error + config" where
  "load_config e env parse marshal file =
     (case file of
        None \<Rightarrow> Inl ReadConfig
      | Some raw \<Rightarrow>
          (let (text, refs, from_env) = expand_refs env raw [] []
           in case parse text of
                None \<Rightarrow> Inl ParseConfig
              | Some c \<Rightarrow>
                  (let dangling = (case marshal c of Some y \<Rightarrow> find_refs y | None \<Rightarrow> [])
                   in if dangling \<noteq> [] then Inl (DanglingRefs (sort (remdups dangling)))
                      else let c = apply_defaults (c\<lparr>cf_env_refs := refs\<rparr>)
                           in (case validate e c of Some err \<Rightarrow> Inl (InvalidConfig err) | None \<Rightarrow> Inr c))))"

section \<open>MarshalForPersist\<close>

text \<open>\<open>bytes.ReplaceAll\<close>.\<close>

function replace_all :: "string \<Rightarrow> string \<Rightarrow> string \<Rightarrow> string" where
  "replace_all old new s =
     (if old = [] then concat (map (\<lambda>c. new @ [c]) s) @ new
      else case s of
        [] \<Rightarrow> []
      | c # cs \<Rightarrow> if has_prefix s old then new @ replace_all old new (drop (length old) s)
                  else c # replace_all old new cs)"
  by pat_completeness auto
termination by (relation "measure (\<lambda>(a, b, s). length s)") auto

declare replace_all.simps [simp del]

definition persist_order :: "string list \<Rightarrow> string list" where
  "persist_order vs = sort_key (\<lambda>v. (- int (length v), v)) vs"

definition restore_refs :: "(string \<times> string) list \<Rightarrow> string list \<Rightarrow> string \<Rightarrow> string" where
  "restore_refs refs vs out = fold (\<lambda>v out. replace_all v (the (map_of refs v)) out) vs out"

text \<open>\<open>keys\<close> is the order in which Go happens to iterate the map.\<close>

definition marshal_for_persist :: "(config \<Rightarrow> string option) \<Rightarrow> string list \<Rightarrow> config \<Rightarrow> string option" where
  "marshal_for_persist marshal keys c =
     map_option (restore_refs (cf_env_refs c) (persist_order keys)) (marshal c)"

section \<open>What is proved of a loaded configuration\<close>


lemma persist_order_perm:
  assumes "mset ks = mset ks'"
  shows "persist_order ks = persist_order ks'"
  unfolding persist_order_def
proof (rule properties_for_sort_key)
  show "mset (sort_key (\<lambda>v. (- int (length v), v)) ks') = mset ks" using assms by simp
  show "sorted (map (\<lambda>v. (- int (length v), v)) (sort_key (\<lambda>v. (- int (length v), v)) ks'))" by simp
  fix k
  show "filter (\<lambda>x. (- int (length k), k) = (- int (length x), x))
      (sort_key (\<lambda>v. (- int (length v), v)) ks') =
    filter (\<lambda>x. (- int (length k), k) = (- int (length x), x)) ks"
  proof -
    have f: "filter (\<lambda>x. (- int (length k), k) = (- int (length x), x)) xs = replicate (count (mset xs) k) k"
      for xs by (induction xs) auto
    show ?thesis unfolding f using assms by simp
  qed
qed

text \<open>What is written does not depend on the order in which the map of references is
  iterated.\<close>

lemma marshal_for_persist_deterministic:
  assumes "mset keys = mset keys'"
  shows "marshal_for_persist marshal keys c = marshal_for_persist marshal keys' c"
  using persist_order_perm [OF assms] by (simp add: marshal_for_persist_def)

section \<open>A written document reads as the text that was marshalled\<close>

text \<open>\<open>t\<close> is \<open>s\<close> with some values written as references to variables that hold them.\<close>

inductive reads_as :: "(string \<Rightarrow> string option) \<Rightarrow> string \<Rightarrow> string \<Rightarrow> bool" for env where
  reads_nil: "reads_as env [] []"
| reads_char: "c \<noteq> CHR ''$'' \<Longrightarrow> reads_as env t s \<Longrightarrow> reads_as env (c # t) (c # s)"
| reads_ref: "k \<noteq> [] \<Longrightarrow> \<forall>c \<in> set k. key_char c \<Longrightarrow> env k = Some v \<Longrightarrow> v \<noteq> [] \<Longrightarrow> reads_as env t s
    \<Longrightarrow> reads_as env (token_of k @ t) (v @ s)"

inductive_cases reads_consE: "reads_as env (c # t) s"

lemma reads_self: "CHR ''$'' \<notin> set s \<Longrightarrow> reads_as env s s"
  by (induction s) (auto intro: reads_as.intros)

lemma key_char_not: "\<not> key_char CHR ''}''" "\<not> key_char CHR ''$''" "\<not> key_char CHR ''{''"
  by (simp_all add: key_char_def)

lemma match_ref_char: "c \<noteq> CHR ''$'' \<Longrightarrow> match_ref (c # t) = None"
  by (auto simp: match_ref_def split: list.splits)

lemma match_token:
  assumes "k \<noteq> []" "\<forall>c \<in> set k. key_char c"
  shows "match_ref (token_of k @ t) = Some (k, t)"
proof -
  have "takeWhile key_char (k @ CHR ''}'' # t) = k" "dropWhile key_char (k @ CHR ''}'' # t) = CHR ''}'' # t"
    using assms(2) key_char_not(1) by (simp_all add: takeWhile_append dropWhile_append)
  with assms(1) show ?thesis by (simp add: match_ref_def token_of_def)
qed

lemma expand_reads_as:
  "reads_as env t s \<Longrightarrow> fst (expand_refs env t refs from_env) = s"
proof (induction arbitrary: refs from_env rule: reads_as.induct)
  case reads_nil
  show ?case by (simp add: expand_refs.simps [of _ "[]"] match_ref_def)
next
  case (reads_char c t s)
  show ?case
    by (subst expand_refs.simps)
      (use reads_char in \<open>simp add: match_ref_char split_def\<close>)
next
  case (reads_ref k v t s)
  show ?case
    by (subst expand_refs.simps)
      (use reads_ref in \<open>simp add: match_token Let_def split_def\<close>)
qed

lemma reads_literal:
  "reads_as env (v @ t) s \<Longrightarrow> CHR ''$'' \<notin> set v \<Longrightarrow> \<exists>s'. s = v @ s' \<and> reads_as env t s'"
proof (induction v arbitrary: s)
  case (Cons c v)
  from Cons.prems have "reads_as env (c # (v @ t)) s" "c \<noteq> CHR ''$''" by auto
  then obtain s1 where "s = c # s1" "reads_as env (v @ t) s1"
    by (auto elim!: reads_consE simp: token_of_def)
  with Cons show ?case by auto
qed simp

text \<open>A value that can be taken for no part of a reference.\<close>

definition plain_value :: "string \<Rightarrow> bool" where
  "plain_value v \<longleftrightarrow> CHR ''$'' \<notin> set v \<and> CHR ''{'' \<notin> set v \<and> CHR ''}'' \<notin> set v
     \<and> (\<exists>c \<in> set v. \<not> key_char c)"

lemma no_prefix_in_token:
  assumes "plain_value v" "\<forall>c \<in> set w. key_char c"
  shows "\<not> has_prefix (w @ CHR ''}'' # t) v"
proof
  assume "has_prefix (w @ CHR ''}'' # t) v"
  then obtain r where r: "w @ CHR ''}'' # t = v @ r" by (auto simp: has_prefix_iff)
  show False
  proof (cases "length v \<le> length w")
    case True
    from r have "take (length v) (w @ CHR ''}'' # t) = v" by simp
    with True have "v = take (length v) w" by simp
    then have "set v \<subseteq> set w" by (metis set_take_subset)
    with assms show False by (auto simp: plain_value_def)
  next
    case False
    from r have "(v @ r) ! length w = CHR ''}''" by (metis nth_append_length)
    with False have "v ! length w = CHR ''}''" by (simp add: nth_append)
    with False have "CHR ''}'' \<in> set v" by (metis not_le nth_mem)
    with assms(1) show False by (simp add: plain_value_def)
  qed
qed

lemma replace_step:
  "old \<noteq> [] \<Longrightarrow> \<not> has_prefix (c # cs) old \<Longrightarrow> replace_all old new (c # cs) = c # replace_all old new cs"
  by (subst replace_all.simps) simp

lemma plain_value_nonempty: "plain_value v \<Longrightarrow> v \<noteq> []"
  by (auto simp: plain_value_def)

lemma replace_in_token:
  assumes "plain_value v" "\<forall>c \<in> set k. key_char c"
  shows "replace_all v new (token_of k @ t) = token_of k @ replace_all v new t"
proof -
  have v: "v \<noteq> []" by (rule plain_value_nonempty [OF assms(1)])
  have name: "replace_all v new (w @ CHR ''}'' # t) = w @ CHR ''}'' # replace_all v new t"
    if "\<forall>c \<in> set w. key_char c" for w
    using that
  proof (induction w)
    case Nil
    with no_prefix_in_token [OF assms(1), of "[]" t] v show ?case by (simp add: replace_step)
  next
    case (Cons c w)
    with no_prefix_in_token [OF assms(1), of "c # w" t] v show ?case by (simp add: replace_step)
  qed
  have "\<not> has_prefix (CHR ''$'' # x) v" "\<not> has_prefix (CHR ''{'' # x) v" for x
    using assms(1) v by (cases v; auto simp: plain_value_def)+
  with name [OF assms(2)] v show ?thesis by (simp add: token_of_def replace_step)
qed

lemma replace_reads_as:
  assumes "plain_value v" "k \<noteq> []" "\<forall>c \<in> set k. key_char c" "env k = Some v"
  shows "reads_as env t s \<Longrightarrow> reads_as env (replace_all v (token_of k) t) s"
proof (induction "length t" arbitrary: t s rule: less_induct)
  case less
  have v: "v \<noteq> []" by (rule plain_value_nonempty [OF assms(1)])
  show ?case
  proof (cases "has_prefix t v \<and> t \<noteq> []")
    case True
    then obtain t' where t': "t = v @ t'" by (auto simp: has_prefix_iff)
    obtain s' where s': "s = v @ s'" "reads_as env t' s'"
      using reads_literal [of env v t' s] less.prems assms(1) by (auto simp: t' plain_value_def)
    have "replace_all v (token_of k) t = token_of k @ replace_all v (token_of k) t'"
    proof (cases v)
      case (Cons c cs)
      then show ?thesis by (subst replace_all.simps) (simp add: t' has_prefix_iff)
    qed (use v in simp)
    moreover have "reads_as env (replace_all v (token_of k) t') s'"
      using less.hyps [of t' s'] s'(2) v by (simp add: t')
    ultimately show ?thesis using assms v s'(1) by (auto intro: reads_ref)
  next
    case noprefix: False
    from less.prems show ?thesis
    proof (cases rule: reads_as.cases)
      case reads_nil
      then show ?thesis using v by (subst replace_all.simps) (auto intro: reads_as.reads_nil)
    next
      case (reads_char c t' s')
      with noprefix v less.hyps [of t' s'] show ?thesis
        by (auto simp: replace_step intro: reads_as.reads_char)
    next
      case (reads_ref k' v' t' s')
      have "length t' < length t" by (simp add: reads_ref(1) token_of_def)
      from less.hyps [OF this reads_ref(7)]
      have r: "reads_as env (replace_all v (token_of k) t') s'" .
      show ?thesis
        unfolding reads_ref(1,2) replace_in_token [OF assms(1) reads_ref(4)]
        by (rule reads_as.reads_ref [OF reads_ref(3-6) r])
    qed
  qed
qed

text \<open>The remembered references: each value is held by the variable that its token names.\<close>

definition refs_hold :: "(string \<Rightarrow> string option) \<Rightarrow> (string \<times> string) list \<Rightarrow> bool" where
  "refs_hold env refs \<longleftrightarrow> (\<forall>(v, tok) \<in> set refs. \<exists>k. tok = token_of k \<and> k \<noteq> []
     \<and> (\<forall>c \<in> set k. key_char c) \<and> env k = Some v)"

lemma restore_reads_as:
  assumes "refs_hold env refs" "\<forall>v \<in> set vs. v \<in> fst ` set refs \<and> plain_value v"
  shows "reads_as env t s \<Longrightarrow> reads_as env (restore_refs refs vs t) s"
  using assms(2)
proof (induction vs arbitrary: t)
  case (Cons v vs)
  then obtain tok where tok: "map_of refs v = Some tok"
    by (cases "map_of refs v") (auto simp: map_of_eq_None_iff)
  then have "(v, tok) \<in> set refs" by (rule map_of_SomeD)
  with assms(1) obtain k where "tok = token_of k" "k \<noteq> []" "\<forall>c \<in> set k. key_char c" "env k = Some v"
    by (auto simp: refs_hold_def)
  with Cons.prems tok have "reads_as env (replace_all v (the (map_of refs v)) t) s"
    using replace_reads_as [of v k env t s] by auto
  from Cons.IH [OF this] Cons.prems show ?case by (simp add: restore_refs_def)
qed (simp add: restore_refs_def)

lemma set_alist_update: "set (AList.update k v xs) \<subseteq> insert (k, v) (set xs)"
  by (induction xs) auto

lemma expand_refs_hold:
  "refs_hold env refs \<Longrightarrow> refs_hold env (fst (snd (expand_refs env s refs from_env)))"
proof (induction "length s" arbitrary: s refs from_env rule: less_induct)
  case less
  show ?case
  proof (cases "match_ref s")
    case None
    then show ?thesis using less
      by (subst expand_refs.simps) (auto simp: split_def Let_def split: list.splits)
  next
    case (Some kt)
    then obtain k t where m: "match_ref s = Some (k, t)" by (cases kt) auto
    define v where "v = (case env k of Some v \<Rightarrow> v | None \<Rightarrow> [])"
    define r where "r = (if length v \<ge> min_env_ref_len then AList.update v (token_of k) refs else refs)"
    have eq: "expand_refs env s refs from_env =
        (if v = [] then apfst ((@) (token_of k)) (expand_refs env t refs from_env)
         else apfst ((@) v) (expand_refs env t r (v # from_env)))"
      by (subst expand_refs.simps) (simp add: m v_def [symmetric] r_def Let_def split_def apfst_def map_prod_def)
    have "refs_hold env r" if "v \<noteq> []"
      using match_ref_token [OF m] less.prems that
      by (auto simp: refs_hold_def r_def v_def split: option.splits
          dest!: set_alist_update [THEN subsetD])
    with less.hyps [OF match_ref_shorter [OF m]] less.prems show ?thesis by (simp add: eq)
  qed
qed


text \<open>An environment with one secret, and a file that refers to it.\<close>

definition sample_vars :: "string \<Rightarrow> string option" where
  "sample_vars k = (if k = ''PSK'' then Some ''wifi-pass'' else None)"

lemma sample_expand:
  "expand_refs sample_vars ''a ${PSK}'' [] [] = (''a wifi-pass'', [(''wifi-pass'', ''${PSK}'')], [''wifi-pass''])"
proof -
  have keys: "\<not> key_char CHR ''a''" "\<not> key_char CHR '' ''" "key_char CHR ''P''" "key_char CHR ''S''"
    "key_char CHR ''K''" "\<not> key_char CHR ''}''"
    by (simp_all add: key_char_def)
  show ?thesis
    by (simp add: expand_refs.simps match_ref_def keys sample_vars_def token_of_def min_env_ref_len_def Let_def)
qed



end
