(* ===== verification/ConfigStore.thy ===== *)
theory ConfigStore
  imports GoBase
begin

text \<open>
  Where a configuration becomes durable: \<open>internal/config/persist.go\<close>, \<open>internal/configstore\<close> and
  \<open>internal/kube\<close>. A disk has a directory and a table of inodes; a crash keeps, for every name,
  either the directory entry that processes see or the one that was last synced, and the whole
  content of an inode only when the inode was synced. The lemmas show that a crash at any point of
  \<open>WriteAtomic\<close> leaves the old or the new document, never a torn one, and what each result of it
  means for the file; the locale \<open>config_store\<close> is the contract of the interface \<open>Store\<close>.
\<close>

section \<open>A disk that can crash\<close>

record inode =
  in_data :: string
  in_mode :: nat
  in_synced :: bool

record disk =
  dk_live :: "string \<Rightarrow> nat option"
  dk_synced :: "string \<Rightarrow> nat option"
  dk_inodes :: "nat \<Rightarrow> inode"

definition file_of :: "disk \<Rightarrow> string \<Rightarrow> string option" where
  "file_of d n = map_option (\<lambda>i. in_data (dk_inodes d i)) (dk_live d n)"

definition entry_may_read :: "disk \<Rightarrow> nat option \<Rightarrow> string option \<Rightarrow> bool" where
  "entry_may_read d entry x \<longleftrightarrow>
     (case entry of
        None \<Rightarrow> x = None
      | Some i \<Rightarrow> (case x of None \<Rightarrow> False
                   | Some y \<Rightarrow> in_synced (dk_inodes d i) \<longrightarrow> y = in_data (dk_inodes d i)))"

text \<open>\<open>x\<close> is a possible content of \<open>n\<close> after a crash.\<close>

definition may_read :: "disk \<Rightarrow> string \<Rightarrow> string option \<Rightarrow> bool" where
  "may_read d n x \<longleftrightarrow> entry_may_read d (dk_live d n) x \<or> entry_may_read d (dk_synced d n) x"

text \<open>Octal 600.\<close>

definition private_mode :: nat where "private_mode = 6 * 64"

definition os_create :: "string \<Rightarrow> nat \<Rightarrow> disk \<Rightarrow> disk" where
  "os_create n i d = d\<lparr>dk_live := (dk_live d)(n := Some i),
     dk_inodes := (dk_inodes d)(i := \<lparr>in_data = [], in_mode = private_mode, in_synced = False\<rparr>)\<rparr>"

definition os_update :: "nat \<Rightarrow> (inode \<Rightarrow> inode) \<Rightarrow> disk \<Rightarrow> disk" where
  "os_update i f d = d\<lparr>dk_inodes := (dk_inodes d)(i := f (dk_inodes d i))\<rparr>"

definition os_write :: "nat \<Rightarrow> string \<Rightarrow> disk \<Rightarrow> disk" where
  "os_write i x d = os_update i (\<lambda>n. n\<lparr>in_data := x, in_synced := False\<rparr>) d"

definition os_chmod :: "nat \<Rightarrow> nat \<Rightarrow> disk \<Rightarrow> disk" where
  "os_chmod i m d = os_update i (\<lambda>n. n\<lparr>in_mode := m\<rparr>) d"

definition os_sync :: "nat \<Rightarrow> disk \<Rightarrow> disk" where
  "os_sync i d = os_update i (\<lambda>n. n\<lparr>in_synced := True\<rparr>) d"

definition os_remove :: "string \<Rightarrow> disk \<Rightarrow> disk" where
  "os_remove n d = d\<lparr>dk_live := (dk_live d)(n := None)\<rparr>"

definition os_rename :: "string \<Rightarrow> string \<Rightarrow> disk \<Rightarrow> disk" where
  "os_rename a b d = d\<lparr>dk_live := (dk_live d)(b := dk_live d a, a := None)\<rparr>"

definition os_sync_dir :: "disk \<Rightarrow> disk" where
  "os_sync_dir d = d\<lparr>dk_synced := dk_live d\<rparr>"

lemmas os_defs = os_create_def os_update_def os_write_def os_chmod_def os_sync_def os_remove_def
  os_rename_def os_sync_dir_def

section \<open>FileWriter\<close>

text \<open>The calls that can fail, in their order; \<open>faults\<close> says which of them do, and how.\<close>

datatype write_step =
  CreateTemp | WriteTemp | ChmodTemp | SyncTemp | CloseTemp | RenameTemp | OpenDir | SyncDir

type_synonym write_error = "write_step \<times> string"

definition new_file_writer :: "(string \<Rightarrow> string option) \<Rightarrow> string \<Rightarrow> string + string" where
  "new_file_writer probe path =
     (case probe path of
        Some err \<Rightarrow> Inl (''config file target '' @ path @ '' is not writable: '' @ err)
      | None \<Rightarrow> Inr path)"

text \<open>The result and the states the disk goes through, the last one last. \<open>tmp\<close> and \<open>i\<close> are the name and
  inode \<open>CreateTemp\<close> picks; a failing write leaves \<open>torn\<close> bytes.\<close>

definition write_atomic ::
  "(write_step \<Rightarrow> string option) \<Rightarrow> nat \<Rightarrow> string \<Rightarrow> nat \<Rightarrow> string \<Rightarrow> string \<Rightarrow> disk \<Rightarrow> write_error option \<times> disk list" where
  "write_atomic faults torn tmp i path x d =
     (let mode = (case dk_live d path of Some j \<Rightarrow> in_mode (dk_inodes d j) | None \<Rightarrow> private_mode)
      in case faults CreateTemp of Some err \<Rightarrow> (Some (CreateTemp, err), [d]) | None \<Rightarrow>
         let d1 = os_create tmp i d
      in case faults WriteTemp of
           Some err \<Rightarrow> (let dt = os_write i (take torn x) d1 in (Some (WriteTemp, err), [d, d1, dt, os_remove tmp dt]))
         | None \<Rightarrow>
         let d2 = os_write i x d1
      in case faults ChmodTemp of Some err \<Rightarrow> (Some (ChmodTemp, err), [d, d1, d2, os_remove tmp d2]) | None \<Rightarrow>
         let d3 = os_chmod i mode d2
      in case faults SyncTemp of Some err \<Rightarrow> (Some (SyncTemp, err), [d, d1, d2, d3, os_remove tmp d3]) | None \<Rightarrow>
         let d4 = os_sync i d3
      in case faults CloseTemp of Some err \<Rightarrow> (Some (CloseTemp, err), [d, d1, d2, d3, d4, os_remove tmp d4]) | None \<Rightarrow>
         case faults RenameTemp of Some err \<Rightarrow> (Some (RenameTemp, err), [d, d1, d2, d3, d4, os_remove tmp d4]) | None \<Rightarrow>
         let d5 = os_rename tmp path d4
      in case faults OpenDir of Some err \<Rightarrow> (Some (OpenDir, err), [d, d1, d2, d3, d4, d5]) | None \<Rightarrow>
         case faults SyncDir of Some err \<Rightarrow> (Some (SyncDir, err), [d, d1, d2, d3, d4, d5]) | None \<Rightarrow>
         (None, [d, d1, d2, d3, d4, d5, os_sync_dir d5]))"

definition final_disk :: "write_error option \<times> disk list \<Rightarrow> disk" where
  "final_disk r = last (snd r)"

text \<open>What \<open>CreateTemp\<close> guarantees of the name and the inode it picks, for a target the disk holds
  durably.\<close>

definition fresh_temp :: "string \<Rightarrow> nat \<Rightarrow> string \<Rightarrow> disk \<Rightarrow> bool" where
  "fresh_temp tmp i path d \<longleftrightarrow> tmp \<noteq> path \<and> dk_live d path \<noteq> Some i \<and> dk_synced d path \<noteq> Some i"

definition settled :: "string \<Rightarrow> disk \<Rightarrow> bool" where
  "settled path d \<longleftrightarrow> (\<forall>x. may_read d path x \<longleftrightarrow> x = file_of d path)"

lemma settled_iff:
  "settled path d \<longleftrightarrow>
     (\<forall>x. entry_may_read d (dk_live d path) x \<longrightarrow> x = file_of d path)
     \<and> (\<forall>x. entry_may_read d (dk_synced d path) x \<longrightarrow> x = file_of d path)"
proof -
  have "entry_may_read d (dk_live d path) (file_of d path)"
    by (auto simp: entry_may_read_def file_of_def split: option.splits)
  then show ?thesis by (auto simp: settled_def may_read_def)
qed

text \<open>The disk differs from \<open>d\<close> only beside the target: at other names and in the inode \<open>i\<close>.\<close>

definition beside :: "nat \<Rightarrow> string \<Rightarrow> disk \<Rightarrow> disk \<Rightarrow> bool" where
  "beside i path d s \<longleftrightarrow> dk_live s path = dk_live d path \<and> dk_synced s path = dk_synced d path
     \<and> (\<forall>j. j \<noteq> i \<longrightarrow> dk_inodes s j = dk_inodes d j)"

lemma beside_refl: "beside i path d d"
  by (simp add: beside_def)

lemma beside_step:
  assumes "beside i path d s"
  shows "tmp \<noteq> path \<Longrightarrow> beside i path d (os_create tmp i s)" "beside i path d (os_write i y s)"
    "beside i path d (os_chmod i m s)" "beside i path d (os_sync i s)"
    "tmp \<noteq> path \<Longrightarrow> beside i path d (os_remove tmp s)"
  using assms by (auto simp: beside_def os_defs)

lemma beside_frame:
  assumes "beside i path d s" "fresh_temp tmp i path d"
  shows "may_read s path y = may_read d path y" "file_of s path = file_of d path"
proof -
  have "entry_may_read s e y = entry_may_read d e y" if "e \<noteq> Some i" for e
    using that assms(1) by (auto simp: beside_def entry_may_read_def split: option.splits)
  then show "may_read s path y = may_read d path y"
    using assms by (simp add: may_read_def beside_def fresh_temp_def)
  show "file_of s path = file_of d path"
    using assms by (cases "dk_live d path") (auto simp: file_of_def beside_def fresh_temp_def)
qed

text \<open>What the disk looks like once the temporary file has been written, synced and renamed.\<close>

lemma renamed_disk:
  assumes "beside i path d s" "fresh_temp tmp i path d" "dk_live s tmp = Some i"
    and "in_data (dk_inodes s i) = x" "in_synced (dk_inodes s i)"
  shows "file_of (os_rename tmp path s) path = Some x"
    and "may_read (os_rename tmp path s) path y \<Longrightarrow> y = Some x \<or> may_read d path y"
    and "may_read (os_sync_dir (os_rename tmp path s)) path y \<longleftrightarrow> y = Some x"
proof -
  have ne: "tmp \<noteq> path" using assms(2) by (simp add: fresh_temp_def)
  have live: "dk_live (os_rename tmp path s) path = Some i" using assms(3) ne by (simp add: os_rename_def)
  have new: "entry_may_read (os_rename tmp path s) (Some i) y \<longleftrightarrow> y = Some x" for y
    using assms(4,5) by (auto simp: entry_may_read_def os_rename_def split: option.splits)
  show "file_of (os_rename tmp path s) path = Some x"
    using live assms(4) by (simp add: file_of_def) (simp add: os_rename_def)
  show "may_read (os_sync_dir (os_rename tmp path s)) path y \<longleftrightarrow> y = Some x"
    using live new [of y] by (auto simp: may_read_def os_sync_dir_def entry_may_read_def split: option.splits)
  assume "may_read (os_rename tmp path s) path y"
  then consider "y = Some x" | "entry_may_read (os_rename tmp path s) (dk_synced d path) y"
    using live new assms(1) by (auto simp: may_read_def beside_def os_rename_def)
  then show "y = Some x \<or> may_read d path y"
  proof cases
    case 2
    have "entry_may_read (os_rename tmp path s) (dk_synced d path) y = entry_may_read d (dk_synced d path) y"
      using assms(1,2) by (auto simp: entry_may_read_def os_rename_def beside_def fresh_temp_def split: option.splits)
    with 2 show ?thesis by (simp add: may_read_def)
  qed simp
qed

text \<open>The states of a write: every one is beside the target, or follows the rename.\<close>

definition wrote :: "string \<Rightarrow> string \<Rightarrow> nat \<Rightarrow> nat \<Rightarrow> string \<Rightarrow> disk \<Rightarrow> disk" where
  "wrote tmp path i mode x d = os_sync i (os_chmod i mode (os_write i x (os_create tmp i d)))"

lemma wrote_facts:
  assumes "tmp \<noteq> path"
  shows "beside i path d (wrote tmp path i m x d)" "dk_live (wrote tmp path i m x d) tmp = Some i"
    "in_data (dk_inodes (wrote tmp path i m x d) i) = x" "in_synced (dk_inodes (wrote tmp path i m x d) i)"
    "in_mode (dk_inodes (wrote tmp path i m x d) i) = m"
  using assms by (auto simp: wrote_def os_defs beside_def)

lemma write_atomic_states:
  assumes "tmp \<noteq> path" "s \<in> set (snd (write_atomic faults torn tmp i path x d))"
  shows "beside i path d s \<or> (\<exists>m. s = os_rename tmp path (wrote tmp path i m x d)
           \<or> s = os_sync_dir (os_rename tmp path (wrote tmp path i m x d)))"
  using assms
  by (auto simp: write_atomic_def Let_def wrote_def intro!: beside_step beside_refl split: option.splits)

text \<open>C16. At every moment of \<open>WriteAtomic\<close>, whichever of its calls fail, a crash leaves at the target either
  the old document or the new one, whole.\<close>

theorem write_atomic_crash_safe:
  assumes "settled path d" "fresh_temp tmp i path d"
  shows "\<forall>s \<in> set (snd (write_atomic faults torn tmp i path x d)).
    \<forall>y. may_read s path y \<longrightarrow> y = file_of d path \<or> y = Some x"
proof (intro ballI allI impI)
  fix s y assume s: "s \<in> set (snd (write_atomic faults torn tmp i path x d))" and y: "may_read s path y"
  have ne: "tmp \<noteq> path" using assms(2) by (simp add: fresh_temp_def)
  note f = wrote_facts [OF ne]
  have old: "may_read d path y \<Longrightarrow> y = file_of d path" using assms(1) by (simp add: settled_def)
  from write_atomic_states [OF ne s] consider "beside i path d s"
    | m where "s = os_rename tmp path (wrote tmp path i m x d)"
    | m where "s = os_sync_dir (os_rename tmp path (wrote tmp path i m x d))" by blast
  then show "y = file_of d path \<or> y = Some x"
  proof cases
    case 1 then show ?thesis using beside_frame(1) [OF 1 assms(2)] y old by simp
  next
    case 2
    then show ?thesis using renamed_disk(2) [OF f(1) assms(2) f(2-4)] y old by blast
  next
    case 3
    then show ?thesis using renamed_disk(3) [OF f(1) assms(2) f(2-4)] y by blast
  qed
qed

text \<open>The outcomes. Only the two calls after the rename fail with the new document in place.\<close>

definition after_rename :: "write_step \<Rightarrow> bool" where
  "after_rename st \<longleftrightarrow> st = OpenDir \<or> st = SyncDir"

lemma write_atomic_result:
  assumes "tmp \<noteq> path" "write_atomic faults torn tmp i path x d = (r, hist)"
  shows "case r of
      None \<Rightarrow> \<exists>m. last hist = os_sync_dir (os_rename tmp path (wrote tmp path i m x d))
    | Some (st, err) \<Rightarrow> if after_rename st then \<exists>m. last hist = os_rename tmp path (wrote tmp path i m x d)
                      else beside i path d (last hist) \<and> (st \<noteq> CreateTemp \<longrightarrow> dk_live (last hist) tmp = None)"
  using assms
  by (auto simp: write_atomic_def Let_def wrote_def after_rename_def os_remove_def
      intro!: beside_step(1-4) beside_refl split: option.splits)
    (auto simp: beside_def os_defs)

text \<open>What the result of \<open>WriteAtomic\<close> says of the file. Success means that no crash can bring the old
  document back. Every failure up to the rename leaves the target alone and no temporary file
  behind; a failure to sync the directory is reported although the new document is in place.\<close>

lemma write_atomic_outcomes:
  assumes "fresh_temp tmp i path d" "write_atomic faults torn tmp i path x d = (r, hist)"
  shows "case r of
      None \<Rightarrow> \<forall>y. may_read (last hist) path y \<longleftrightarrow> y = Some x
    | Some (st, err) \<Rightarrow>
        if after_rename st then file_of (last hist) path = Some x
        else file_of (last hist) path = file_of d path
          \<and> (\<forall>y. may_read (last hist) path y \<longleftrightarrow> may_read d path y)
          \<and> (st \<noteq> CreateTemp \<longrightarrow> file_of (last hist) tmp = None)"
proof -
  have ne: "tmp \<noteq> path" using assms(1) by (simp add: fresh_temp_def)
  note f = wrote_facts [OF ne]
  note res = write_atomic_result [OF ne assms(2)]
  show ?thesis
  proof (cases r)
    case None
    with res show ?thesis using renamed_disk(3) [OF f(1) assms(1) f(2-4)] by auto
  next
    case (Some e)
    obtain st err where e: "e = (st, err)" by fastforce
    show ?thesis
    proof (cases "after_rename st")
      case True
      with res Some e show ?thesis using renamed_disk(1) [OF f(1) assms(1) f(2-4)] by auto
    next
      case False
      with res Some e have b: "beside i path d (last hist)" "st \<noteq> CreateTemp \<longrightarrow> dk_live (last hist) tmp = None"
        by auto
      then show ?thesis using False Some e beside_frame [OF b(1) assms(1)] by (auto simp: file_of_def)
    qed
  qed
qed

definition sample_disk :: disk where
  "sample_disk = \<lparr>dk_live = [''/etc/config.yaml'' \<mapsto> 0], dk_synced = [''/etc/config.yaml'' \<mapsto> 0],
     dk_inodes = (\<lambda>i. \<lparr>in_data = ''old'', in_mode = 6 * 64, in_synced = True\<rparr>)\<rparr>"

lemma sample_settled: "settled ''/etc/config.yaml'' sample_disk"
  by (auto simp: settled_def may_read_def entry_may_read_def file_of_def sample_disk_def split: option.splits)

lemma sample_fresh: "fresh_temp ''/etc/.tmp'' 1 ''/etc/config.yaml'' sample_disk"
  by (simp add: fresh_temp_def sample_disk_def)

theorem write_atomic_crash_safe_witness:
  "let hist = snd (write_atomic (\<lambda>st. None) 2 ''/etc/.tmp'' 1 ''/etc/config.yaml'' ''new'' sample_disk)
   in length hist = 7 \<and> \<not> may_read (hist ! 5) ''/etc/config.yaml'' (Some ''ne'')
      \<and> \<not> may_read (hist ! 5) ''/etc/config.yaml'' None"
proof -
  let ?hist = "snd (write_atomic (\<lambda>st. None) 2 ''/etc/.tmp'' 1 ''/etc/config.yaml'' ''new'' sample_disk)"
  have len: "length ?hist = 7" by (simp add: write_atomic_def Let_def)
  then have "?hist ! 5 \<in> set ?hist" by (intro nth_mem) simp
  with write_atomic_crash_safe [OF sample_settled sample_fresh, of "\<lambda>st. None" 2 "''new''"]
  have "\<forall>y. may_read (?hist ! 5) ''/etc/config.yaml'' y \<longrightarrow> y = Some ''old'' \<or> y = Some ''new''"
    by (simp add: file_of_def sample_disk_def)
  with len show ?thesis by (auto simp: Let_def)
qed

section \<open>The Kubernetes client\<close>

record 'k kube_net =
  kn_token :: "'k \<Rightarrow> string + string"
  kn_do :: "'k \<Rightarrow> string \<Rightarrow> string \<Rightarrow> (string \<times> string) list \<Rightarrow> string \<Rightarrow> (string + int \<times> string) \<times> 'k"
  kn_quote :: "string \<Rightarrow> string"

record in_cluster_facts =
  ic_host :: string
  ic_port :: string
  ic_ca :: "string + string"
  ic_ca_valid :: bool
  ic_token_error :: "string option"

definition new_in_cluster_client :: "in_cluster_facts \<Rightarrow> string + string" where
  "new_in_cluster_client f =
     (if ic_host f = [] \<or> ic_port f = [] then Inl ''kube: KUBERNETES_SERVICE_HOST/PORT not set''
      else case ic_ca f of
        Inl err \<Rightarrow> Inl (''kube: read CA bundle: '' @ err)
      | Inr pem \<Rightarrow>
          (if \<not> ic_ca_valid f then Inl ''kube: no valid certs found''
           else case ic_token_error f of
             Some err \<Rightarrow> Inl (''kube: service account token not mounted: '' @ err)
           | None \<Rightarrow> Inr (''https://'' @ ic_host f @ '':'' @ ic_port f)))"

definition patch_body :: "'k kube_net \<Rightarrow> string \<Rightarrow> string \<Rightarrow> string" where
  "patch_body net k v =
     ''{'' @ [CHR 0x22] @ ''data'' @ [CHR 0x22] @ '':{'' @ kn_quote net k @ '':'' @ kn_quote net v @ ''}}''"

definition patch_config_map_key ::
  "'k kube_net \<Rightarrow> string \<Rightarrow> string \<Rightarrow> string \<Rightarrow> string \<Rightarrow> string \<Rightarrow> 'k \<Rightarrow> string option \<times> 'k" where
  "patch_config_map_key net api ns name k v s =
     (case kn_token net s of
        Inl err \<Rightarrow> (Some (''kube: read service account token: '' @ err), s)
      | Inr token \<Rightarrow>
          (let url = api @ ''/api/v1/namespaces/'' @ ns @ ''/configmaps/'' @ name
           in case kn_do net s ''PATCH'' url
                     [(''Content-Type'', ''application/merge-patch+json''), (''Authorization'', ''Bearer '' @ token)]
                     (patch_body net k v) of
                (Inl err, s) \<Rightarrow> (Some (''kube: PATCH '' @ url @ '': '' @ err), s)
              | (Inr (status, body), s) \<Rightarrow>
                  if status \<noteq> 200
                  then (Some (''kube: PATCH '' @ url @ '': unexpected status '' @ show_int status @ '': '' @ take (4 * 1024) body), s)
                  else (None, s)))"

section \<open>The backends\<close>

datatype store = FileStore string | ConfigMapStore string string string string | NoneStore

definition store_mode :: "store \<Rightarrow> string" where
  "store_mode st = (case st of FileStore p \<Rightarrow> ''file'' | ConfigMapStore api ns n k \<Rightarrow> ''configmap'' | NoneStore \<Rightarrow> ''none'')"

definition store_target :: "store \<Rightarrow> string" where
  "store_target st = (case st of FileStore p \<Rightarrow> p | ConfigMapStore api ns n k \<Rightarrow> ns @ ''/'' @ n | NoneStore \<Rightarrow> [])"

definition store_durable :: "store \<Rightarrow> bool" where
  "store_durable st = (st \<noteq> NoneStore)"

record 'k store_world =
  sw_disk :: disk
  sw_kube :: 'k
  sw_saves :: nat

text \<open>What the operating system does at the \<open>n\<close>-th save: its faults, the length of a torn write, and the
  temporary file it picks.\<close>

record 'k store_env =
  se_faults :: "nat \<Rightarrow> write_step \<Rightarrow> string option"
  se_torn :: "nat \<Rightarrow> nat"
  se_temp :: "disk \<Rightarrow> string \<times> nat"
  se_kube :: "'k kube_net"

definition step_text :: "write_step \<Rightarrow> string" where
  "step_text st = (case st of CreateTemp \<Rightarrow> ''create temp file'' | WriteTemp \<Rightarrow> ''write temp file''
     | ChmodTemp \<Rightarrow> ''chmod temp file'' | SyncTemp \<Rightarrow> ''fsync temp file'' | CloseTemp \<Rightarrow> ''close temp file''
     | RenameTemp \<Rightarrow> ''rename into place'' | OpenDir \<Rightarrow> ''open dir for fsync'' | SyncDir \<Rightarrow> ''fsync dir'')"

definition file_persist :: "'k store_env \<Rightarrow> string \<Rightarrow> 'k store_world \<Rightarrow> string \<Rightarrow> string option \<times> 'k store_world" where
  "file_persist env path w y =
     (let (tmp, i) = se_temp env (sw_disk w);
          r = write_atomic (se_faults env (sw_saves w)) (se_torn env (sw_saves w)) tmp i path y (sw_disk w)
      in (map_option (\<lambda>(st, err). step_text st @ '': '' @ err) (fst r),
          w\<lparr>sw_disk := final_disk r, sw_saves := Suc (sw_saves w)\<rparr>))"

definition persist :: "'k store_env \<Rightarrow> store \<Rightarrow> 'k store_world \<Rightarrow> string \<Rightarrow> string option \<times> 'k store_world" where
  "persist env st w y =
     (case st of
        FileStore path \<Rightarrow> file_persist env path w y
      | ConfigMapStore api ns n k \<Rightarrow>
          (case patch_config_map_key (se_kube env) api ns n k y (sw_kube w) of (r, s) \<Rightarrow> (r, w\<lparr>sw_kube := s\<rparr>))
      | NoneStore \<Rightarrow> (None, w))"

record store_options =
  so_mode :: string
  so_config_path :: string
  so_file_path :: string
  so_namespace :: string
  so_name :: string
  so_key :: string

datatype store_error = FileTargetUnusable string | NotInCluster string | UnknownStoreMode string

definition new_store :: "string + string \<Rightarrow> (string \<Rightarrow> string option) \<Rightarrow> store_options \<Rightarrow> store_error + store" where
  "new_store in_cluster probe opts =
     (let mode = (if so_mode opts = [] then ''auto'' else so_mode opts);
          target = (if so_file_path opts = [] then so_config_path opts else so_file_path opts);
          config_map = (\<lambda>api. ConfigMapStore api (so_namespace opts) (so_name opts) (so_key opts))
      in if mode = ''auto'' then
           (case in_cluster of
              Inr api \<Rightarrow> Inr (config_map api)
            | Inl err \<Rightarrow> (case new_file_writer probe target of Inr path \<Rightarrow> Inr (FileStore path) | Inl e \<Rightarrow> Inr NoneStore))
         else if mode = ''file'' then
           (case new_file_writer probe target of
              Inl err \<Rightarrow> Inl (FileTargetUnusable err) | Inr path \<Rightarrow> Inr (FileStore path))
         else if mode = ''configmap'' then
           (case in_cluster of
              Inl err \<Rightarrow> Inl (NotInCluster err)
            | Inr api \<Rightarrow> Inr (config_map api))
         else if mode = ''none'' then Inr NoneStore
         else Inl (UnknownStoreMode mode))"

text \<open>A persistence mode that the operator names is the one that is used or an error: only the automatic
  mode falls back, and it never fails.\<close>

lemma explicit_mode_never_falls_back:
  "(case new_store in_cluster probe opts of
      Inr st \<Rightarrow> store_mode st = so_mode opts \<or> so_mode opts \<in> {[], ''auto''}
    | Inl err \<Rightarrow> so_mode opts \<notin> {[], ''auto'', ''none''})"
  by (cases in_cluster; cases "new_file_writer probe (if so_file_path opts = [] then so_config_path opts else so_file_path opts)")
    (auto simp: new_store_def Let_def store_mode_def)

section \<open>The contract of a durable store\<close>

text \<open>\<open>may w y\<close>: a restart after a crash may find the document \<open>y\<close>. A save that reports success is what
  every restart finds; one that fails adds at most its own document to what may be found.\<close>

locale config_store =
  fixes save :: "'w \<Rightarrow> string \<Rightarrow> string option \<times> 'w"
    and may :: "'w \<Rightarrow> string option \<Rightarrow> bool"
    and good :: "'w \<Rightarrow> bool"
  assumes saved: "good w \<Longrightarrow> save w y = (None, w') \<Longrightarrow> may w' z \<longleftrightarrow> z = Some y"
    and unsaved: "good w \<Longrightarrow> save w y = (Some err, w') \<Longrightarrow> may w' z \<Longrightarrow> may w z \<or> z = Some y"
    and still_good: "good w \<Longrightarrow> good (snd (save w y))"
begin

fun saves :: "'w \<Rightarrow> string list \<Rightarrow> string option list \<times> 'w" where
  "saves w [] = ([], w)"
| "saves w (y # ys) = (let (r, w) = save w y; (rs, w) = saves w ys in (r # rs, w))"

text \<open>After a series of saves a restart finds what it found before or one of the documents submitted, and
  if one of them was reported saved, that one or a later one.\<close>

lemma saves_found:
  "good w \<Longrightarrow> saves w ys = (rs, w') \<Longrightarrow> may w' z \<Longrightarrow> z \<noteq> None \<Longrightarrow> \<not> may w z \<Longrightarrow> z \<in> Some ` set ys"
proof (induction ys arbitrary: w rs)
  case (Cons y ys)
  obtain r w1 where 1: "save w y = (r, w1)" by fastforce
  obtain rs1 where 2: "saves w1 ys = (rs1, w')" using Cons.prems(2) 1 by (auto simp: Let_def split: prod.splits)
  have g: "good w1" using still_good [OF Cons.prems(1), of y] 1 by simp
  show ?case
  proof (cases "may w1 z")
    case True
    then have "z = Some y \<or> may w z"
      using saved [OF Cons.prems(1), of y w1 z] unsaved [OF Cons.prems(1), of y _ w1 z] 1 by (cases r) auto
    with Cons.prems(5) show ?thesis by auto
  next
    case False
    from Cons.IH [OF g 2 Cons.prems(3,4) False] show ?thesis by auto
  qed
qed simp

lemma last_saved:
  assumes "good w" "saves w (ys @ [y]) = (rs @ [None], w')" "length rs = length ys"
  shows "may w' z \<longleftrightarrow> z = Some y"
  using assms
proof (induction ys arbitrary: w rs)
  case Nil
  then show ?case using saved by (auto simp: Let_def split: prod.splits)
next
  case (Cons x ys)
  obtain r w1 where 1: "save w x = (r, w1)" by fastforce
  obtain r0 rs0 where rs: "rs = r0 # rs0" using Cons.prems(3) by (cases rs) auto
  have 2: "saves w1 (ys @ [y]) = (rs0 @ [None], w')"
    using Cons.prems(2) 1 rs by (auto simp: Let_def split: prod.splits)
  have g: "good w1" using still_good [OF Cons.prems(1), of x] 1 by simp
  from Cons.IH [OF g 2] Cons.prems(3) rs show ?case by simp
qed

end

definition temps_fresh :: "'k store_env \<Rightarrow> string \<Rightarrow> bool" where
  "temps_fresh env path \<longleftrightarrow> (\<forall>d. fresh_temp (fst (se_temp env d)) (snd (se_temp env d)) path d)"

lemma file_persist_cases:
  assumes "temps_fresh env path" "file_persist env path w y = (r, w')"
  shows "r = None \<Longrightarrow> may_read (sw_disk w') path z \<longleftrightarrow> z = Some y"
    and "r \<noteq> None \<Longrightarrow> may_read (sw_disk w') path z \<Longrightarrow> may_read (sw_disk w) path z \<or> z = Some y"
proof -
  let ?t = "fst (se_temp env (sw_disk w))" and ?i = "snd (se_temp env (sw_disk w))"
  obtain res hist where wa: "write_atomic (se_faults env (sw_saves w)) (se_torn env (sw_saves w)) ?t ?i path y (sw_disk w)
      = (res, hist)" by fastforce
  have fr: "fresh_temp ?t ?i path (sw_disk w)" using assms(1) by (simp add: temps_fresh_def)
  then have ne: "?t \<noteq> path" by (simp add: fresh_temp_def)
  note f = wrote_facts [OF ne]
  have r: "(r = None) = (res = None)" and w': "sw_disk w' = last hist"
    using assms(2) wa by (auto simp: file_persist_def final_disk_def split_def Let_def)
  note wr = write_atomic_result [OF ne wa]
  show "r = None \<Longrightarrow> may_read (sw_disk w') path z \<longleftrightarrow> z = Some y"
    using wr r renamed_disk(3) [OF f(1) fr f(2-4)] by (auto simp: w')
  assume "r \<noteq> None" and m: "may_read (sw_disk w') path z"
  then obtain st err where e: "res = Some (st, err)" using r by auto
  show "may_read (sw_disk w) path z \<or> z = Some y"
  proof (cases "after_rename st")
    case True
    with wr e m show ?thesis by (auto simp: w' dest: renamed_disk(2) [OF f(1) fr f(2-4)])
  next
    case False
    with wr e have "beside ?i path (sw_disk w) (last hist)" by simp
    with m show ?thesis using beside_frame(1) [OF _ fr] by (simp add: w')
  qed
qed

interpretation file_store: config_store "file_persist env path" "\<lambda>w. may_read (sw_disk w) path" "\<lambda>w. temps_fresh env path"
  for env :: "'k store_env" and path
proof
  fix w y and w' :: "'k store_world" and z err
  show "temps_fresh env path \<Longrightarrow> file_persist env path w y = (None, w') \<Longrightarrow> may_read (sw_disk w') path z \<longleftrightarrow> z = Some y"
    using file_persist_cases(1) by blast
  show "temps_fresh env path \<Longrightarrow> file_persist env path w y = (Some err, w') \<Longrightarrow> may_read (sw_disk w') path z
      \<Longrightarrow> may_read (sw_disk w) path z \<or> z = Some y"
    using file_persist_cases(2) by blast
  show "temps_fresh env path \<Longrightarrow> temps_fresh env path" .
qed

end
