(* ===== verification/Telemetry.thy ===== *)
theory Telemetry
  imports GoBase Complex_Main
begin

text \<open>
  \<open>internal/telemetry/telemetry.go\<close>: the in-memory state of the fleet (\<open>Ingest\<close>, \<open>SetRoomStatus\<close>,
  \<open>SetExpectedWake\<close>, \<open>Snapshot\<close>) and the metrics exposition. The two floating-point readings are
  only carried and printed; a JSON number is a rational. A metric is its name, its labels and its
  value, in the order of the exposition; the text of the format is left out. The durable copy and
  the queue between the two are in \<open>TelemetrySink\<close> and \<open>TelemetryQueue\<close>.
\<close>

section \<open>State\<close>

record report =
  rp_fw :: string
  rp_battery_mv :: int
  rp_battery_pct :: int
  rp_heap_free :: int
  rp_heap_min :: int
  rp_rssi :: int
  rp_wake_reason :: string
  rp_wake_ms :: int
  rp_rendered :: bool
  rp_err :: string
  rp_boot :: int
  rp_temp :: "rat option"
  rp_rh :: "rat option"

definition zero_report :: report where
  "zero_report = \<lparr>rp_fw = [], rp_battery_mv = 0, rp_battery_pct = 0, rp_heap_free = 0, rp_heap_min = 0,
     rp_rssi = 0, rp_wake_reason = [], rp_wake_ms = 0, rp_rendered = False, rp_err = [], rp_boot = 0,
     rp_temp = None, rp_rh = None\<rparr>"

record dev_state =
  ds_last :: report
  ds_last_seen :: time
  ds_last_rendered :: time
  ds_room_status :: string
  ds_expected_wake :: u32
  ds_reported :: bool

definition zero_state :: dev_state where
  "zero_state = \<lparr>ds_last = zero_report, ds_last_seen = zero_time, ds_last_rendered = zero_time,
     ds_room_status = [], ds_expected_wake = 0, ds_reported = False\<rparr>"

type_synonym fleet = "string \<rightharpoonup> dev_state"

definition state_of :: "fleet \<Rightarrow> string \<Rightarrow> dev_state" where
  "state_of m d = (case m d of Some s \<Rightarrow> s | None \<Rightarrow> zero_state)"

record tel_record =
  tr_device :: string
  tr_report :: report
  tr_last_seen :: time
  tr_last_rendered :: time

section \<open>Operations\<close>

definition ingest_state :: "dev_state \<Rightarrow> report \<Rightarrow> time \<Rightarrow> dev_state" where
  "ingest_state st r now =
     (let last_rendered = (if rp_rendered r then now else ds_last_rendered st)
      in \<lparr>ds_last = r, ds_last_seen = now, ds_last_rendered = last_rendered,
          ds_room_status = ds_room_status st, ds_expected_wake = ds_expected_wake st, ds_reported = True\<rparr>)"

definition ingest :: "fleet \<Rightarrow> string \<Rightarrow> report \<Rightarrow> time \<Rightarrow> fleet" where
  "ingest m d r now = m(d \<mapsto> ingest_state (state_of m d) r now)"

text \<open>The record that \<open>Ingest\<close> hands to the queue.\<close>

definition ingest_record :: "fleet \<Rightarrow> string \<Rightarrow> report \<Rightarrow> time \<Rightarrow> tel_record" where
  "ingest_record m d r now =
     \<lparr>tr_device = d, tr_report = r, tr_last_seen = now,
      tr_last_rendered = (if rp_rendered r then now else ds_last_rendered (state_of m d))\<rparr>"

definition set_room_status :: "fleet \<Rightarrow> string \<Rightarrow> string \<Rightarrow> fleet" where
  "set_room_status m d status = m(d \<mapsto> (state_of m d)\<lparr>ds_room_status := status\<rparr>)"

definition set_expected_wake :: "fleet \<Rightarrow> string \<Rightarrow> u32 \<Rightarrow> fleet" where
  "set_expected_wake m d s = (if s = 0 then m else m(d \<mapsto> (state_of m d)\<lparr>ds_expected_wake := s\<rparr>))"

record snapshot =
  sn_report :: report
  sn_last_seen :: time
  sn_last_rendered :: time
  sn_expected_wake :: u32

definition snapshot_of :: "fleet \<Rightarrow> string \<Rightarrow> snapshot option" where
  "snapshot_of m d =
     (case m d of
        Some st \<Rightarrow>
          if \<not> ds_reported st then None
          else Some \<lparr>sn_report = ds_last st, sn_last_seen = ds_last_seen st,
                     sn_last_rendered = ds_last_rendered st, sn_expected_wake = ds_expected_wake st\<rparr>
      | None \<Rightarrow> None)"

text \<open>\<open>NewWithSink\<close>: the map that a restart begins with.\<close>

definition warm_start :: "tel_record list \<Rightarrow> fleet" where
  "warm_start recs = foldl (\<lambda>m rec. m(tr_device rec \<mapsto>
     \<lparr>ds_last = tr_report rec, ds_last_seen = tr_last_seen rec, ds_last_rendered = tr_last_rendered rec,
      ds_room_status = [], ds_expected_wake = 0, ds_reported = True\<rparr>)) Map.empty recs"

section \<open>What a sequence of events leaves\<close>

datatype tel_event = Ingest string report time | RoomStatus string string | ExpectedWake string u32

fun tel_step :: "fleet \<Rightarrow> tel_event \<Rightarrow> fleet" where
  "tel_step m (Ingest d r now) = ingest m d r now"
| "tel_step m (RoomStatus d s) = set_room_status m d s"
| "tel_step m (ExpectedWake d s) = set_expected_wake m d s"

definition reports_of :: "string \<Rightarrow> tel_event list \<Rightarrow> (report \<times> time) list" where
  "reports_of d evs = concat (map (\<lambda>e. case e of Ingest d' r t \<Rightarrow> if d' = d then [(r, t)] else [] | _ \<Rightarrow> []) evs)"

definition renders_of :: "string \<Rightarrow> tel_event list \<Rightarrow> time list" where
  "renders_of d evs = map snd (filter (rp_rendered \<circ> fst) (reports_of d evs))"

lemma reports_of_snoc [simp]:
  "reports_of d (evs @ [Ingest d' r t]) = reports_of d evs @ (if d' = d then [(r, t)] else [])"
  "reports_of d (evs @ [RoomStatus d' s]) = reports_of d evs"
  "reports_of d (evs @ [ExpectedWake d' w]) = reports_of d evs"
  by (simp_all add: reports_of_def)

lemma renders_of_snoc [simp]:
  "renders_of d (evs @ [Ingest d' r t]) = renders_of d evs @ (if d' = d \<and> rp_rendered r then [t] else [])"
  "renders_of d (evs @ [RoomStatus d' s]) = renders_of d evs"
  "renders_of d (evs @ [ExpectedWake d' w]) = renders_of d evs"
  by (simp_all add: renders_of_def)

definition last_or :: "'a \<Rightarrow> 'a list \<Rightarrow> 'a" where
  "last_or z xs = (if xs = [] then z else last xs)"

lemma last_or_snoc [simp]: "last_or z (xs @ [x]) = x" "last_or z [] = z"
  by (simp_all add: last_or_def)

text \<open>Whatever order of reports, calendar updates and schedules the broker has seen, a device is
  in the fleet view exactly when it has reported; the view is its latest report, and the time of
  its latest report that repainted the panel.\<close>

lemma snapshot_is_history:
  "snapshot_of (foldl tel_step Map.empty evs) d = Some s \<longleftrightarrow>
     reports_of d evs \<noteq> [] \<and> sn_report s = fst (last (reports_of d evs))
     \<and> sn_last_seen s = snd (last (reports_of d evs))
     \<and> sn_last_rendered s = last_or zero_time (renders_of d evs)
     \<and> sn_expected_wake s = ds_expected_wake (state_of (foldl tel_step Map.empty evs) d)"
proof -
  have inv: "let st = state_of (foldl tel_step Map.empty evs) d; rs = reports_of d evs in
      (ds_reported st \<longleftrightarrow> rs \<noteq> []) \<and> (rs \<noteq> [] \<longrightarrow> (ds_last st, ds_last_seen st) = last rs)
      \<and> ds_last_rendered st = last_or zero_time (renders_of d evs)"
  proof (induction evs rule: rev_induct)
    case Nil
    show ?case by (simp add: state_of_def zero_state_def reports_of_def renders_of_def)
  next
    case (snoc e evs)
    then show ?case
      by (cases e) (auto simp: Let_def state_of_def ingest_def ingest_state_def set_room_status_def
          set_expected_wake_def split: option.splits)
  qed
  have snap: "snapshot_of m d = Some s \<longleftrightarrow> ds_reported (state_of m d) \<and>
      s = \<lparr>sn_report = ds_last (state_of m d), sn_last_seen = ds_last_seen (state_of m d),
        sn_last_rendered = ds_last_rendered (state_of m d), sn_expected_wake = ds_expected_wake (state_of m d)\<rparr>"
    for m by (auto simp: snapshot_of_def state_of_def zero_state_def split: option.splits)
  show ?thesis unfolding snap using inv by (cases s) (auto simp: Let_def prod_eq_iff)
qed

section \<open>Metrics\<close>

record metric =
  me_name :: string
  me_device :: "string option"
  me_status :: "string option"
  me_value :: rat

definition gauge :: "string \<Rightarrow> string \<Rightarrow> rat \<Rightarrow> metric" where
  "gauge n d v = \<lparr>me_name = n, me_device = Some d, me_status = None, me_value = v\<rparr>"

text \<open>The keys of the map, as a sorted list: \<open>devs\<close> lists the devices that Go iterates over.\<close>

definition metric_ids :: "(dev_state \<Rightarrow> bool) \<Rightarrow> string list \<Rightarrow> fleet \<Rightarrow> string list" where
  "metric_ids P devs m = sort (filter (\<lambda>d. case m d of Some st \<Rightarrow> P st | None \<Rightarrow> False) devs)"

definition emit_gauge :: "string list \<Rightarrow> fleet \<Rightarrow> string \<Rightarrow> (report \<Rightarrow> int) \<Rightarrow> metric list" where
  "emit_gauge ids m name f = map (\<lambda>d. gauge name d (of_int (f (ds_last (state_of m d))))) ids"

definition emit_opt :: "string list \<Rightarrow> fleet \<Rightarrow> string \<Rightarrow> (dev_state \<Rightarrow> rat option) \<Rightarrow> metric list" where
  "emit_opt ids m name f =
     concat (map (\<lambda>d. case f (state_of m d) of Some v \<Rightarrow> [gauge name d v] | None \<Rightarrow> []) ids)"

definition write_metrics :: "string list \<Rightarrow> fleet \<Rightarrow> (nat \<times> nat) option \<Rightarrow> time \<Rightarrow> metric list" where
  "write_metrics devs m sink now =
     (let ids = metric_ids ds_reported devs m in
      emit_gauge ids m ''md_battery_millivolts'' rp_battery_mv
      @ emit_gauge ids m ''md_battery_percent'' rp_battery_pct
      @ emit_gauge ids m ''md_heap_free_bytes'' rp_heap_free
      @ emit_gauge ids m ''md_heap_min_free_bytes'' rp_heap_min
      @ emit_gauge ids m ''md_wifi_rssi_dbm'' rp_rssi
      @ emit_gauge ids m ''md_wake_duration_ms'' rp_wake_ms
      @ emit_gauge ids m ''md_boot_count'' rp_boot
      @ emit_opt ids m ''md_last_seen_seconds''
          (\<lambda>st. Some (of_int (trunc_secs (time_sub now (ds_last_seen st)))))
      @ emit_opt ids m ''md_expected_wake_seconds''
          (\<lambda>st. if ds_expected_wake st > 0 then Some (of_int (uint (ds_expected_wake st))) else None)
      @ emit_opt ids m ''md_last_render_seconds''
          (\<lambda>st. if is_zero_time (ds_last_rendered st) then None
                else Some (of_int (trunc_secs (time_sub now (ds_last_rendered st)))))
      @ emit_opt ids m ''md_room_temp_celsius'' (rp_temp \<circ> ds_last)
      @ emit_opt ids m ''md_room_humidity_percent'' (rp_rh \<circ> ds_last)
      @ map (\<lambda>d. \<lparr>me_name = ''md_room_status_info'', me_device = Some d,
                 me_status = Some (ds_room_status (state_of m d)), me_value = 1\<rparr>)
            (metric_ids (\<lambda>st. ds_room_status st \<noteq> []) devs m)
      @ (case sink of
           Some (errs, dropped) \<Rightarrow>
             [\<lparr>me_name = ''md_telemetry_sink_errors_total'', me_device = None, me_status = None,
               me_value = of_nat errs\<rparr>,
              \<lparr>me_name = ''md_telemetry_sink_dropped_total'', me_device = None, me_status = None,
               me_value = of_nat dropped\<rparr>]
         | None \<Rightarrow> []))"

lemma set_metric_ids:
  "set (metric_ids P devs m) = {d \<in> set devs. \<exists>st. m d = Some st \<and> P st}"
  by (auto simp: metric_ids_def split: option.splits)

lemma emit_mem:
  "x \<in> set (emit_gauge ids m n f) \<Longrightarrow> \<exists>d \<in> set ids. me_device x = Some d \<and> me_name x = n \<and> me_status x = None"
  "x \<in> set (emit_opt ids m n g) \<Longrightarrow> \<exists>d \<in> set ids. me_device x = Some d \<and> me_name x = n \<and> me_status x = None"
  by (auto simp: emit_gauge_def emit_opt_def gauge_def split: option.splits)

text \<open>A device that has never reported has no battery, signal, age or climate metric: the only
  metric that can carry its name is the room status, which the calendar gives.\<close>

lemma unreported_not_in_metrics:
  assumes "x \<in> set (write_metrics devs m sink now)" "me_device x = Some d"
    and "\<forall>st. m d = Some st \<longrightarrow> \<not> ds_reported st"
  shows "me_name x = ''md_room_status_info'' \<and> (\<exists>st. m d = Some st \<and> me_status x = Some (ds_room_status st)
    \<and> ds_room_status st \<noteq> [])"
proof -
  have notin: "d \<notin> set (metric_ids ds_reported devs m)" using assms(3) by (auto simp: set_metric_ids)
  note mem = emit_mem [where ids = "metric_ids ds_reported devs m" and m = m and x = x]
  from assms(1,2) notin mem
  have "x \<in> set (map (\<lambda>d. \<lparr>me_name = ''md_room_status_info'', me_device = Some d,
      me_status = Some (ds_room_status (state_of m d)), me_value = 1\<rparr>)
      (metric_ids (\<lambda>st. ds_room_status st \<noteq> []) devs m))"
    unfolding write_metrics_def Let_def
    by (auto split: option.splits dest!: emit_mem)
  with assms(2) show ?thesis by (auto simp: set_metric_ids state_of_def)
qed

end
