(* ===== verification/Calendar.thy ===== *)
theory Calendar
  imports GoBase
begin

text \<open>
  \<open>internal/calendar/calendar.go\<close>: a room's schedule, the meeting in progress and the next one,
  the room's displayed status, and the next instant at which that status can change. The lemmas
  say that a device told to sleep until \<open>next_transition_at\<close> misses no status change, and that
  \<open>normalize\<close> gives a sorted schedule of exactly the events that end after the window opens.
  \<open>sort.Slice\<close> is modelled by the stable sort (its insertion sort for up to twelve events); the
  lemmas use only that the result is sorted by start and a permutation.
\<close>

section \<open>Events and schedules\<close>

record event =
  ev_subject :: string
  ev_organizer :: string
  ev_start :: time
  ev_end :: time
  ev_private :: bool

record schedule =
  sc_room_name :: string
  sc_events :: "event list"
  sc_fetched_at :: time

definition current :: "schedule \<Rightarrow> time \<Rightarrow> event option" where
  "current s t = find_first (\<lambda>e. \<not> t < ev_start e \<and> t < ev_end e) (sc_events s)"

definition next_event :: "schedule \<Rightarrow> time \<Rightarrow> event option" where
  "next_event s t = find_first (\<lambda>e. \<not> ev_start e < t) (sc_events s)"

definition starting_soon_window :: duration where "starting_soon_window = 10 * minute"
definition back_to_back_window :: duration where "back_to_back_window = 5 * minute"
definition transition_buffer :: duration where "transition_buffer = 30 * second"

lemmas window_defs = starting_soon_window_def back_to_back_window_def transition_buffer_def dur_defs

definition room_status :: "event option \<Rightarrow> event option \<Rightarrow> time \<Rightarrow> string" where
  "room_status cur nxt now =
     (if cur \<noteq> None then ''in_meeting''
      else (case nxt of
              Some n \<Rightarrow> if time_sub (ev_start n) now \<le> starting_soon_window then ''starting_soon''
                        else ''available''
            | None \<Rightarrow> ''available''))"

definition back_to_back :: "event option \<Rightarrow> event option \<Rightarrow> event option" where
  "back_to_back cur nxt =
     (case (cur, nxt) of
        (Some c, Some n) \<Rightarrow>
          if time_sub (ev_start n) (ev_end c) \<le> back_to_back_window then Some n else None
      | _ \<Rightarrow> None)"

text \<open>\<open>None\<close> is \<open>ok = false\<close>: no known future transition.\<close>

definition next_transition_at :: "event option \<Rightarrow> event option \<Rightarrow> time \<Rightarrow> time option" where
  "next_transition_at cur nxt now =
     (case cur of
        Some c \<Rightarrow>
          (let reveal_at = ev_end c - back_to_back_window
           in if back_to_back cur nxt \<noteq> None \<and> now < reveal_at
              then Some (reveal_at + transition_buffer)
              else Some (ev_end c + transition_buffer))
      | None \<Rightarrow>
          (case nxt of
             Some n \<Rightarrow>
               (let soon_at = ev_start n - starting_soon_window
                in if now < soon_at then Some (soon_at + transition_buffer)
                   else Some (ev_start n + transition_buffer))
           | None \<Rightarrow> None))"

definition normalize :: "string \<Rightarrow> event list \<Rightarrow> time \<Rightarrow> time \<Rightarrow> schedule" where
  "normalize name events from fetched_at =
     \<lparr>sc_room_name = name,
      sc_events = sort_key ev_start (filter (\<lambda>e. from < ev_end e) events),
      sc_fetched_at = fetched_at\<rparr>"

section \<open>What the queries return\<close>

definition starts_sorted :: "schedule \<Rightarrow> bool" where
  "starts_sorted s \<longleftrightarrow> sorted (map ev_start (sc_events s))"

lemma current_SomeD:
  "current s t = Some e \<Longrightarrow> e \<in> set (sc_events s) \<and> ev_start e \<le> t \<and> t < ev_end e"
  by (auto simp: current_def dest: find_first_Some)

lemma current_None:
  "current s t = None \<longleftrightarrow> (\<forall>e \<in> set (sc_events s). ev_start e \<le> t \<longrightarrow> ev_end e \<le> t)"
  by (auto simp: current_def)

lemma next_event_SomeD: "next_event s t = Some e \<Longrightarrow> e \<in> set (sc_events s) \<and> t \<le> ev_start e"
  by (auto simp: next_event_def dest: find_first_Some)

lemma next_event_None: "next_event s t = None \<longleftrightarrow> (\<forall>e \<in> set (sc_events s). ev_start e < t)"
  by (auto simp: next_event_def)

text \<open>On a sorted schedule the next event is the same at every instant up to its start, and no
  other event starts in between.\<close>

lemma next_event_until:
  assumes "starts_sorted s" "next_event s now = Some n" "now \<le> t" "t \<le> ev_start n"
  shows "next_event s t = Some n"
    and "\<And>e. e \<in> set (sc_events s) \<Longrightarrow> ev_start e < now \<or> ev_start n \<le> ev_start e"
proof -
  from assms(2) obtain ys zs where s: "sc_events s = ys @ n # zs" "\<forall>y \<in> set ys. ev_start y < now"
    unfolding next_event_def by (auto dest!: find_first_split)
  with assms show "next_event s t = Some n"
    by (fastforce simp: next_event_def intro: find_first_appendI)
  show "\<And>e. e \<in> set (sc_events s) \<Longrightarrow> ev_start e < now \<or> ev_start n \<le> ev_start e"
    using s assms(1) by (auto simp: starts_sorted_def sorted_append)
qed

lemma current_None_until:
  assumes "starts_sorted s" "current s now = None" "now \<le> t"
    and "\<And>n. next_event s now = Some n \<Longrightarrow> t < ev_start n"
  shows "current s t = None"
proof (unfold current_None, intro ballI impI)
  fix e assume e: "e \<in> set (sc_events s)" "ev_start e \<le> t"
  have "ev_start e < now"
  proof (cases "next_event s now")
    case None
    with e show ?thesis by (auto simp: next_event_None)
  next
    case (Some n)
    with next_event_until(2) [OF assms(1) Some, of now e] next_event_SomeD [OF Some] e assms(4)
    show ?thesis by auto
  qed
  with assms(2,3) e(1) have "ev_end e \<le> now" by (auto simp: current_None)
  with assms(3) show "ev_end e \<le> t" by simp
qed

lemma room_status_soon:
  "room_status None (Some n) t = ''starting_soon'' \<longleftrightarrow> ev_start n - starting_soon_window \<le> t"
  "room_status None (Some n) t = ''available'' \<longleftrightarrow> t < ev_start n - starting_soon_window"
  using time_sub_le [of starting_soon_window "ev_start n" t]
  by (auto simp: room_status_def window_defs max_duration_def)

definition status_at :: "schedule \<Rightarrow> time \<Rightarrow> string" where
  "status_at s t = room_status (current s t) (next_event s t) t"

section \<open>A device that sleeps until the transition misses nothing\<close>

lemma status_at_in_meeting: "current s t = Some e \<Longrightarrow> status_at s t = ''in_meeting''"
  by (simp add: status_at_def room_status_def)

lemma status_during_current:
  assumes "current s now = Some c" "now \<le> t" "t < ev_end c"
  shows "status_at s t = ''in_meeting''"
proof -
  have "current s t \<noteq> None"
    using current_SomeD [OF assms(1)] assms(2,3) unfolding current_None by force
  then show ?thesis by (auto intro: status_at_in_meeting)
qed

text \<open>C3. Between now and the transition instant (without its 30 second buffer) the displayed
  status of a sorted schedule does not change; when no transition is known it never changes.\<close>

theorem status_constant_until_transition:
  assumes "starts_sorted s" "now \<le> t"
    and "\<And>w. next_transition_at (current s now) (next_event s now) now = Some w
          \<Longrightarrow> t < w - transition_buffer"
  shows "status_at s t = status_at s now"
proof (cases "current s now")
  case (Some c)
  have "0 \<le> back_to_back_window" by (simp add: window_defs)
  then obtain w where "next_transition_at (current s now) (next_event s now) now = Some w"
    "w - transition_buffer \<le> ev_end c"
    by (cases "back_to_back (Some c) (next_event s now) \<noteq> None \<and> now < ev_end c - back_to_back_window")
      (auto simp: Some next_transition_at_def Let_def)
  with assms(3) have "t < ev_end c" by fastforce
  with status_during_current [OF Some assms(2)] show ?thesis
    by (simp add: status_at_in_meeting [OF Some])
next
  case None
  show ?thesis
  proof (cases "next_event s now")
    case (Some n)
    have "0 \<le> starting_soon_window" by (simp add: window_defs)
    then have t: "t < ev_start n"
      "now < ev_start n - starting_soon_window \<longrightarrow> t < ev_start n - starting_soon_window"
      using assms(3) by (cases "now < ev_start n - starting_soon_window";
        simp add: None Some next_transition_at_def Let_def)+
    have "current s t = None"
      using current_None_until [OF assms(1) None assms(2)] Some t(1) by simp
    moreover have "next_event s t = Some n"
      using next_event_until(1) [OF assms(1) Some assms(2)] t(1) by simp
    moreover have "room_status None (Some n) t = room_status None (Some n) now"
      using room_status_soon [of n t] room_status_soon [of n now] t(2) assms(2)
      by (cases "now < ev_start n - starting_soon_window") auto
    ultimately show ?thesis by (simp add: status_at_def None Some)
  next
    case none: None
    then have "next_event s t = None" using assms(2) by (auto simp: next_event_None)
    moreover have "current s t = None"
      using current_None_until [OF assms(1) None assms(2)] none by simp
    ultimately show ?thesis by (simp add: status_at_def None none room_status_def)
  qed
qed

theorem status_constant_until_transition_witness:
  "let s = \<lparr>sc_room_name = ''Aspen'', sc_events =
      [\<lparr>ev_subject = '''', ev_organizer = '''', ev_start = 3600 * second, ev_end = 7200 * second,
        ev_private = False\<rparr>], sc_fetched_at = 0\<rparr>
   in status_at s (2999 * second) = status_at s 0"
proof -
  let ?e = "\<lparr>ev_subject = '''', ev_organizer = '''', ev_start = 3600 * second,
    ev_end = 7200 * second, ev_private = False\<rparr>"
  let ?s = "\<lparr>sc_room_name = ''Aspen'', sc_events = [?e], sc_fetched_at = 0\<rparr>"
  have "status_at ?s (2999 * second) = status_at ?s 0"
    by (rule status_constant_until_transition)
      (auto simp: starts_sorted_def current_def next_event_def next_transition_at_def window_defs)
  then show ?thesis by simp
qed

text \<open>The transition of a fresh snapshot lies in the future by at least the buffer.\<close>

lemma transition_future:
  assumes "next_transition_at (current s now) (next_event s now) now = Some w"
  shows "now + transition_buffer \<le> w"
  using assms
  by (auto simp: next_transition_at_def Let_def split: option.splits if_splits
      dest!: current_SomeD next_event_SomeD)

text \<open>\<open>normalize\<close> keeps exactly the events that end after \<open>from\<close>, each as often as it was
  given, and orders them by start.\<close>

lemma normalize_correct:
  "starts_sorted (normalize name es from at)
   \<and> mset (sc_events (normalize name es from at)) = filter_mset (\<lambda>e. from < ev_end e) (mset es)
   \<and> sc_room_name (normalize name es from at) = name"
  by (simp add: normalize_def starts_sorted_def mset_filter)

section \<open>The demo provider\<close>

text \<open>\<open>demo.go\<close>: a canned schedule around the clock it is asked at.\<close>

definition demo_event :: "time \<Rightarrow> string \<Rightarrow> int \<Rightarrow> int \<Rightarrow> bool \<Rightarrow> event" where
  "demo_event now subj start_min dur_min private =
     (let s = now + start_min * minute
      in \<lparr>ev_subject = subj, ev_organizer = '''', ev_start = s, ev_end = s + dur_min * minute,
          ev_private = private\<rparr>)"

definition demo_fetch :: "string \<Rightarrow> time \<Rightarrow> time \<Rightarrow> schedule" where
  "demo_fetch room_email from now =
     normalize room_email
       [demo_event now ''Quarterly planning'' (- 20) 60 False,
        demo_event now ''Vendor demo'' 55 30 False,
        demo_event now ''Eng sync'' 145 30 True] from now"

lemma demo_in_meeting:
  assumes "from \<le> now"
  shows "status_at (demo_fetch room from now) now = ''in_meeting''"
proof -
  have "current (demo_fetch room from now) now \<noteq> None"
    using assms by (simp add: current_None demo_fetch_def normalize_def demo_event_def dur_defs)
  then show ?thesis by (auto intro: status_at_in_meeting)
qed

end
