(* ===== verification/Wake.thy ===== *)
theory Wake
  imports ConfigEdit Calendar
begin

text \<open>
  The sleep scheduler of \<open>internal/config/config.go\<close> (\<open>NextWakeDuration\<close> and what it calls). A
  number of seconds is a 32 bit word, as in the wire header; the instants between are integers.
  The conversion \<open>uint32(d.Seconds())\<close> keeps the whole seconds modulo \<open>2 ^ 32\<close>. A time zone that
  cannot be loaded makes \<open>now.In(nil)\<close> panic: the result is \<open>None\<close>. The lemmas place the wake of a
  flat-mode device on the fleet's grid, keep it out of the last minute before a boundary, and show
  that a smart-mode device wakes after the change it waits for and before the end of its buffer.
\<close>

section \<open>The functions\<close>

definition min_wake_seconds :: u32 where "min_wake_seconds = 60"
definition max_wake_seconds :: u32 where "max_wake_seconds = 6 * 3600"
definition grid_offset_seconds :: int where "grid_offset_seconds = 5 * 60"

definition clamp_wake_seconds :: "u32 \<Rightarrow> u32" where
  "clamp_wake_seconds s =
     (if s < min_wake_seconds then min_wake_seconds
      else if s > max_wake_seconds then max_wake_seconds else s)"

text \<open>Go's integer division truncates towards zero.\<close>

definition go_div :: "int \<Rightarrow> int \<Rightarrow> int" where
  "go_div a b = (if a < 0 then - ((- a) div b) else a div b)"

definition seconds_until_next_boundary :: "time \<Rightarrow> u32 \<Rightarrow> u32" where
  "seconds_until_next_boundary now interval_seconds =
     (if interval_seconds = 0 then 0
      else let interval = uint interval_seconds;
               epoch = unix now - grid_offset_seconds;
               nxt = (go_div epoch interval + 1) * interval;
               d = nxt + grid_offset_seconds - unix now;
               d = (if d < uint min_wake_seconds \<and> interval > uint min_wake_seconds then d + interval else d)
           in word_of_int d)"

definition duration_seconds :: "duration \<Rightarrow> u32" where
  "duration_seconds d = word_of_int (d div second)"

definition seconds_until_business_hours_start :: "zone \<Rightarrow> time \<Rightarrow> int \<Rightarrow> u32" where
  "seconds_until_business_hours_start z now h =
     (let nxt = time_of_local z (local_day z now * 86400 + h * 3600);
          nxt = (if \<not> nxt > now then time_of_local z (local_secs z nxt + 86400) else nxt)
      in duration_seconds (time_sub nxt now))"

definition wake_mode_for :: "config \<Rightarrow> room \<Rightarrow> string" where
  "wake_mode_for c r =
     (case rm_wake_mode r of
        Some m \<Rightarrow> if m \<noteq> [] then m
                  else if wk_mode (cf_wake c) \<noteq> [] then wk_mode (cf_wake c) else ''flat''
      | None \<Rightarrow> if wk_mode (cf_wake c) \<noteq> [] then wk_mode (cf_wake c) else ''flat'')"

definition is_business_hours :: "zone \<Rightarrow> wake_config \<Rightarrow> time \<Rightarrow> bool" where
  "is_business_hours z w now =
     (let wd = local_weekday z now; h = local_hour z now
      in wd \<noteq> 6 \<and> wd \<noteq> 0 \<and> h \<ge> wk_business_start_hour w \<and> h < wk_business_end_hour w)"

definition flat_wake_seconds :: "zone \<Rightarrow> wake_config \<Rightarrow> room \<Rightarrow> time \<Rightarrow> u32" where
  "flat_wake_seconds z w r now =
     (let fleet = (if is_business_hours z w now then wk_business_hours_seconds w else wk_off_hours_seconds w)
      in case rm_flat_interval r of
           Some i \<Rightarrow> if i > 0 then seconds_until_next_boundary now i
                     else seconds_until_next_boundary now fleet
         | None \<Rightarrow> seconds_until_next_boundary now fleet)"

definition smart_wake_seconds :: "zone \<Rightarrow> wake_config \<Rightarrow> event option \<Rightarrow> event option \<Rightarrow> time \<Rightarrow> u32" where
  "smart_wake_seconds z w cur nxt now =
     (let business = is_business_hours z w now in
      case next_transition_at cur nxt now of
        None \<Rightarrow> if business then seconds_until_next_boundary now (wk_business_hours_seconds w)
                else seconds_until_business_hours_start z now (wk_business_start_hour w)
      | Some at \<Rightarrow>
          (let d = time_sub at now; d = (if d < 0 then 0 else d)
           in if business \<and> duration_seconds d > wk_business_hours_seconds w
              then wk_business_hours_seconds w else duration_seconds d))"

definition next_wake_duration ::
  "go_env \<Rightarrow> config \<Rightarrow> room \<Rightarrow> event option \<Rightarrow> event option \<Rightarrow> time \<Rightarrow> u32 option" where
  "next_wake_duration e c r cur nxt now =
     (case env_zone e (wk_timezone (cf_wake c)) of
        None \<Rightarrow> None
      | Some z \<Rightarrow> Some (if wake_mode_for c r = ''smart'' then smart_wake_seconds z (cf_wake c) cur nxt now
                       else flat_wake_seconds z (cf_wake c) r now))"

lemmas wake_const_defs = min_wake_seconds_def max_wake_seconds_def grid_offset_seconds_def

section \<open>The grid\<close>

lemma go_div_nonneg: "0 \<le> a \<Longrightarrow> go_div a b = a div b"
  by (simp add: go_div_def)

lemma uint_word_of_int_small: "0 \<le> d \<Longrightarrow> d < 2 ^ 32 \<Longrightarrow> uint (word_of_int d :: u32) = d"
  by (simp add: uint_word_of_int take_bit_int_eq_self)

text \<open>The distance to the boundary before the last-minute rule: between one and \<open>i\<close> seconds.\<close>

lemma boundary_distance:
  fixes u i :: int
  assumes "0 \<le> u - g" "0 < i"
  defines "d \<equiv> ((u - g) div i + 1) * i + g - u"
  shows "1 \<le> d \<and> d \<le> i \<and> (u + d - g) mod i = 0"
proof -
  have "d = i - (u - g) mod i"
    unfolding d_def using minus_mult_div_eq_mod [of "u - g" i] by (simp add: algebra_simps)
  moreover have "u + d - g = ((u - g) div i + 1) * i" by (simp add: d_def)
  moreover have "0 \<le> (u - g) mod i" "(u - g) mod i < i" using assms(2) by simp_all
  ultimately show ?thesis by simp
qed

text \<open>A flat-mode wake lands on the grid of its interval, shifted by five minutes; it is at most
  one interval and one minute away, and never less than a minute when the interval is longer than
  that. The bound on the interval excludes the wrap-around of \<open>uint32(d)\<close>.\<close>

lemma boundary_on_grid:
  assumes "0 < i" "uint i + 60 \<le> 2 ^ 32" "grid_offset_seconds \<le> unix now"
  shows "let d = uint (seconds_until_next_boundary now i) in
    (unix now + d - grid_offset_seconds) mod uint i = 0
    \<and> (if uint i > 60 then 60 \<le> d \<and> d < uint i + 60 else 1 \<le> d \<and> d \<le> uint i)"
proof -
  let ?i = "uint i"
  define d0 where "d0 = ((unix now - grid_offset_seconds) div ?i + 1) * ?i + grid_offset_seconds - unix now"
  have pos: "0 < ?i" and nz: "i \<noteq> 0" using assms(1) by (auto simp: word_less_def)
  from boundary_distance [OF _ pos, of "unix now" grid_offset_seconds] assms(3)
  have d0: "1 \<le> d0" "d0 \<le> ?i" "(unix now + d0 - grid_offset_seconds) mod ?i = 0"
    by (auto simp: d0_def)
  define d where "d = (if d0 < 60 \<and> ?i > 60 then d0 + ?i else d0)"
  have "(unix now + d - grid_offset_seconds) mod ?i = 0"
  proof -
    have "unix now + (d0 + ?i) - grid_offset_seconds = (unix now + d0 - grid_offset_seconds) + ?i" by simp
    then have "(unix now + (d0 + ?i) - grid_offset_seconds) mod ?i = 0" using d0(3) by (simp only: mod_add_self2)
    with d0(3) show ?thesis by (simp add: d_def)
  qed
  moreover have "0 \<le> d" "d < 2 ^ 32" using d0 assms(2) pos by (auto simp: d_def)
  moreover have "seconds_until_next_boundary now i = word_of_int d"
    using nz assms(3) by (simp add: seconds_until_next_boundary_def d_def d0_def Let_def go_div_nonneg
        min_wake_seconds_def)
  moreover have "if ?i > 60 then 60 \<le> d \<and> d < ?i + 60 else 1 \<le> d \<and> d \<le> ?i"
    using d0 by (auto simp: d_def)
  ultimately show ?thesis by (simp add: uint_word_of_int_small)
qed

text \<open>Two devices of one interval that check in within the same grid cell, outside its last minute,
  wake at the same second: a device that missed a wake rejoins the fleet.\<close>

lemma same_cell_same_wake:
  assumes "60 < uint i" "uint i + 60 \<le> 2 ^ 32" "grid_offset_seconds \<le> unix t" "grid_offset_seconds \<le> unix t'"
    and cell: "(unix t - grid_offset_seconds) div uint i = (unix t' - grid_offset_seconds) div uint i"
    and early: "uint (seconds_until_next_boundary t i) \<le> uint i" "uint (seconds_until_next_boundary t' i) \<le> uint i"
  shows "unix t + uint (seconds_until_next_boundary t i) = unix t' + uint (seconds_until_next_boundary t' i)"
proof -
  let ?i = "uint i" and ?g = grid_offset_seconds
  have pos: "0 < ?i" and nz: "i \<noteq> 0" using assms(1) by auto
  have wake: "unix s + uint (seconds_until_next_boundary s i) = ((unix s - ?g) div ?i + 1) * ?i + ?g"
    if s: "?g \<le> unix s" and e: "uint (seconds_until_next_boundary s i) \<le> ?i" for s
  proof -
    define d0 where "d0 = ((unix s - ?g) div ?i + 1) * ?i + ?g - unix s"
    have d0: "1 \<le> d0" "d0 \<le> ?i" using boundary_distance [OF _ pos, of "unix s" ?g] s by (auto simp: d0_def)
    have eq: "seconds_until_next_boundary s i = word_of_int (if d0 < 60 \<and> ?i > 60 then d0 + ?i else d0)"
      using nz s by (simp add: seconds_until_next_boundary_def d0_def Let_def go_div_nonneg min_wake_seconds_def)
    have "uint (seconds_until_next_boundary s i) = (if d0 < 60 \<and> ?i > 60 then d0 + ?i else d0)"
      unfolding eq using d0 assms(2) pos by (intro uint_word_of_int_small) auto
    with e d0 have "uint (seconds_until_next_boundary s i) = d0" by (auto split: if_splits)
    then show ?thesis by (simp add: d0_def)
  qed
  from wake [OF assms(3) early(1)] wake [OF assms(4) early(2)] cell show ?thesis by simp
qed

section \<open>The wake of a room\<close>

lemma seconds_bounds: "0 \<le> d \<Longrightarrow> d - second < (d div second) * second \<and> (d div second) * second \<le> d"
  using minus_mod_eq_div_mult [of d second] pos_mod_bound [of second d] pos_mod_sign [of second d]
  by (auto simp: second_def)



text \<open>A smart-mode device never sleeps past the configured interval during business hours while a
  transition is known.\<close>

lemma business_hours_cap:
  assumes "is_business_hours z wc now" "next_transition_at cur nxt now \<noteq> None"
  shows "smart_wake_seconds z wc cur nxt now \<le> wk_business_hours_seconds wc"
  using assms by (auto simp: smart_wake_seconds_def Let_def split: option.splits)

text \<open>Business hours are never on a weekend.\<close>

lemma business_hours_weekday: "is_business_hours z wc now \<Longrightarrow> local_weekday z now \<in> {1..5}"
  by (auto simp: is_business_hours_def Let_def local_weekday_def)

text \<open>The sleep until the opening hour, in a zone of constant offset: the device wakes at that hour,
  within a day.\<close>

lemma sleep_until_opening:
  fixes k :: int
  assumes "0 \<le> h" "h < 24" "now mod second = 0"
  defines "d \<equiv> uint (seconds_until_business_hours_start (\<lambda>t. k) now h)"
  shows "0 < d \<and> d \<le> 86400 \<and> local_secs (\<lambda>t. k) (now + d * second) mod 86400 = h * 3600"
proof -
  let ?z = "\<lambda>t. k"
  define L where "L = local_secs ?z now"
  define n0 where "n0 = L div 86400 * 86400 + h * 3600"
  obtain u where now: "now = u * second" using assms(3) by (metis mod_0_imp_dvd dvd_def mult.commute)
  have un: "unix (x * second) = x" for x by (simp add: unix_def second_def)
  have L: "L = u + k" by (simp add: L_def local_secs_def now un)
  have tl: "time_of_local ?z w = (w - k) * second" for w by (simp add: time_of_local_def Let_def)
  define m where "m = (if n0 > L then n0 else n0 + 86400)"
  have day: "L div 86400 * 86400 \<le> L" "L < L div 86400 * 86400 + 86400"
    using minus_mod_eq_div_mult [of L 86400] pos_mod_bound [of 86400 L] pos_mod_sign [of 86400 L] by auto
  then have m: "0 < m - L" "m - L \<le> 86400" using assms(1,2) by (auto simp: m_def n0_def)
  have n0: "local_day ?z now * 86400 + h * 3600 = n0" by (simp add: local_day_def L_def n0_def)
  have gt: "(n0 - k) * second > now \<longleftrightarrow> n0 > L" by (auto simp: now L second_def)
  have ls: "local_secs ?z ((n0 - k) * second) = n0" by (simp add: local_secs_def un)
  have nxt: "(let nx = time_of_local ?z (local_day ?z now * 86400 + h * 3600)
      in if \<not> nx > now then time_of_local ?z (local_secs ?z nx + 86400) else nx) = (m - k) * second"
    unfolding n0 tl Let_def gt ls by (simp add: m_def)
  have "(m - k) * second - now = (m - L) * second" by (simp add: now L algebra_simps)
  moreover have "time_sub ((m - k) * second) now = (m - k) * second - now"
    using m calculation by (intro time_sub_exact) (auto simp: min_duration_def max_duration_def second_def)
  moreover have "seconds_until_business_hours_start ?z now h
      = duration_seconds (time_sub ((m - k) * second) now)"
    using nxt by (simp add: seconds_until_business_hours_start_def Let_def)
  moreover have "duration_seconds ((m - L) * second) = word_of_int (m - L)"
    by (simp add: duration_seconds_def second_def)
  ultimately have "seconds_until_business_hours_start ?z now h = word_of_int (m - L)" by simp
  moreover have "uint (word_of_int (m - L) :: u32) = m - L"
    by (rule uint_word_of_int_small) (use m in simp_all)
  ultimately have d: "d = m - L" by (simp only: d_def)
  have "now + d * second = (u + (m - L)) * second" by (simp add: d now algebra_simps)
  then have "local_secs ?z (now + d * second) = m" by (simp add: local_secs_def un L)
  moreover have "m mod 86400 = h * 3600"
  proof -
    have "m = h * 3600 + (if n0 > L then L div 86400 else L div 86400 + 1) * 86400"
      by (simp add: m_def n0_def)
    then have "m mod 86400 = (h * 3600) mod 86400" by (simp only: mod_mult_self1)
    with assms(1,2) show ?thesis by simp
  qed
  ultimately show ?thesis using m d by simp
qed

text \<open>A configuration that passed validation never panics on its zone.\<close>

lemma next_wake_duration_total: "well_formed e c \<Longrightarrow> \<exists>s. next_wake_duration e c r cur nxt now = Some s"
  by (drule well_formed_zone) (auto simp: next_wake_duration_def)

lemma clamp_wake_range:
  "min_wake_seconds \<le> clamp_wake_seconds s \<and> clamp_wake_seconds s \<le> max_wake_seconds"
  by (auto simp: clamp_wake_seconds_def wake_const_defs not_less)

end
