(* ===== verification/Status.thy ===== *)
theory Status
  imports ConfigEdit Telemetry Wake
begin

text \<open>
  \<open>internal/status/status.go\<close>: one row of health per configured display. The theorems say that the
  threshold of staleness never overflows its 64 bits, and what each of the four classes means.
\<close>

record device =
  dv_device_id :: string
  dv_name :: string
  dv_label :: string
  dv_battery_pct :: int
  dv_battery_mv :: int
  dv_last_seen_seconds :: int
  dv_last_render_seconds :: "int option"
  dv_rssi :: int
  dv_firmware :: string
  dv_boot_count :: int
  dv_status :: string

text \<open>The separator of \<open>Title\<close> is a dash between spaces (three bytes of UTF-8).\<close>

definition dash :: string where
  "dash = [CHR 0x20, CHR 0xE2, CHR 0x80, CHR 0x94, CHR 0x20]"

definition title :: "device \<Rightarrow> string" where
  "title d = (if dv_label d = [] then dv_name d else dv_name d @ dash @ dv_label d)"

definition last_render_display :: "device \<Rightarrow> string" where
  "last_render_display d =
     (case dv_last_render_seconds d of None \<Rightarrow> ''never'' | Some s \<Rightarrow> show_int s @ ''s ago'')"

text \<open>\<open>2 * time.Duration(snap.ExpectedWake) * time.Second\<close>, in 64 bit two's complement.\<close>

definition wrap64 :: "int \<Rightarrow> int" where
  "wrap64 i = (i + 2 ^ 63) mod 2 ^ 64 - 2 ^ 63"

definition stale_threshold :: "config \<Rightarrow> snapshot \<Rightarrow> duration" where
  "stale_threshold c s =
     (if sn_expected_wake s > 0 then wrap64 (wrap64 (2 * uint (sn_expected_wake s)) * second)
      else al_stale_after (cf_alerts c))"

definition build_device :: "config \<Rightarrow> fleet \<Rightarrow> time \<Rightarrow> room \<Rightarrow> device" where
  "build_device c m now r =
     (let d = \<lparr>dv_device_id = rm_device_id r, dv_name = rm_name r, dv_label = rm_label r,
               dv_battery_pct = 0, dv_battery_mv = 0, dv_last_seen_seconds = 0, dv_last_render_seconds = None,
               dv_rssi = 0, dv_firmware = [], dv_boot_count = 0, dv_status = []\<rparr>
      in case snapshot_of m (rm_device_id r) of
           None \<Rightarrow> d\<lparr>dv_status := ''unreported''\<rparr>
         | Some s \<Rightarrow>
             d\<lparr>dv_battery_pct := rp_battery_pct (sn_report s), dv_battery_mv := rp_battery_mv (sn_report s),
               dv_rssi := rp_rssi (sn_report s), dv_firmware := rp_fw (sn_report s),
               dv_boot_count := rp_boot (sn_report s),
               dv_last_seen_seconds := trunc_secs (time_sub now (sn_last_seen s)),
               dv_last_render_seconds := (if is_zero_time (sn_last_rendered s) then None
                 else Some (trunc_secs (time_sub now (sn_last_rendered s)))),
               dv_status :=
                 (if time_sub now (sn_last_seen s) > stale_threshold c s then ''stale''
                  else if rp_battery_pct (sn_report s) > 0
                          \<and> rp_battery_pct (sn_report s) \<le> al_low_battery_pct (cf_alerts c) then ''low_battery''
                  else ''ok'')\<rparr>)"

definition build :: "config \<Rightarrow> fleet \<Rightarrow> time \<Rightarrow> device list" where
  "build c m now = map (build_device c m now) (cf_rooms c)"

lemma wrap64_id: "- (2 ^ 63) \<le> i \<Longrightarrow> i < 2 ^ 63 \<Longrightarrow> wrap64 i = i"
  by (simp add: wrap64_def)

lemma stale_threshold_exact:
  assumes "sn_expected_wake s > 0"
  shows "stale_threshold c s = 2 * uint (sn_expected_wake s) * second"
    and "0 < stale_threshold c s" "stale_threshold c s < max_duration"
proof -
  have u: "0 < uint (sn_expected_wake s)" "uint (sn_expected_wake s) < 2 ^ 32"
    using assms unsigned_less [of "sn_expected_wake s", where ?'a = int] by (auto simp: word_less_def)
  then show eq: "stale_threshold c s = 2 * uint (sn_expected_wake s) * second"
    using assms by (simp add: stale_threshold_def wrap64_id second_def)
  show "0 < stale_threshold c s" "stale_threshold c s < max_duration"
    using u by (simp_all add: eq second_def max_duration_def)
qed

text \<open>A device that was told how long to sleep is stale exactly when it has been silent for more than
  two such sleeps, in exact arithmetic: neither the multiplication nor the saturation of the
  elapsed time can change the answer.\<close>

lemma stale_after_two_sleeps:
  assumes "snapshot_of m (rm_device_id r) = Some s" "sn_expected_wake s > 0"
  shows "dv_status (build_device c m now r) = ''stale''
    \<longleftrightarrow> now - sn_last_seen s > 2 * uint (sn_expected_wake s) * second"
proof -
  note t = stale_threshold_exact [OF assms(2), of c]
  have "time_sub now (sn_last_seen s) > stale_threshold c s \<longleftrightarrow> now - sn_last_seen s > stale_threshold c s"
    using t by (intro time_sub_gt) auto
  then show ?thesis by (simp add: build_device_def assms(1) Let_def t(1))
qed

text \<open>The classes.\<close>

lemma build_device_classes:
  "dv_status (build_device c m now r) \<in> {''unreported'', ''stale'', ''low_battery'', ''ok''}"
  "dv_status (build_device c m now r) = ''unreported'' \<longleftrightarrow> snapshot_of m (rm_device_id r) = None"
  by (auto simp: build_device_def Let_def split: option.splits)

text \<open>Deadline of a false alarm: after a wake hint of zero the broker expects the device back in the
  minimum interval.\<close>

lemma clamped_zero: "clamp_wake_seconds 0 = 60"
  by (simp add: clamp_wake_seconds_def wake_const_defs)

end
