(* ===== verification/Notify.thy ===== *)
theory Notify
  imports Status
begin

text \<open>
  \<open>internal/notify/notify.go\<close> and \<open>charge.go\<close>: when an alert is sent. A device has two latches, one
  for its battery and its charge and one for being offline; an evaluation returns the message it
  dispatches, if any, and the new latch. The sending itself is asynchronous and changes none of
  this state. Message texts are byte strings (the emoji are their UTF-8 bytes). The theorems bound
  how often a message can be repeated, order the offline and recovered messages, and allow one
  charged message per charge.
\<close>

section \<open>Messages\<close>

record message =
  mg_title :: string
  mg_text :: string
  mg_device_id :: string
  mg_room :: string
  mg_location :: string

definition message_body :: "message \<Rightarrow> string" where
  "message_body m = (if mg_text m = [] then mg_title m else mg_title m @ [CHR 0x0A] @ mg_text m)"

definition normalize_style :: "string \<Rightarrow> string" where
  "normalize_style s = (if s = ''minimal'' \<or> s = ''detailed'' then s else ''plain'')"

definition battery_sign :: string where "battery_sign = [CHR 0xF0, CHR 0x9F, CHR 0x94, CHR 0x8B]"
definition phone_off_sign :: string where "phone_off_sign = [CHR 0xF0, CHR 0x9F, CHR 0x93, CHR 0xB5]"
definition check_sign :: string where "check_sign = [CHR 0xE2, CHR 0x9C, CHR 0x85]"
definition plug_sign :: string where "plug_sign = [CHR 0xF0, CHR 0x9F, CHR 0x94, CHR 0x8C]"

text \<open>\<open>%q\<close> of a printable string.\<close>

definition go_quote :: "string \<Rightarrow> string" where
  "go_quote s = CHR 0x22 #
     concat (map (\<lambda>c. if c = CHR 0x22 \<or> c = CHR 0x5C then [CHR 0x5C, c] else [c]) s) @ [CHR 0x22]"

text \<open>\<open>Duration.Round\<close>: to the nearest multiple, halves away from zero.\<close>

definition round_dur :: "duration \<Rightarrow> duration \<Rightarrow> duration" where
  "round_dur d m =
     (if d < 0 then (let r = (- d) mod m in if r + r < m then d + r else d - m + r)
      else (let r = d mod m in if r + r < m then d - r else d + m - r))"

text \<open>\<open>Duration.String\<close> of a multiple of a minute.\<close>

definition show_minutes :: "duration \<Rightarrow> string" where
  "show_minutes d =
     (let sign = (if d < 0 then ''-'' else []); m = (if d < 0 then - d else d) div minute
      in if m = 0 then ''0s''
         else if m < 60 then sign @ show_int m @ ''m0s''
         else sign @ show_int (m div 60) @ ''h'' @ show_int (m mod 60) @ ''m0s'')"

definition plain_duration :: "duration \<Rightarrow> string" where
  "plain_duration d =
     (if d < hour then
        (let n = round_dur d minute div minute; n = (if n < 1 then 1 else n)
         in if n = 1 then ''1 minute'' else show_int n @ '' minutes'')
      else if d < 48 * hour then
        (let n = round_dur d hour div hour
         in if n = 1 then ''about 1 hour'' else ''about '' @ show_int n @ '' hours'')
      else ''about '' @ show_int (round_dur d (24 * hour) div (24 * hour)) @ '' days'')"

definition battery_text :: "string \<Rightarrow> string \<Rightarrow> string \<Rightarrow> int \<Rightarrow> int \<Rightarrow> string \<times> string" where
  "battery_text style name d pct mv =
     (let title = battery_sign @ '' Low battery: '' @ name @ '' ('' @ show_int pct @ ''%)''
      in if normalize_style style = ''minimal''
         then (battery_sign @ '' '' @ name @ '': battery '' @ show_int pct @ ''%'', [])
         else if normalize_style style = ''detailed'' then
           (title, ''Display '' @ go_quote name @ '' (device '' @ d @ '') is at '' @ show_int pct @ ''% ('' @ show_int mv
              @ '' mV). Please recharge/replace soon.'' @ [CHR 0x0A] @ ''Note: LiPo %'' @ [CHR 0xE2, CHR 0x86, CHR 0x92]
              @ ''V is approximate near this range; '' @ show_int mv @ '' mV is the raw reading.'')
         else (title, ''Please recharge or replace it soon.''))"

definition offline_text :: "string \<Rightarrow> string \<Rightarrow> string \<Rightarrow> duration \<Rightarrow> string \<times> string" where
  "offline_text style name d silent_for =
     (if normalize_style style = ''minimal'' then (phone_off_sign @ '' '' @ name @ '': offline'', [])
      else if normalize_style style = ''detailed'' then
        (phone_off_sign @ '' Display offline: '' @ name,
         ''Display '' @ go_quote name @ '' (device '' @ d @ '') hasn'' @ [CHR 0x27] @ ''t checked in for '' @ show_minutes (round_dur silent_for minute)
           @ dash @ ''two of its scheduled check-ins. Check its battery and Wi-Fi.'')
      else (phone_off_sign @ '' Display offline: '' @ name,
         ''It hasn'' @ [CHR 0x27] @ ''t checked in for '' @ plain_duration silent_for @ ''. Check its battery and Wi-Fi.''))"

definition recovered_text :: "string \<Rightarrow> string \<Rightarrow> string \<Rightarrow> string \<times> string" where
  "recovered_text style name d =
     (if normalize_style style = ''minimal'' then (check_sign @ '' '' @ name @ '': back online'', [])
      else if normalize_style style = ''detailed'' then
        (check_sign @ '' Display back online: '' @ name,
         ''Display '' @ go_quote name @ '' (device '' @ d @ '') is checking in again.'')
      else (check_sign @ '' Display back online: '' @ name, []))"

definition charge_done_pct :: int where "charge_done_pct = 94"

definition charged_text :: "string \<Rightarrow> string \<Rightarrow> string \<Rightarrow> int \<Rightarrow> string \<times> string" where
  "charged_text style name d mv =
     (if normalize_style style = ''minimal'' then (plug_sign @ '' '' @ name @ '': charged'', [])
      else if normalize_style style = ''detailed'' then
        (plug_sign @ '' Charged: '' @ name,
         ''Display '' @ go_quote name @ '' (device '' @ d @ '') has charged to '' @ show_int mv @ '' mV ('' @ show_int charge_done_pct
           @ ''% on the dashboard while charging). You can unplug it.'')
      else (plug_sign @ '' Charged: '' @ name, ''It has finished charging. You can unplug it now.''))"

section \<open>The latches\<close>

record latch =
  lt_alerting :: bool
  lt_last_notified :: time
  lt_last_mv :: int
  lt_last_mv_at :: time
  lt_charging :: bool
  lt_charged_sent :: bool

definition new_latch :: latch where
  "new_latch = \<lparr>lt_alerting = False, lt_last_notified = zero_time, lt_last_mv = 0,
     lt_last_mv_at = zero_time, lt_charging = False, lt_charged_sent = False\<rparr>"

record settings =
  st_low_pct :: int
  st_clear_pct :: int
  st_renotify :: duration
  st_style :: string

definition current_settings :: "settings \<Rightarrow> settings option \<Rightarrow> settings" where
  "current_settings built live =
     (case live of
        None \<Rightarrow> built\<lparr>st_style := []\<rparr>
      | Some got \<Rightarrow> got\<lparr>st_low_pct := or_default 0 (st_low_pct built) (st_low_pct got),
                      st_clear_pct := or_default 0 (st_clear_pct built) (st_clear_pct got),
                      st_renotify := or_default 0 (st_renotify built) (st_renotify got)\<rparr>)"

definition battery_latch :: "settings \<Rightarrow> latch \<Rightarrow> int \<Rightarrow> time \<Rightarrow> bool \<times> latch" where
  "battery_latch cfg st pct now =
     (if pct < 0 \<or> pct > 100 then (False, st)
      else if pct \<le> st_low_pct cfg then
        (if \<not> lt_alerting st \<or> time_sub now (lt_last_notified st) \<ge> st_renotify cfg
         then (True, st\<lparr>lt_alerting := True, lt_last_notified := now\<rparr>)
         else (False, st))
      else if pct \<ge> st_clear_pct cfg then (False, st\<lparr>lt_alerting := False\<rparr>)
      else (False, st))"

datatype stale_event = StaleNone | StaleOffline | StaleRecovered

definition stale_latch :: "settings \<Rightarrow> latch \<Rightarrow> bool \<Rightarrow> time \<Rightarrow> stale_event \<times> latch" where
  "stale_latch cfg st stale now =
     (if stale \<and> (\<not> lt_alerting st \<or> time_sub now (lt_last_notified st) \<ge> st_renotify cfg)
      then (StaleOffline, st\<lparr>lt_alerting := True, lt_last_notified := now\<rparr>)
      else if \<not> stale \<and> lt_alerting st then (StaleRecovered, st\<lparr>lt_alerting := False\<rparr>)
      else (StaleNone, st))"

definition charge_rise_mv :: int where "charge_rise_mv = 15"
definition charge_unplug_mv :: int where "charge_unplug_mv = 40"
definition charge_done_mv :: int where "charge_done_mv = 3300 + charge_done_pct * (4150 - 3300) div 100"
definition charge_max_gap :: duration where "charge_max_gap = 45 * minute"

lemmas charge_defs = charge_rise_mv_def charge_unplug_mv_def charge_done_mv_def charge_max_gap_def
  charge_done_pct_def

definition charge_latch :: "latch \<Rightarrow> int \<Rightarrow> time \<Rightarrow> bool \<times> latch" where
  "charge_latch st mv now =
     (if mv \<le> 0 then (False, st)
      else let prev = lt_last_mv st; prev_at = lt_last_mv_at st;
               st = st\<lparr>lt_last_mv := mv, lt_last_mv_at := now\<rparr>
           in if prev = 0 \<or> time_sub now prev_at > charge_max_gap
              then (False, st\<lparr>lt_charging := False, lt_charged_sent := False\<rparr>)
              else let delta = mv - prev;
                       st = (if delta \<ge> charge_rise_mv
                             then (if \<not> lt_charging st then st\<lparr>lt_charged_sent := False\<rparr> else st)\<lparr>lt_charging := True\<rparr>
                             else if delta \<le> - charge_unplug_mv
                             then st\<lparr>lt_charging := False, lt_charged_sent := False\<rparr> else st);
                       fire = (lt_charging st \<and> \<not> lt_charged_sent st \<and> mv \<ge> charge_done_mv)
                   in (fire, if fire then st\<lparr>lt_charged_sent := True\<rparr> else st))"

section \<open>The manager\<close>

record alert_manager =
  am_built :: settings
  am_state :: "string \<rightharpoonup> latch"
  am_stale :: "string \<rightharpoonup> latch"

definition latch_of :: "(string \<rightharpoonup> latch) \<Rightarrow> string \<Rightarrow> latch" where
  "latch_of m d = (case m d of Some l \<Rightarrow> l | None \<Rightarrow> new_latch)"

text \<open>\<open>dispatch\<close> fills in the location; \<open>locate\<close> is the server's lookup in the live configuration.\<close>

definition dispatched :: "(string \<Rightarrow> string) option \<Rightarrow> message \<Rightarrow> message" where
  "dispatched locate m =
     (case locate of Some f \<Rightarrow> if mg_location m = [] then m\<lparr>mg_location := f (mg_device_id m)\<rparr> else m
      | None \<Rightarrow> m)"

definition alert_message :: "(string \<Rightarrow> string) option \<Rightarrow> string \<Rightarrow> string \<Rightarrow> string \<times> string \<Rightarrow> message" where
  "alert_message locate d room tt =
     dispatched locate \<lparr>mg_title = fst tt, mg_text = snd tt, mg_device_id = d, mg_room = room, mg_location = []\<rparr>"

definition display_name :: "string \<Rightarrow> string \<Rightarrow> string" where
  "display_name d room = (if room = [] then d else room)"

definition evaluate_battery ::
  "(string \<Rightarrow> string) option \<Rightarrow> settings option \<Rightarrow> alert_manager \<Rightarrow> string \<Rightarrow> string \<Rightarrow> int \<Rightarrow> int \<Rightarrow> time
     \<Rightarrow> message option \<times> alert_manager" where
  "evaluate_battery locate live m d room pct mv now =
     (if pct < 0 \<or> pct > 100 then (None, m)
      else let cfg = current_settings (am_built m) live;
               (fire, st) = battery_latch cfg (latch_of (am_state m) d) pct now;
               m' = m\<lparr>am_state := (am_state m)(d \<mapsto> st)\<rparr>
           in if fire
              then (Some (alert_message locate d room
                      (battery_text (st_style cfg) (display_name d room) d pct mv)), m')
              else (None, m'))"

definition evaluate_stale ::
  "(string \<Rightarrow> string) option \<Rightarrow> settings option \<Rightarrow> alert_manager \<Rightarrow> string \<Rightarrow> string \<Rightarrow> bool \<Rightarrow> duration \<Rightarrow> time
     \<Rightarrow> stale_event \<times> message option \<times> alert_manager" where
  "evaluate_stale locate live m d room stale silent_for now =
     (let cfg = current_settings (am_built m) live;
          (ev, st) = stale_latch cfg (latch_of (am_stale m) d) stale now;
          m' = m\<lparr>am_stale := (am_stale m)(d \<mapsto> st)\<rparr>;
          name = display_name d room
      in case ev of
           StaleOffline \<Rightarrow> (ev, Some (alert_message locate d room (offline_text (st_style cfg) name d silent_for)), m')
         | StaleRecovered \<Rightarrow> (ev, Some (alert_message locate d room (recovered_text (st_style cfg) name d)), m')
         | StaleNone \<Rightarrow> (ev, None, m'))"

definition evaluate_charging ::
  "(string \<Rightarrow> string) option \<Rightarrow> settings option \<Rightarrow> alert_manager \<Rightarrow> string \<Rightarrow> string \<Rightarrow> int \<Rightarrow> time
     \<Rightarrow> message option \<times> alert_manager" where
  "evaluate_charging locate live m d room mv now =
     (if mv \<le> 0 then (None, m)
      else let (fire, st) = charge_latch (latch_of (am_state m) d) mv now;
               cfg = current_settings (am_built m) live;
               m' = m\<lparr>am_state := (am_state m)(d \<mapsto> st)\<rparr>
           in if fire
              then (Some (alert_message locate d room
                      (charged_text (st_style cfg) (display_name d room) d mv)), m')
              else (None, m'))"

text \<open>\<open>Multi\<close>: every channel is tried, failures are joined; \<open>None\<close> is no error.\<close>

definition multi_send :: "(string \<times> (message \<Rightarrow> string option)) list \<Rightarrow> message \<Rightarrow> (string \<times> string) list" where
  "multi_send channels m =
     concat (map (\<lambda>(name, send). case send m of Some err \<Rightarrow> [(name, err)] | None \<Rightarrow> []) channels)"

definition slack_text :: "message \<Rightarrow> string" where
  "slack_text m = ''*'' @ mg_title m @ ''*'' @ (if mg_text m \<noteq> [] then [CHR 0x0A] @ mg_text m else [])"

section \<open>Low battery\<close>

fun battery_run :: "settings \<Rightarrow> latch \<Rightarrow> (int \<times> time) list \<Rightarrow> bool list" where
  "battery_run cfg st [] = []"
| "battery_run cfg st ((pct, now) # rs) =
     (let (fire, st') = battery_latch cfg st pct now in fire # battery_run cfg st' rs)"

lemma battery_latch_fired:
  "fst (battery_latch cfg st pct now) \<longleftrightarrow> 0 \<le> pct \<and> pct \<le> 100 \<and> pct \<le> st_low_pct cfg
     \<and> (lt_alerting st \<longrightarrow> time_sub now (lt_last_notified st) \<ge> st_renotify cfg)"
  by (auto simp: battery_latch_def)

lemma battery_latch_after:
  "fst (battery_latch cfg st pct now) \<Longrightarrow>
     lt_alerting (snd (battery_latch cfg st pct now)) \<and> lt_last_notified (snd (battery_latch cfg st pct now)) = now"
  by (auto simp: battery_latch_def split: if_splits)

lemma battery_latch_quiet:
  "\<not> fst (battery_latch cfg st pct now) \<Longrightarrow> \<not> (pct \<le> 100 \<and> pct \<ge> st_clear_pct cfg) \<Longrightarrow> snd (battery_latch cfg st pct now) = st"
  by (auto simp: battery_latch_def split: if_splits)

definition battery_state :: "settings \<Rightarrow> latch \<Rightarrow> (int \<times> time) list \<Rightarrow> nat \<Rightarrow> latch" where
  "battery_state cfg st rs k = foldl (\<lambda>st (pct, now). snd (battery_latch cfg st pct now)) st (take k rs)"

lemma battery_state_Suc:
  "k < length rs \<Longrightarrow> battery_state cfg st rs (Suc k) =
     snd (battery_latch cfg (battery_state cfg st rs k) (fst (rs ! k)) (snd (rs ! k)))"
  by (simp add: battery_state_def take_Suc_conv_app_nth split_def)

lemma battery_run_nth:
  "k < length rs \<Longrightarrow> battery_run cfg st rs ! k \<longleftrightarrow>
     fst (battery_latch cfg (battery_state cfg st rs k) (fst (rs ! k)) (snd (rs ! k)))"
proof (induction rs arbitrary: st k)
  case (Cons r rs)
  obtain pct now where "r = (pct, now)" by (cases r)
  with Cons show ?case by (cases k) (auto simp: battery_state_def split_def Let_def)
qed simp

text \<open>From a message until the display is seen charged, the latch stays set and remembers a message that is
  no older.\<close>

lemma battery_latch_stays_set:
  assumes "sorted (map snd rs)" "battery_run cfg st rs ! i" "i < k" "k \<le> length rs"
    and "\<forall>m. i < m \<and> m < k \<longrightarrow> fst (rs ! m) < st_clear_pct cfg \<or> fst (rs ! m) > 100"
  shows "lt_alerting (battery_state cfg st rs k) \<and> snd (rs ! i) \<le> lt_last_notified (battery_state cfg st rs k)"
  using assms(3-5)
proof (induction k)
  case (Suc k)
  let ?s = "battery_state cfg st rs k"
  have at: "snd (rs ! i) \<le> snd (rs ! k)"
    using Suc.prems(1,2) sorted_nth_mono [OF assms(1), of i k] by simp
  show ?case
  proof (cases "fst (battery_latch cfg ?s (fst (rs ! k)) (snd (rs ! k)))")
    case True
    from battery_latch_after [OF this] at Suc.prems(2) show ?thesis by (simp add: battery_state_Suc)
  next
    case False
    then have "i < k" using Suc.prems(1,2) assms(2) battery_run_nth [of k rs cfg st] by (cases "k = i") auto
    with Suc.prems(3) battery_latch_quiet [OF False] have "battery_state cfg st rs (Suc k) = ?s"
      using Suc.prems(2) by (force simp: battery_state_Suc)
    with Suc.IH \<open>i < k\<close> Suc.prems(2,3) show ?thesis by simp
  qed
qed simp

lemma length_battery_run [simp]: "length (battery_run cfg st rs) = length rs"
  by (induction rs arbitrary: st) (auto simp: split_def Let_def)

text \<open>C14. Two low-battery messages about one display are at least the configured repeat interval apart,
  unless the battery was seen charged to the clearing level in between.\<close>

theorem battery_alerts_spaced:
  assumes "0 \<le> st_renotify cfg" "st_renotify cfg \<le> max_duration" "sorted (map snd rs)"
    and "i < j" "j < length rs" "battery_run cfg st rs ! i" "battery_run cfg st rs ! j"
    and "\<forall>k. i < k \<and> k < j \<longrightarrow> fst (rs ! k) < st_clear_pct cfg \<or> fst (rs ! k) > 100"
  shows "snd (rs ! j) - snd (rs ! i) \<ge> st_renotify cfg"
proof -
  let ?s = "battery_state cfg st rs j"
  have set: "lt_alerting ?s" "snd (rs ! i) \<le> lt_last_notified ?s"
    using battery_latch_stays_set [OF assms(3,6,4) _ assms(8)] assms(5) by simp_all
  with assms(5,7) have "time_sub (snd (rs ! j)) (lt_last_notified ?s) \<ge> st_renotify cfg"
    by (simp add: battery_run_nth battery_latch_fired)
  with set(2) show ?thesis using time_sub_ge [OF assms(1,2)] by force
qed

theorem battery_alerts_spaced_witness:
  "let cfg = \<lparr>st_low_pct = 20, st_clear_pct = 30, st_renotify = 24 * hour, st_style = []\<rparr>;
       rs = [(15, 0), (14, hour), (12, 25 * hour)]
   in battery_run cfg new_latch rs = [True, False, True]
      \<and> snd (rs ! 2) - snd (rs ! 0) \<ge> st_renotify cfg"
proof -
  let ?cfg = "\<lparr>st_low_pct = 20, st_clear_pct = 30, st_renotify = 24 * hour, st_style = []\<rparr>"
  let ?rs = "[(15, 0), (14, hour), (12, 25 * hour)] :: (int \<times> time) list"
  have run: "battery_run ?cfg new_latch ?rs = [True, False, True]"
    by (simp add: battery_latch_def new_latch_def time_sub_def max_duration_def min_duration_def dur_defs)
  have f: "battery_run ?cfg new_latch ?rs ! 0" "battery_run ?cfg new_latch ?rs ! 2"
    unfolding run by simp_all
  have "snd (?rs ! 2) - snd (?rs ! 0) \<ge> st_renotify ?cfg"
    by (rule battery_alerts_spaced [OF _ _ _ _ _ f])
      (auto simp: dur_defs max_duration_def less_Suc_eq numeral_2_eq_2)
  with run show ?thesis by simp
qed

section \<open>Offline and recovered\<close>

definition stale_state :: "settings \<Rightarrow> latch \<Rightarrow> (bool \<times> time) list \<Rightarrow> nat \<Rightarrow> latch" where
  "stale_state cfg st xs k = foldl (\<lambda>st (b, now). snd (stale_latch cfg st b now)) st (take k xs)"

definition stale_event_at :: "settings \<Rightarrow> latch \<Rightarrow> (bool \<times> time) list \<Rightarrow> nat \<Rightarrow> stale_event" where
  "stale_event_at cfg st xs k = (case xs ! k of (b, now) \<Rightarrow> fst (stale_latch cfg (stale_state cfg st xs k) b now))"

lemma stale_latch_tracks: "lt_alerting (snd (stale_latch cfg st b now)) = b"
  by (auto simp: stale_latch_def)

lemma stale_state_alerting:
  "k \<le> length xs \<Longrightarrow>
     lt_alerting (stale_state cfg st xs k) = (if k = 0 then lt_alerting st else fst (xs ! (k - 1)))"
proof (cases k)
  case (Suc i)
  assume "k \<le> length xs"
  then show ?thesis
    by (simp add: Suc stale_state_def take_Suc_conv_app_nth split_def stale_latch_tracks)
qed (simp add: stale_state_def)

text \<open>A display is announced offline at once when it goes stale, recovered exactly when it reports
  again after having been stale, and while it stays stale a further message needs the repeat
  interval to have passed since the last one.\<close>

lemma stale_events_exact:
  assumes "k < length xs" "\<not> lt_alerting st"
  shows "(stale_event_at cfg st xs k = StaleRecovered \<longleftrightarrow> 0 < k \<and> fst (xs ! (k - 1)) \<and> \<not> fst (xs ! k))
    \<and> (fst (xs ! k) \<and> (k = 0 \<or> \<not> fst (xs ! (k - 1))) \<longrightarrow> stale_event_at cfg st xs k = StaleOffline)
    \<and> (stale_event_at cfg st xs k = StaleOffline \<and> 0 < k \<and> fst (xs ! (k - 1)) \<longrightarrow>
         time_sub (snd (xs ! k)) (lt_last_notified (stale_state cfg st xs k)) \<ge> st_renotify cfg)"
  using stale_state_alerting [of k xs cfg st] assms
  by (auto simp: stale_event_at_def stale_latch_def split_def split: if_splits)

section \<open>Charged\<close>

definition charge_state :: "latch \<Rightarrow> (int \<times> time) list \<Rightarrow> nat \<Rightarrow> latch" where
  "charge_state st xs k = foldl (\<lambda>st (mv, now). snd (charge_latch st mv now)) st (take k xs)"

definition charge_fired :: "latch \<Rightarrow> (int \<times> time) list \<Rightarrow> nat \<Rightarrow> bool" where
  "charge_fired st xs k = (case xs ! k of (mv, now) \<Rightarrow> fst (charge_latch (charge_state st xs k) mv now))"

text \<open>The end of a charge: unplugged, or silent for too long.\<close>

definition charge_break :: "latch \<Rightarrow> (int \<times> time) list \<Rightarrow> nat \<Rightarrow> bool" where
  "charge_break st xs k =
     (case xs ! k of (mv, now) \<Rightarrow> mv > 0 \<and>
       (time_sub now (lt_last_mv_at (charge_state st xs k)) > charge_max_gap
        \<or> mv - lt_last_mv (charge_state st xs k) \<le> - charge_unplug_mv))"

definition charged :: "latch \<Rightarrow> bool" where
  "charged st \<longleftrightarrow> lt_charging st \<and> lt_charged_sent st \<and> lt_last_mv st > 0"

lemma charge_state_Suc:
  "k < length xs \<Longrightarrow> charge_state st xs (Suc k) =
     snd (charge_latch (charge_state st xs k) (fst (xs ! k)) (snd (xs ! k)))"
  by (simp add: charge_state_def take_Suc_conv_app_nth split_def)

lemma charge_fired_charged:
  "fst (charge_latch st mv now) \<Longrightarrow> charged (snd (charge_latch st mv now))"
  by (auto simp: charge_latch_def charged_def Let_def split: if_splits)

lemma charged_stays:
  assumes "charged st"
    and "\<not> (mv > 0 \<and> (time_sub now (lt_last_mv_at st) > charge_max_gap \<or> mv - lt_last_mv st \<le> - charge_unplug_mv))"
  shows "charged (snd (charge_latch st mv now))"
  using assms by (auto simp: charge_latch_def charged_def Let_def)

lemma charged_silent: "charged st \<Longrightarrow> \<not> fst (charge_latch st mv now)"
  by (auto simp: charge_latch_def charged_def Let_def)

text \<open>C15. One charged message per charge: between two of them the display was unplugged (its voltage
  dropped) or fell silent for longer than the gap.\<close>

theorem one_message_per_charge:
  assumes "i < j" "j < length xs" "charge_fired st xs i" "charge_fired st xs j"
  shows "\<exists>k. i < k \<and> k < j \<and> charge_break st xs k"
proof (rule ccontr)
  assume none: "\<nexists>k. i < k \<and> k < j \<and> charge_break st xs k"
  have "charged (charge_state st xs m)" if "i < m" "m \<le> j" for m
    using that
  proof (induction m)
    case (Suc m)
    show ?case
    proof (cases "m = i")
      case True
      with assms show ?thesis
        by (auto simp: charge_state_Suc charge_fired_def split_def intro: charge_fired_charged)
    next
      case False
      with Suc have "charged (charge_state st xs m)" "\<not> charge_break st xs m" using none by auto
      with Suc.prems assms(2) show ?thesis
        by (simp add: charge_state_Suc charge_break_def split_def charged_stays)
    qed
  qed simp
  with assms show False by (auto simp: charge_fired_def split_def dest: charged_silent)
qed

theorem one_message_per_charge_witness:
  "let xs = [(4080, 0), (4100, minute), (4000, 2 * minute), (4050, 3 * minute), (4110, 4 * minute)]
   in charge_fired new_latch xs 1 \<and> charge_fired new_latch xs 4 \<and> (\<exists>k. 1 < k \<and> k < 4 \<and> charge_break new_latch xs k)"
proof -
  let ?xs = "[(4080, 0), (4100, minute), (4000, 2 * minute), (4050, 3 * minute), (4110, 4 * minute)]
    :: (int \<times> time) list"
  have f: "charge_fired new_latch ?xs 1" "charge_fired new_latch ?xs 4"
    by (simp_all add: charge_fired_def charge_state_def charge_latch_def new_latch_def charge_defs
        time_sub_def max_duration_def min_duration_def dur_defs Let_def zero_time_def)
  from one_message_per_charge [of 1 4 ?xs new_latch] f show ?thesis by simp
qed

section \<open>The alerts and the status page\<close>

text \<open>The status page and the alerts disagree about a reading of zero percent: the alert fires, and
  the page shows the display as healthy.\<close>

lemma zero_percent_disagreement:
  assumes "snapshot_of m (rm_device_id r) = Some s" "rp_battery_pct (sn_report s) = 0"
    and "\<not> time_sub now (sn_last_seen s) > stale_threshold c s"
    and "0 \<le> st_low_pct cfg" "\<not> lt_alerting st"
  shows "dv_status (build_device c m now r) = ''ok''
    \<and> fst (battery_latch cfg st (rp_battery_pct (sn_report s)) now)"
  using assms by (simp add: build_device_def battery_latch_def Let_def)

end
