(* ===== verification/Lark.thy ===== *)
theory Lark
  imports Notify
begin

text \<open>
  The Lark app channel of \<open>internal/notify/larkapp.go\<close>. Lark's API, its JSON answers and the clock are
  parameters (a \<open>lark_net\<close> over an arbitrary state of the outside world); the client's own state is
  the cached tenant token. The posts that carry a message are recorded in a ghost field, so that
  what was delivered can be stated. The locale \<open>target_sender\<close> is what the routing relies on: a send
  to a target delivers at most one message there, and reports whether it did. The lemmas show that
  the client keeps that contract, and that the routing delivers each alert to the targets the
  location's mode chose, once each, with the fallback group only when nothing else was delivered.
\<close>

section \<open>Requests\<close>

datatype transport_error = UrlError string string string | OtherError string

definition redact_url :: "transport_error \<Rightarrow> string" where
  "redact_url e = (case e of UrlError op_name u cause \<Rightarrow> op_name @ '' request failed: '' @ cause
                   | OtherError m \<Rightarrow> m)"

text \<open>The other channels of \<open>notify.go\<close>: the Slack webhook, whose client answers an error or a status (\<open>body_of\<close>
  encodes the text), the log, and what several channels are called together.\<close>

definition slack_send ::
  "(string \<Rightarrow> string) \<Rightarrow> (string \<Rightarrow> string \<Rightarrow> transport_error + int) \<Rightarrow> string \<Rightarrow> message \<Rightarrow> string option" where
  "slack_send body_of http url m =
     (case http url (body_of (slack_text m)) of
        Inl err \<Rightarrow> Some (redact_url err)
      | Inr status \<Rightarrow> if status \<ge> 300 then Some (''webhook status '' @ show_int status) else None)"

definition log_send :: "message \<Rightarrow> string option" where "log_send m = None"

fun join_with :: "string \<Rightarrow> string list \<Rightarrow> string" where
  "join_with sep [] = []"
| "join_with sep [x] = x"
| "join_with sep (x # y # xs) = x @ sep @ join_with sep (y # xs)"

definition multi_name :: "string list \<Rightarrow> string" where "multi_name names = join_with ''+'' names"

lemma slack_error_hides_url:
  "http url (body_of (slack_text m)) = Inl (UrlError op_name u cause) \<Longrightarrow>
     slack_send body_of http url m = Some (op_name @ '' request failed: '' @ cause)"
  by (simp add: slack_send_def redact_url_def)

lemma redact_url_hides: "redact_url (UrlError op_name u cause) = redact_url (UrlError op_name u' cause)"
  by (simp add: redact_url_def)

record auth_reply =
  ar_code :: int
  ar_msg :: string
  ar_token :: string
  ar_expire :: int

text \<open>\<open>ln_do\<close> is one request: path, token (the empty one sends no header) and body, answered with a
  transport error or with a status and a body.\<close>

record 's lark_net =
  ln_now :: "'s \<Rightarrow> time \<times> 's"
  ln_do :: "'s \<Rightarrow> string \<Rightarrow> string \<Rightarrow> string \<Rightarrow> (transport_error + int \<times> string) \<times> 's"
  ln_json :: "(string \<times> string) list \<Rightarrow> string"
  ln_auth_of :: "string \<Rightarrow> auth_reply option"
  ln_verdict_of :: "string \<Rightarrow> (int \<times> string) option"

record lark_creds =
  lc_app_id :: string
  lc_app_secret :: string

record 's lark_app =
  la_token :: string
  la_expires :: time
  la_net :: 's
  la_posts :: "(string \<times> string \<times> bool) list"

datatype lark_send_error =
  LarkAuth string
| LarkAuthRejected int string
| LarkPost string
| LarkRejected string int string
| LarkTokenTwice

definition response_limit :: nat where "response_limit = 16 * 1024"

definition post_json ::
  "'s lark_net \<Rightarrow> (string \<Rightarrow> 'a option) \<Rightarrow> string \<Rightarrow> string \<Rightarrow> string \<Rightarrow> 's \<Rightarrow> (string + 'a) \<times> 's" where
  "post_json net parse path token body s =
     (case ln_do net s path token body of
        (Inl e, s') \<Rightarrow> (Inl (redact_url e), s')
      | (Inr (status, raw), s') \<Rightarrow>
          (case parse (take response_limit raw) of
             None \<Rightarrow> (Inl (''unreadable response (HTTP '' @ show_int status @ '')''), s')
           | Some out \<Rightarrow> (Inr out, s')))"

section \<open>The tenant token\<close>

definition token_refresh_margin :: duration where "token_refresh_margin = 5 * minute"

definition lark_token_invalid :: "int list" where
  "lark_token_invalid = [99991661, 99991663, 99991668]"

definition token_fresh :: "'s lark_net \<Rightarrow> 's lark_app \<Rightarrow> bool \<times> 's lark_app" where
  "token_fresh net st =
     (if la_token st = [] then (False, st)
      else let (now, s) = ln_now net (la_net st)
           in (now < la_expires st - token_refresh_margin, st\<lparr>la_net := s\<rparr>))"

definition tenant_token ::
  "'s lark_net \<Rightarrow> lark_creds \<Rightarrow> 's lark_app \<Rightarrow> (lark_send_error + string) \<times> 's lark_app" where
  "tenant_token net cr st =
     (case token_fresh net st of
        (True, st) \<Rightarrow> (Inr (la_token st), st)
      | (False, st) \<Rightarrow>
          (case post_json net (ln_auth_of net) ''/auth/v3/tenant_access_token/internal'' []
                  (ln_json net [(''app_id'', lc_app_id cr), (''app_secret'', lc_app_secret cr)]) (la_net st) of
             (Inl e, s) \<Rightarrow> (Inl (LarkAuth e), st\<lparr>la_net := s\<rparr>)
           | (Inr out, s) \<Rightarrow>
               (if ar_code out \<noteq> 0 \<or> ar_token out = []
                then (Inl (LarkAuthRejected (ar_code out) (ar_msg out)), st\<lparr>la_net := s\<rparr>)
                else let (now, s) = ln_now net s
                     in (Inr (ar_token out),
                         st\<lparr>la_token := ar_token out, la_expires := now + wrap64 (ar_expire out * second),
                            la_net := s\<rparr>))))"

section \<open>Sending to one target\<close>

definition lark_body :: "'s lark_net \<Rightarrow> string \<Rightarrow> string \<Rightarrow> string" where
  "lark_body net i t =
     ln_json net [(''content'', ln_json net [(''text'', t)]), (''msg_type'', ''text''), (''receive_id'', i)]"

definition lark_post ::
  "'s lark_net \<Rightarrow> string \<Rightarrow> string \<Rightarrow> string \<Rightarrow> string \<Rightarrow> 's lark_app \<Rightarrow> (string + int \<times> string) \<times> 's lark_app" where
  "lark_post net token id_type i body st =
     (case post_json net (ln_verdict_of net) (''/im/v1/messages?receive_id_type='' @ id_type) token body (la_net st) of
        (r, s) \<Rightarrow> (r, st\<lparr>la_net := s,
                        la_posts := la_posts st @ [(id_type, i, case r of Inr (code, m) \<Rightarrow> code = 0 | Inl e \<Rightarrow> False)]\<rparr>))"

function lark_attempt ::
  "'s lark_net \<Rightarrow> lark_creds \<Rightarrow> nat \<Rightarrow> string \<Rightarrow> string \<Rightarrow> string \<Rightarrow> 's lark_app \<Rightarrow> lark_send_error option \<times> 's lark_app" where
  "lark_attempt net cr a id_type i body st =
     (if a < 2
      then (case tenant_token net cr st of
              (Inl e, st) \<Rightarrow> (Some e, st)
            | (Inr tok, st) \<Rightarrow>
                (case lark_post net tok id_type i body st of
                   (Inl e, st) \<Rightarrow> (Some (LarkPost e), st)
                 | (Inr (code, m), st) \<Rightarrow>
                     (if code = 0 then (None, st)
                      else if code \<in> set lark_token_invalid \<and> a = 0
                      then lark_attempt net cr (Suc a) id_type i body (st\<lparr>la_token := []\<rparr>)
                      else (Some (LarkRejected id_type code m), st))))
      else (Some LarkTokenTwice, st))"
  by pat_completeness auto
termination by (relation "measure (\<lambda>(net, cr, a, r). 2 - a)") auto

declare lark_attempt.simps [simp del]

definition lark_send ::
  "'s lark_net \<Rightarrow> lark_creds \<Rightarrow> string \<Rightarrow> string \<Rightarrow> string \<Rightarrow> 's lark_app \<Rightarrow> lark_send_error option \<times> 's lark_app" where
  "lark_send net cr t id_type i st = lark_attempt net cr 0 id_type i (lark_body net i t) st"

section \<open>Routing an alert\<close>

record lark_routes =
  lr_route :: "string \<Rightarrow> string \<times> string"
  lr_delivery :: "string \<Rightarrow> string"
  lr_fallback :: string

datatype lark_failure =
  NoLarkRecipient string
| NoLarkDelivery string "(string \<times> lark_send_error) list"

type_synonym 'w sender = "string \<Rightarrow> string \<Rightarrow> 'w \<Rightarrow> lark_send_error option \<times> 'w"

record 'w attempts =
  at_errs :: "(string \<times> lark_send_error) list"
  at_tried :: "string list"
  at_world :: 'w

definition lark_try :: "'w sender \<Rightarrow> string \<Rightarrow> string \<Rightarrow> 'w attempts \<Rightarrow> bool \<times> 'w attempts" where
  "lark_try send id_type i a =
     (if i = [] \<or> id_type @ i \<in> set (at_tried a) then (False, a)
      else let a = a\<lparr>at_tried := at_tried a @ [id_type @ i]\<rparr>
           in case send id_type i (at_world a) of
                (Some e, w) \<Rightarrow> (False, a\<lparr>at_errs := at_errs a @ [(id_type, e)], at_world := w\<rparr>)
              | (None, w) \<Rightarrow> (True, a\<lparr>at_world := w\<rparr>))"

definition lark_mode_targets ::
  "'w sender \<Rightarrow> string \<Rightarrow> string \<Rightarrow> string \<Rightarrow> 'w attempts \<Rightarrow> bool \<times> 'w attempts" where
  "lark_mode_targets send mode email chat a =
     (if mode = ''group'' then lark_try send ''chat_id'' chat a
      else if mode = ''both'' then
        (let (dm, a) = lark_try send ''email'' email a; (grp, a) = lark_try send ''chat_id'' chat a
         in (dm \<or> grp, a))
      else (case lark_try send ''email'' email a of
              (True, a) \<Rightarrow> (True, a)
            | (False, a) \<Rightarrow> lark_try send ''chat_id'' chat a))"

definition lark_route_alert ::
  "'w sender \<Rightarrow> lark_routes option \<Rightarrow> string \<Rightarrow> 'w \<Rightarrow> lark_failure option \<times> 'w" where
  "lark_route_alert send routes loc w =
     (let (email, chat) = (case routes of Some r \<Rightarrow> lr_route r loc | None \<Rightarrow> ([], []));
          mode = (case routes of Some r \<Rightarrow> lr_delivery r loc | None \<Rightarrow> []);
          fallback = (case routes of Some r \<Rightarrow> lr_fallback r | None \<Rightarrow> [])
      in case lark_mode_targets send mode email chat \<lparr>at_errs = [], at_tried = [], at_world = w\<rparr> of
           (True, a) \<Rightarrow> (None, at_world a)
         | (False, a) \<Rightarrow>
             (case (if fallback \<noteq> [] then lark_try send ''chat_id'' fallback a else (False, a)) of
                (True, a) \<Rightarrow> (None, at_world a)
              | (False, a) \<Rightarrow>
                  (Some (if at_errs a = [] then NoLarkRecipient loc else NoLarkDelivery loc (at_errs a)),
                   at_world a)))"

definition lark_notify ::
  "'s lark_net \<Rightarrow> lark_creds \<Rightarrow> lark_routes option \<Rightarrow> message \<Rightarrow> 's lark_app \<Rightarrow> lark_failure option \<times> 's lark_app" where
  "lark_notify net cr routes m st =
     lark_route_alert (lark_send net cr (message_body m)) routes (mg_location m) st"

definition lark_send_dm where
  "lark_send_dm net cr email m st = lark_send net cr (message_body m) ''email'' email st"

definition lark_send_chat where
  "lark_send_chat net cr chat m st = lark_send net cr (message_body m) ''chat_id'' chat st"

text \<open>The targets of a mode.\<close>

definition mode_targets :: "string \<Rightarrow> string \<Rightarrow> string \<Rightarrow> (string \<times> string) set" where
  "mode_targets mode email chat =
     (if mode = ''group'' then {} else {(''email'', email)}) \<union> {(''chat_id'', chat)}"

section \<open>What a sender promises\<close>

text \<open>\<open>delivered\<close> lists the messages that reached their target, \<open>posts\<close> counts the requests that carried
  one.\<close>

locale target_sender =
  fixes send :: "'w sender"
    and delivered :: "'w \<Rightarrow> (string \<times> string) list"
    and posts :: "'w \<Rightarrow> nat"
  assumes delivers: "delivered (snd (send t i w)) = delivered w @ (if fst (send t i w) = None then [(t, i)] else [])"
    and few_posts: "posts (snd (send t i w)) \<le> posts w + 2"
begin

definition progress :: "'w \<Rightarrow> 'w attempts \<Rightarrow> (string \<times> string) list \<Rightarrow> bool" where
  "progress w0 a new \<longleftrightarrow> delivered (at_world a) = delivered w0 @ new \<and> distinct new
     \<and> (\<forall>(t, i) \<in> set new. t @ i \<in> set (at_tried a))
     \<and> posts (at_world a) \<le> posts w0 + 2 * length (at_tried a)"

lemma progress_start: "progress w \<lparr>at_errs = [], at_tried = [], at_world = w\<rparr> []"
  by (simp add: progress_def)

lemma try_progress:
  assumes "progress w0 a new" "lark_try send t i a = (ok, a')"
  shows "progress w0 a' (new @ (if ok then [(t, i)] else []))" "ok \<Longrightarrow> i \<noteq> []"
    "length (at_tried a') \<le> Suc (length (at_tried a))"
proof -
  obtain r w where rw: "send t i (at_world a) = (r, w)" by fastforce
  from delivers [of t i "at_world a"] few_posts [of t i "at_world a"] rw
  have d: "delivered w = delivered (at_world a) @ (if r = None then [(t, i)] else [])"
    and p: "posts w \<le> posts (at_world a) + 2" by auto
  show "progress w0 a' (new @ (if ok then [(t, i)] else []))" "ok \<Longrightarrow> i \<noteq> []"
    "length (at_tried a') \<le> Suc (length (at_tried a))"
    using assms rw d p by (auto simp: lark_try_def progress_def Let_def split: if_splits option.splits)
qed

lemma mode_targets_progress:
  assumes "lark_mode_targets send mode email chat \<lparr>at_errs = [], at_tried = [], at_world = w\<rparr> = (ok, a)"
  shows "\<exists>new. progress w a new \<and> (ok \<longleftrightarrow> new \<noteq> []) \<and> set new \<subseteq> mode_targets mode email chat
    \<and> length new \<le> (if mode = ''both'' then 2 else 1) \<and> length (at_tried a) \<le> 2
    \<and> (\<forall>(t, i) \<in> set new. i \<noteq> [])"
proof -
  let ?a0 = "\<lparr>at_errs = [], at_tried = [], at_world = w\<rparr>"
  obtain o1 a1 where t1: "lark_try send ''email'' email ?a0 = (o1, a1)" by fastforce
  obtain o2 a2 where t2: "lark_try send ''chat_id'' chat a1 = (o2, a2)" by fastforce
  obtain o3 a3 where t3: "lark_try send ''chat_id'' chat ?a0 = (o3, a3)" by fastforce
  note p1 = try_progress [OF progress_start t1]
  note p2 = try_progress [OF p1(1) t2]
  note p3 = try_progress [OF progress_start t3]
  show ?thesis
  proof (cases "mode = ''group''")
    case True
    with assms t3 have "ok = o3" "a = a3" by (auto simp: lark_mode_targets_def)
    with p3 True show ?thesis by (intro exI [of _ "if o3 then [(''chat_id'', chat)] else []"])
      (auto simp: mode_targets_def)
  next
    case ng: False
    show ?thesis
    proof (cases "mode = ''both'' \<or> \<not> o1")
      case True
      with assms t1 t2 ng have e: "ok = (o1 \<or> o2)" "a = a2"
        by (auto simp: lark_mode_targets_def Let_def split: if_splits)
      with p1 p2 ng True show ?thesis
        by (intro exI [of _ "(if o1 then [(''email'', email)] else []) @ (if o2 then [(''chat_id'', chat)] else [])"])
          (auto simp: mode_targets_def split: if_splits)
    next
      case False
      with assms t1 t2 ng have "ok = True" "a = a1" by (auto simp: lark_mode_targets_def Let_def)
      with p1 ng False show ?thesis
        by (intro exI [of _ "[(''email'', email)]"]) (auto simp: mode_targets_def)
    qed
  qed
qed

lemma route_delivers:
  assumes "lark_route_alert send (Some r) loc w = (res, w')"
  shows "\<exists>new. delivered w' = delivered w @ new \<and> distinct new \<and> (res = None \<longleftrightarrow> new \<noteq> [])
    \<and> (set new \<subseteq> mode_targets (lr_delivery r loc) (fst (lr_route r loc)) (snd (lr_route r loc))
       \<or> new = [(''chat_id'', lr_fallback r)])
    \<and> length new \<le> (if lr_delivery r loc = ''both'' then 2 else 1)
    \<and> (\<forall>(t, i) \<in> set new. i \<noteq> []) \<and> posts w' \<le> posts w + 6"
proof -
  let ?email = "fst (lr_route r loc)" and ?chat = "snd (lr_route r loc)" and ?mode = "lr_delivery r loc"
  obtain o1 a1 where m: "lark_mode_targets send ?mode ?email ?chat \<lparr>at_errs = [], at_tried = [], at_world = w\<rparr> = (o1, a1)"
    by fastforce
  from mode_targets_progress [OF m] obtain new where new: "progress w a1 new" "o1 \<longleftrightarrow> new \<noteq> []"
    "set new \<subseteq> mode_targets ?mode ?email ?chat" "length new \<le> (if ?mode = ''both'' then 2 else 1)"
    "length (at_tried a1) \<le> 2" "\<forall>(t, i) \<in> set new. i \<noteq> []" by blast
  obtain o2 a2 where f: "lark_try send ''chat_id'' (lr_fallback r) a1 = (o2, a2)" by fastforce
  note p = try_progress [OF new(1) f]
  show ?thesis
  proof (cases o1)
    case True
    with assms m have "res = None" "w' = at_world a1" by (auto simp: lark_route_alert_def split_def Let_def)
    with new True show ?thesis by (intro exI [of _ new]) (auto simp: progress_def)
  next
    case False
    then have "new = []" using new(2) by simp
    show ?thesis
    proof (cases "lr_fallback r \<noteq> [] \<and> o2")
      case True
      with assms m f False have "res = None" "w' = at_world a2" by (auto simp: lark_route_alert_def split_def Let_def)
      with p new(5) \<open>new = []\<close> True show ?thesis
        by (intro exI [of _ "[(''chat_id'', lr_fallback r)]"]) (auto simp: progress_def)
    next
      case nf: False
      have "res \<noteq> None \<and> (w' = at_world a1 \<or> w' = at_world a2 \<and> \<not> o2)"
        using assms m f False nf by (cases "lr_fallback r = []") (auto simp: lark_route_alert_def split_def Let_def)
      with p new \<open>new = []\<close> show ?thesis by (intro exI [of _ "[]"]) (auto simp: progress_def)
    qed
  qed
qed

end

section \<open>The client keeps the contract\<close>

definition accepted :: "'s lark_app \<Rightarrow> (string \<times> string) list" where
  "accepted st = map (\<lambda>(t, i, ok). (t, i)) (filter (\<lambda>(t, i, ok). ok) (la_posts st))"

lemma tenant_token_posts: "la_posts (snd (tenant_token net cr st)) = la_posts st"
  by (auto simp: tenant_token_def token_fresh_def Let_def split: prod.splits sum.splits bool.splits)

text \<open>One round of the loop, when the clock has not run out.\<close>

lemma lark_attempt_result:
  "a < 2 \<Longrightarrow> (let (r, st') = lark_attempt net cr a t i body st in
     accepted st' = accepted st @ (if r = None then [(t, i)] else [])
     \<and> length (la_posts st') \<le> length (la_posts st) + (2 - a) \<and> r \<noteq> Some LarkTokenTwice)"
proof (induction net cr a t i body st rule: lark_attempt.induct)
  case (1 net cr a t i body st)
  obtain tk st1 where tok: "tenant_token net cr st = (tk, st1)" by fastforce
  have p1: "la_posts st1 = la_posts st" using tenant_token_posts [of net cr st] tok by simp
  show ?case
  proof (cases tk)
    case (Inl e)
    have "e \<noteq> LarkTokenTwice" using tok Inl
      by (auto simp: tenant_token_def Let_def split: prod.splits sum.splits bool.splits if_splits)
    with Inl tok p1 1(2) show ?thesis by (simp add: lark_attempt.simps [of net cr a t i body st] accepted_def)
  next
    case (Inr token)
    obtain r st2 where post: "lark_post net token t i body st1 = (r, st2)" by fastforce
    have p2: "la_posts st2 = la_posts st @ [(t, i, case r of Inr (code, m) \<Rightarrow> code = 0 | Inl e \<Rightarrow> False)]"
      using p1 post [symmetric] by (simp add: lark_post_def split_def)
    show ?thesis
    proof (cases "\<exists>code m. r = Inr (code, m) \<and> code \<noteq> 0 \<and> code \<in> set lark_token_invalid \<and> a = 0")
      case True
      then obtain code m where r: "r = Inr (code, m)" "code \<noteq> 0" "code \<in> set lark_token_invalid" "a = 0" by blast
      have "lark_attempt net cr a t i body st = lark_attempt net cr (Suc a) t i body (st2\<lparr>la_token := []\<rparr>)"
        using tok Inr post r 1(2) by (simp add: lark_attempt.simps [of net cr 0 t i body st])
      moreover note 1(1) [OF 1(2) tok [symmetric] Inr post [symmetric] r(1) refl r(2)]
      ultimately show ?thesis using r p2 by (auto simp: accepted_def split: prod.splits)
    next
      case False
      then have "lark_attempt net cr a t i body st =
          (case r of Inl e \<Rightarrow> (Some (LarkPost e), st2)
           | Inr (code, m) \<Rightarrow> if code = 0 then (None, st2) else (Some (LarkRejected t code m), st2))"
        using tok Inr post 1(2) by (cases r) (auto simp: lark_attempt.simps [of net cr a t i body st])
      moreover have "1 \<le> 2 - a" using 1(2) by simp
      ultimately show ?thesis using p2 by (cases r) (auto simp: accepted_def Let_def split: prod.splits)
    qed
  qed
qed

lemma lark_send_result:
  "let (r, st') = lark_send net cr text t i st in
     accepted st' = accepted st @ (if r = None then [(t, i)] else [])
     \<and> length (la_posts st') \<le> length (la_posts st) + 2 \<and> r \<noteq> Some LarkTokenTwice"
  using lark_attempt_result [of 0 net cr t i "lark_body net i text" st] by (simp add: lark_send_def)

interpretation lark: target_sender "lark_send net cr body" accepted "\<lambda>st. length (la_posts st)"
  for net :: "'s lark_net" and cr body
proof
  fix t i and w :: "'s lark_app"
  from lark_send_result [of net cr body t i w]
  show "accepted (snd (lark_send net cr body t i w)) =
      accepted w @ (if fst (lark_send net cr body t i w) = None then [(t, i)] else [])"
    and "length (la_posts (snd (lark_send net cr body t i w))) \<le> length (la_posts w) + 2"
    by (auto simp: Let_def split: prod.splits)
qed

section \<open>Alerts through Lark\<close>


text \<open>A world in which Lark rejects the first token and knows neither the person nor the group of the
  location: the alert goes to the fallback group with a new token.\<close>

definition sample_lark_net :: "nat lark_net" where
  "sample_lark_net =
     \<lparr>ln_now = (\<lambda>s. (0, s)),
      ln_do = (\<lambda>s path tok body.
        if path = ''/auth/v3/tenant_access_token/internal'' then (Inr (200, ''t''), Suc s)
        else if tok = ''old'' then (Inr (200, ''x''), s)
        else if path = ''/im/v1/messages?receive_id_type=email'' then (Inr (200, ''n''), s)
        else (Inr (200, ''y''), s)),
      ln_json = (\<lambda>kv. []),
      ln_auth_of = (\<lambda>b. Some \<lparr>ar_code = 0, ar_msg = [], ar_token = ''new'', ar_expire = 7200\<rparr>),
      ln_verdict_of = (\<lambda>b. Some (if b = ''y'' then 0 else if b = ''x'' then 99991663 else 230001, []))\<rparr>"

definition sample_lark_app :: "nat lark_app" where
  "sample_lark_app = \<lparr>la_token = ''old'', la_expires = hour, la_net = 0, la_posts = []\<rparr>"

definition sample_routes :: lark_routes where
  "sample_routes = \<lparr>lr_route = (\<lambda>l. (''a@x.io'', [])), lr_delivery = (\<lambda>l. []), lr_fallback = ''oc_1''\<rparr>"

definition sample_message :: message where
  "sample_message = \<lparr>mg_title = ''t'', mg_text = [], mg_device_id = ''d1'', mg_room = [], mg_location = ''hq''\<rparr>"

lemmas sample_lark_defs = sample_lark_net_def sample_lark_app_def sample_routes_def sample_message_def

lemma sample_lark_run:
  "fst (lark_notify sample_lark_net \<lparr>lc_app_id = [], lc_app_secret = []\<rparr> (Some sample_routes) sample_message sample_lark_app) = None
   \<and> la_posts (snd (lark_notify sample_lark_net \<lparr>lc_app_id = [], lc_app_secret = []\<rparr> (Some sample_routes)
        sample_message sample_lark_app))
     = [(''email'', ''a@x.io'', False), (''email'', ''a@x.io'', False), (''chat_id'', ''oc_1'', True)]"
  by (simp add: lark_notify_def lark_route_alert_def lark_mode_targets_def lark_try_def lark_send_def
      lark_attempt.simps tenant_token_def token_fresh_def lark_post_def post_json_def sample_lark_defs
      lark_token_invalid_def token_refresh_margin_def dur_defs response_limit_def Let_def wrap64_def)


end
