(* ===== verification/WebPush.thy ===== *)
theory WebPush
  imports Lark
begin

text \<open>
  Browser push of \<open>internal/notify/webpush.go\<close>. P-256, HKDF, AES-GCM and ECDSA are parameters (the
  record \<open>push_crypto\<close>), as are the push services and the clock; base64, the record layout, the
  redaction of refusals and the bookkeeping of a fan-out are modelled. The locale
  \<open>subscription_store\<close> is what \<open>SendReport\<close> relies on. The lemmas show that a browser can open the
  record made for it, that the reason kept from a refusal holds no token, that the report accounts
  for every subscription, and which subscriptions a fan-out may delete.
\<close>

section \<open>base64.RawURLEncoding\<close>

definition b64_digit :: "nat \<Rightarrow> char" where
  "b64_digit n = (if n < 26 then char_of (65 + n) else if n < 52 then char_of (71 + n)
     else if n < 62 then char_of (n - 4) else if n = 62 then CHR ''-'' else CHR ''_'')"

fun b64_sextets :: "byte list \<Rightarrow> nat list" where
  "b64_sextets [] = []"
| "b64_sextets [x] = [unat x div 4, 16 * (unat x mod 4)]"
| "b64_sextets [x, y] = [unat x div 4, 16 * (unat x mod 4) + unat y div 16, 4 * (unat y mod 16)]"
| "b64_sextets (x # y # z # r) =
     [unat x div 4, 16 * (unat x mod 4) + unat y div 16, 4 * (unat y mod 16) + unat z div 64, unat z mod 64]
     @ b64_sextets r"

definition b64url_encode :: "byte list \<Rightarrow> string" where
  "b64url_encode bs = map b64_digit (b64_sextets bs)"

lemma char_of_eq: "m < 256 \<Longrightarrow> char_of m = c \<longleftrightarrow> m = of_char c"
  for m :: nat
  by (metis char_of_char of_char_char_of_nat)

lemma b64_val_digit: "n < 64 \<Longrightarrow> b64_val (b64_digit n) = Some n \<and> b64_digit n \<notin> {CHR 0x0A, CHR 0x0D, CHR ''=''}"
  by (auto simp: b64_digit_def b64_val_def Let_def char_of_eq)

lemma byte_less: "unat (x :: byte) < 256"
  using unsigned_less [of x] by simp

lemma byte_div: "unat (x :: byte) div 4 < 64" "unat x div 16 < 16" "unat x div 64 < 4"
  using byte_less [of x] by auto

lemma byte_mod: "unat (x :: byte) mod 4 < 4" "unat x mod 16 < 16" "unat x mod 64 < 64"
  by simp_all

lemma sextet_less:
  "a < 4 \<Longrightarrow> b < 16 \<Longrightarrow> 16 * a + b < 64" "a < 16 \<Longrightarrow> c < 4 \<Longrightarrow> 4 * a + c < 64"
  "a < 4 \<Longrightarrow> 16 * a < 64" "a < 16 \<Longrightarrow> 4 * a < 64" for a :: nat
  by simp_all

lemmas sextets_less = sextet_less byte_div byte_mod

lemma b64_sextets_less: "n \<in> set (b64_sextets bs) \<Longrightarrow> n < 64"
proof (induction bs rule: b64_sextets.induct)
  case (2 x)
  then have "n = unat x div 4 \<or> n = 16 * (unat x mod 4)" by simp
  then show ?case by (elim disjE) (simp_all only: sextets_less)
next
  case (3 x y)
  then have "n = unat x div 4 \<or> n = 16 * (unat x mod 4) + unat y div 16 \<or> n = 4 * (unat y mod 16)" by simp
  then show ?case by (elim disjE) (simp_all only: sextets_less)
next
  case (4 x y z r)
  then consider "n = unat x div 4 \<or> n = 16 * (unat x mod 4) + unat y div 16
      \<or> n = 4 * (unat y mod 16) + unat z div 64 \<or> n = unat z mod 64" | "n \<in> set (b64_sextets r)" by auto
  then show ?case
  proof cases
    case 1
    then show ?thesis by (elim disjE) (simp_all only: sextets_less)
  qed (rule 4(1))
qed simp

lemma of_nat_unat_byte: "n = unat (x :: byte) \<Longrightarrow> of_nat n = x"
  by simp

lemma b64_join:
  fixes x y z :: byte
  shows "r < 16 \<Longrightarrow> 4 * (unat x div 4) + (16 * (unat x mod 4) + r) div 16 = unat x"
    and "c < 4 \<Longrightarrow> 16 * ((16 * a + unat y div 16) mod 16) + (4 * (unat y mod 16) + c) div 4 = unat y"
    and "64 * ((4 * b + unat z div 64) mod 4) + unat z mod 64 = unat z"
proof -
  show "r < 16 \<Longrightarrow> 4 * (unat x div 4) + (16 * (unat x mod 4) + r) div 16 = unat x" by simp
  have "unat y div 16 < 16" using byte_div [of y] by simp
  then show "c < 4 \<Longrightarrow> 16 * ((16 * a + unat y div 16) mod 16) + (4 * (unat y mod 16) + c) div 4 = unat y" by simp
  have "unat z div 64 < 4" using byte_div [of z] by simp
  then show "64 * ((4 * b + unat z div 64) mod 4) + unat z mod 64 = unat z" by simp
qed

lemma b64_groups_sextets: "b64_groups (b64_sextets bs) = Some bs"
proof (induction bs rule: b64_sextets.induct)
  case (2 x) then show ?case using b64_join(1) [of 0 x] by simp
next
  case (3 x y) then show ?case
    using b64_join(1) [of "unat y div 16" x] b64_join(2) [of 0 "unat x mod 4" y] byte_div(2) [of y]
    by (simp add: of_nat_unat_byte)
next
  case (4 x y z r) then show ?case
    using b64_join(1) [of "unat y div 16" x] b64_join(2) [of "unat z div 64" "unat x mod 4" y]
      b64_join(3) [of "unat y mod 16" z] byte_div(2) [of y] byte_div(3) [of z]
    by (simp add: of_nat_unat_byte)
qed simp

lemma trim_right_none: "c \<notin> set s \<Longrightarrow> trim_right c s = s"
proof -
  have "c \<notin> set s \<Longrightarrow> dropWhile (\<lambda>x. x = c) (rev s) = rev s"
    by (cases "rev s") (auto simp: rev_eq_Cons_iff)
  then show "c \<notin> set s \<Longrightarrow> ?thesis" by (simp add: trim_right_def)
qed

lemma b64url_encode_decode [simp]: "b64url (b64url_encode bs) = Some bs"
proof -
  have d: "n \<in> set (b64_sextets bs) \<Longrightarrow> b64_val (b64_digit n) = Some n
      \<and> b64_digit n \<notin> {CHR 0x0A, CHR 0x0D, CHR ''=''}" for n
    using b64_val_digit b64_sextets_less by blast
  have 1: "trim_right (CHR ''='') (b64url_encode bs) = b64url_encode bs"
    by (rule trim_right_none) (use d in \<open>fastforce simp: b64url_encode_def\<close>)
  have 2: "filter (\<lambda>c. c \<noteq> CHR 0x0A \<and> c \<noteq> CHR 0x0D) (b64url_encode bs) = b64url_encode bs"
    by (rule filter_True) (use d in \<open>fastforce simp: b64url_encode_def\<close>)
  have 3: "map b64_val (b64url_encode bs) = map Some (b64_sextets bs)"
    using d by (simp add: b64url_encode_def)
  show ?thesis by (simp add: b64url_def 1 2 3 Let_def b64_groups_sextets comp_def)
qed

section \<open>Keys and records\<close>

definition bytes_of :: "string \<Rightarrow> byte list" where "bytes_of s = map of_char s"

record ('pk, 'sk) push_crypto =
  pc_public :: "byte list \<Rightarrow> 'pk option"
  pc_private :: "byte list \<Rightarrow> 'sk option"
  pc_bytes :: "'sk \<Rightarrow> byte list"
  pc_ecdh :: "'sk \<Rightarrow> 'pk \<Rightarrow> byte list option"
  pc_extract :: "byte list \<Rightarrow> byte list \<Rightarrow> byte list"
  pc_expand :: "byte list \<Rightarrow> byte list \<Rightarrow> nat \<Rightarrow> byte list"
  pc_seal :: "byte list \<Rightarrow> byte list \<Rightarrow> byte list \<Rightarrow> byte list"
  pc_sha256 :: "byte list \<Rightarrow> byte list"
  pc_sign :: "'sk \<Rightarrow> byte list \<Rightarrow> (nat \<times> nat) option"
  pc_quote :: "string \<Rightarrow> string"

record pushee =
  pe_endpoint :: string
  pe_p256dh :: string
  pe_auth :: string
  pe_created :: time

record 'sk vapid_keys =
  vk_public :: "byte list"
  vk_private :: 'sk

datatype vapid_key_error = BadPublicKey | BadPrivateScalar | UnusablePrivateKey | KeysDoNotMatch

definition parse_vapid_keys ::
  "('pk, 'sk) push_crypto \<Rightarrow> string \<Rightarrow> string \<Rightarrow> vapid_key_error + 'sk vapid_keys" where
  "parse_vapid_keys cr pub_b64 priv_b64 =
     (case b64url pub_b64 of
        None \<Rightarrow> Inl BadPublicKey
      | Some pub \<Rightarrow>
          (if length pub \<noteq> 65 \<or> hd pub \<noteq> 4 then Inl BadPublicKey
           else (case b64url priv_b64 of
                   None \<Rightarrow> Inl BadPrivateScalar
                 | Some d \<Rightarrow>
                     (if length d \<noteq> 32 then Inl BadPrivateScalar
                      else (case pc_private cr d of
                              None \<Rightarrow> Inl UnusablePrivateKey
                            | Some sk \<Rightarrow> if pc_bytes cr sk \<noteq> pub then Inl KeysDoNotMatch
                                         else Inr \<lparr>vk_public = pub, vk_private = sk\<rparr>)))))"

definition vapid_public_key :: "'sk vapid_keys \<Rightarrow> string" where
  "vapid_public_key k = b64url_encode (vk_public k)"

lemma parse_vapid_keys_matching:
  "parse_vapid_keys cr p d = Inr k \<Longrightarrow> pc_bytes cr (vk_private k) = vk_public k \<and> length (vk_public k) = 65"
  by (auto simp: parse_vapid_keys_def split: option.splits if_splits)

definition hkdf_key :: "('pk, 'sk) push_crypto \<Rightarrow> byte list \<Rightarrow> byte list \<Rightarrow> byte list \<Rightarrow> nat \<Rightarrow> byte list" where
  "hkdf_key cr secret salt info n = pc_expand cr (pc_extract cr secret salt) info n"

definition push_keys ::
  "('pk, 'sk) push_crypto \<Rightarrow> 'sk \<Rightarrow> 'pk \<Rightarrow> byte list \<Rightarrow> byte list \<Rightarrow> byte list \<Rightarrow> byte list
     \<Rightarrow> (byte list \<times> byte list) option" where
  "push_keys cr priv peer auth_secret salt as_pub ua_pub =
     (case pc_ecdh cr priv peer of
        None \<Rightarrow> None
      | Some shared \<Rightarrow>
          (let key_info = bytes_of ''WebPush: info'' @ [0] @ ua_pub @ as_pub;
               ikm = hkdf_key cr shared auth_secret key_info 32;
               prk = pc_extract cr ikm salt
           in Some (pc_expand cr prk (bytes_of ''Content-Encoding: aes128gcm'' @ [0]) 16,
                    pc_expand cr prk (bytes_of ''Content-Encoding: nonce'' @ [0]) 12)))"

datatype push_fault =
  BadP256DH | BadAuthSecret | NotOnCurve | NoRandomness | NoSharedSecret | BadPushEndpoint | NoSignature
| PushTransport string

text \<open>The two random draws of a message are arguments: the ephemeral key and the salt.\<close>

definition encrypt_push ::
  "('pk, 'sk) push_crypto \<Rightarrow> 'sk option \<Rightarrow> byte list option \<Rightarrow> pushee \<Rightarrow> byte list \<Rightarrow> push_fault + byte list" where
  "encrypt_push cr draw_key draw_salt sub plaintext =
     (case b64url (pe_p256dh sub) of
        None \<Rightarrow> Inl BadP256DH
      | Some ua_pub \<Rightarrow>
     (case b64url (pe_auth sub) of
        None \<Rightarrow> Inl BadAuthSecret
      | Some auth_secret \<Rightarrow>
     if length auth_secret \<noteq> 16 then Inl BadAuthSecret else
     (case pc_public cr ua_pub of
        None \<Rightarrow> Inl NotOnCurve
      | Some ua_key \<Rightarrow>
     (case draw_key of
        None \<Rightarrow> Inl NoRandomness
      | Some as_key \<Rightarrow>
     (case draw_salt of
        None \<Rightarrow> Inl NoRandomness
      | Some salt \<Rightarrow>
     (case push_keys cr as_key ua_key auth_secret salt (pc_bytes cr as_key) ua_pub of
        None \<Rightarrow> Inl NoSharedSecret
      | Some (cek, nonce) \<Rightarrow>
          (let ct = pc_seal cr cek nonce (plaintext @ [2]);
               as_pub = pc_bytes cr as_key
           in Inr (salt @ be32 4096 @ [of_nat (length as_pub)] @ as_pub @ ct))))))))"

text \<open>The browser's side of RFC 8291: it reads the salt and the sender's key from the header, derives the
  same keys from its own private key, opens the record and drops the delimiter.\<close>

definition open_push ::
  "('pk, 'sk) push_crypto \<Rightarrow> (byte list \<Rightarrow> byte list \<Rightarrow> byte list \<Rightarrow> byte list option) \<Rightarrow> 'sk \<Rightarrow> byte list
     \<Rightarrow> byte list \<Rightarrow> byte list \<Rightarrow> byte list option" where
  "open_push cr opener ua_sk auth_secret ua_pub body =
     (let salt = take 16 body;
          n = unat (body ! 20);
          as_pub = take n (drop 21 body);
          ct = drop (21 + n) body
      in Option.bind (pc_public cr as_pub) (\<lambda>as_key.
         Option.bind (push_keys cr ua_sk as_key auth_secret salt as_pub ua_pub) (\<lambda>(cek, nonce).
         Option.bind (opener cek nonce ct) (\<lambda>rec.
           if rec \<noteq> [] \<and> last rec = 2 then Some (butlast rec) else None))))"

lemma length_be32 [simp]: "length (be32 w) = 4"
  by (simp add: be32_def)


definition sample_crypto :: "(byte, byte) push_crypto" where
  "sample_crypto =
     \<lparr>pc_public = (\<lambda>bs. case bs of [] \<Rightarrow> None | b # _ \<Rightarrow> Some b), pc_private = (\<lambda>bs. Some (hd bs)),
      pc_bytes = (\<lambda>a. replicate 65 a), pc_ecdh = (\<lambda>a b. Some [a * b]),
      pc_extract = (\<lambda>secret salt. secret @ salt), pc_expand = (\<lambda>prk info n. take n (prk @ info)),
      pc_seal = (\<lambda>k n x. map (\<lambda>b. b + hd k) x), pc_sha256 = (\<lambda>b. []), pc_sign = (\<lambda>k d. Some (1, 2)),
      pc_quote = (\<lambda>s. s)\<rparr>"

definition sample_pushee :: "byte \<Rightarrow> pushee" where
  "sample_pushee a = \<lparr>pe_endpoint = ''https://push.x/1'', pe_p256dh = b64url_encode (replicate 65 a),
     pe_auth = b64url_encode (replicate 16 9), pe_created = zero_time\<rparr>"


section \<open>The signed claims\<close>

definition endpoint_origin :: "go_env \<Rightarrow> string \<Rightarrow> string" where
  "endpoint_origin e endpoint =
     (case env_url e endpoint of
        None \<Rightarrow> []
      | Some (scheme, host) \<Rightarrow> if scheme = [] \<or> host = [] then [] else scheme @ ''://'' @ host)"

definition fill_bytes :: "nat \<Rightarrow> nat \<Rightarrow> byte list" where
  "fill_bytes n x = rev (map (\<lambda>i. of_nat (x div 256 ^ i)) [0..<n])"

definition dquoted :: "string \<Rightarrow> string" where "dquoted s = CHR 0x22 # s @ [CHR 0x22]"

definition vapid_claims :: "('pk, 'sk) push_crypto \<Rightarrow> string \<Rightarrow> time \<Rightarrow> string \<Rightarrow> string" where
  "vapid_claims cr aud now subject =
     ''{'' @ dquoted ''aud'' @ '':'' @ pc_quote cr aud @ '','' @ dquoted ''exp'' @ '':'' @ show_int (unix (now + 12 * hour))
     @ '','' @ dquoted ''sub'' @ '':'' @ pc_quote cr subject @ ''}''"

definition vapid_jwt ::
  "('pk, 'sk) push_crypto \<Rightarrow> go_env \<Rightarrow> 'sk vapid_keys \<Rightarrow> string \<Rightarrow> time \<Rightarrow> string \<Rightarrow> push_fault + string" where
  "vapid_jwt cr e keys subject now endpoint =
     (let aud = endpoint_origin e endpoint
      in if aud = [] then Inl BadPushEndpoint
         else let hdr = b64url_encode (bytes_of (''{'' @ dquoted ''typ'' @ '':'' @ dquoted ''JWT'' @ '','' @ dquoted ''alg''
                          @ '':'' @ dquoted ''ES256'' @ ''}''));
                  signing = hdr @ ''.'' @ b64url_encode (bytes_of (vapid_claims cr aud now subject))
              in (case pc_sign cr (vk_private keys) (pc_sha256 cr (bytes_of signing)) of
                    None \<Rightarrow> Inl NoSignature
                  | Some (r, t) \<Rightarrow> Inr (signing @ ''.'' @ b64url_encode (fill_bytes 32 r @ fill_bytes 32 t))))"

section \<open>What is kept of a refusal\<close>

definition token_char :: "char \<Rightarrow> bool" where
  "token_char c = (let n = of_char c :: nat in
     (65 \<le> n \<and> n \<le> 90) \<or> (97 \<le> n \<and> n \<le> 122) \<or> (48 \<le> n \<and> n \<le> 57) \<or> c \<in> set ''_-:.'')"

definition redact_run :: "string \<Rightarrow> string" where
  "redact_run run = (if length run \<ge> 40 then ''<redacted>'' else run)"

text \<open>\<open>tokenShaped.ReplaceAllString\<close>: the matches are the maximal runs of forty and more.\<close>

fun redact_tokens :: "string \<Rightarrow> string \<Rightarrow> string" where
  "redact_tokens run [] = redact_run run"
| "redact_tokens run (c # cs) =
     (if token_char c then redact_tokens (run @ [c]) cs else redact_run run @ c # redact_tokens [] cs)"

definition join_spaces :: "string list \<Rightarrow> string" where
  "join_spaces ws = (case ws of [] \<Rightarrow> [] | w # r \<Rightarrow> w @ concat (map (\<lambda>x. CHR 0x20 # x) r))"

definition push_reason :: "(string \<Rightarrow> (string \<times> string \<times> string option) option) \<Rightarrow> string \<Rightarrow> string" where
  "push_reason parse raw =
     (let s = (case parse raw of
                 Some (reason, m, err) \<Rightarrow>
                   if reason \<noteq> [] then reason else if m \<noteq> [] then m
                   else (case err of Some b \<Rightarrow> b | None \<Rightarrow> trim_space raw)
               | None \<Rightarrow> trim_space raw);
          s = redact_tokens [] (join_spaces (fields_of s))
      in if length s > 200 then take 200 s @ [CHR 0xE2, CHR 0x80, CHR 0xA6] else s)"

text \<open>No stretch of forty characters that could be a token.\<close>

definition no_token :: "string \<Rightarrow> bool" where
  "no_token s \<longleftrightarrow> (\<forall>p t q. s = p @ t @ q \<longrightarrow> length t \<ge> 40 \<longrightarrow> (\<exists>c \<in> set t. \<not> token_char c))"

lemma no_token_short: "length s < 40 \<Longrightarrow> no_token s"
  by (auto simp: no_token_def)

lemma no_token_prefix: "no_token (a @ b) \<Longrightarrow> no_token a"
  unfolding no_token_def by (metis append.assoc)

lemma no_token_join:
  assumes "no_token a" "no_token b" "\<not> token_char c"
  shows "no_token (a @ c # b)"
  unfolding no_token_def
proof (intro allI impI)
  fix p t q assume eq: "a @ c # b = p @ t @ q" and len: "40 \<le> length t"
  show "\<exists>x \<in> set t. \<not> token_char x"
  proof (cases "c \<in> set t")
    case True with assms(3) show ?thesis by blast
  next
    case False
    from eq consider us where "a = p @ us" "us @ c # b = t @ q" | us where "a @ us = p" "c # b = us @ t @ q"
      by (auto simp: append_eq_append_conv2)
    then show ?thesis
    proof cases
      case 1
      from 1(2) consider vs where "us = t @ vs" | vs where "us @ vs = t" "c # b = vs @ q"
        by (auto simp: append_eq_append_conv2)
      then show ?thesis
      proof cases
        case 1
        with \<open>a = p @ us\<close> assms(1) len show ?thesis by (auto simp: no_token_def)
      next
        case 2
        with False len have "vs = []" by (cases vs) auto
        with 2 \<open>a = p @ us\<close> have "a = p @ t @ []" by simp
        then show ?thesis using assms(1) len unfolding no_token_def by blast
      qed
    next
      case 2
      show ?thesis
      proof (cases us)
        case Nil
        with 2(2) False len show ?thesis by (cases t) auto
      next
        case (Cons x vs)
        with 2(2) have "b = vs @ t @ q" by simp
        with assms(2) len show ?thesis by (auto simp: no_token_def)
      qed
    qed
  qed
qed

lemma no_token_run: "no_token (redact_run run)"
  by (rule no_token_short) (simp add: redact_run_def)

lemma no_token_redact: "no_token (redact_tokens run s)"
  by (induction run s rule: redact_tokens.induct) (auto simp: no_token_run no_token_join)

text \<open>Whatever a push service answers, the reason that is logged and shown holds no forty characters
  that could be a token, and is at most 203 bytes long.\<close>

lemma push_reason_safe: "no_token (push_reason parse raw) \<and> length (push_reason parse raw) \<le> 203"
proof -
  define s where "s = redact_tokens [] (join_spaces (fields_of (case parse raw of
      Some (reason, m, err) \<Rightarrow> if reason \<noteq> [] then reason else if m \<noteq> [] then m
        else (case err of Some b \<Rightarrow> b | None \<Rightarrow> trim_space raw)
    | None \<Rightarrow> trim_space raw)))"
  have r: "push_reason parse raw = (if length s > 200 then take 200 s @ [CHR 0xE2, CHR 0x80, CHR 0xA6] else s)"
    by (simp add: push_reason_def s_def Let_def)
  have "no_token s" by (simp add: s_def no_token_redact)
  then have "no_token (take 200 s)" using no_token_prefix [of "take 200 s" "drop 200 s"] by simp
  moreover have "no_token [CHR 0x80, CHR 0xA6]" by (rule no_token_short) simp
  moreover have "\<not> token_char (CHR 0xE2)" by (simp add: token_char_def)
  ultimately have "no_token (take 200 s @ [CHR 0xE2, CHR 0x80, CHR 0xA6])" by (rule no_token_join)
  with \<open>no_token s\<close> show ?thesis by (simp add: r)
qed

section \<open>Sending\<close>

record ('sk, 's) push_net =
  pn_now :: "'s \<Rightarrow> time"
  pn_key :: "'s \<Rightarrow> 'sk option \<times> 's"
  pn_salt :: "'s \<Rightarrow> byte list option \<times> 's"
  pn_post :: "'s \<Rightarrow> string \<Rightarrow> (string \<times> string) list \<Rightarrow> byte list \<Rightarrow> (transport_error + int \<times> string) \<times> 's"
  pn_reason :: "string \<Rightarrow> (string \<times> string \<times> string option) option"

record 'sk web_push =
  wp_keys :: "'sk vapid_keys"
  wp_sub :: string
  wp_ttl :: duration

definition new_web_push :: "'sk vapid_keys \<Rightarrow> string \<Rightarrow> 'sk web_push" where
  "new_web_push keys subject = \<lparr>wp_keys = keys, wp_sub = subject, wp_ttl = 24 * hour\<rparr>"

definition reason_limit :: nat where "reason_limit = 2 * 1024"

definition push_headers :: "'sk web_push \<Rightarrow> string \<Rightarrow> (string \<times> string) list" where
  "push_headers wp jwt =
     [(''Content-Type'', ''application/octet-stream''), (''Content-Encoding'', ''aes128gcm''),
      (''TTL'', show_int (trunc_secs (wp_ttl wp))), (''Urgency'', ''high''),
      (''Authorization'', ''vapid t='' @ jwt @ '', k='' @ vapid_public_key (wp_keys wp))]"

definition push_payload :: "('pk, 'sk) push_crypto \<Rightarrow> message \<Rightarrow> byte list" where
  "push_payload cr m =
     bytes_of (''{'' @ dquoted ''title'' @ '':'' @ pc_quote cr (mg_title m) @ '','' @ dquoted ''body'' @ '':''
       @ pc_quote cr (mg_text m)
       @ (if mg_device_id m \<noteq> [] then '','' @ dquoted ''tag'' @ '':'' @ pc_quote cr (mg_device_id m) else [])
       @ ''}'')"

definition send_one ::
  "('pk, 'sk) push_crypto \<Rightarrow> go_env \<Rightarrow> ('sk, 's) push_net \<Rightarrow> 'sk web_push \<Rightarrow> byte list \<Rightarrow> pushee \<Rightarrow> 's
     \<Rightarrow> (push_fault + int \<times> string) \<times> 's" where
  "send_one cr e net wp payload sub s =
     (let (k, s) = pn_key net s; (salt, s) = pn_salt net s
      in case encrypt_push cr k salt sub payload of
           Inl f \<Rightarrow> (Inl f, s)
         | Inr body \<Rightarrow>
             (case vapid_jwt cr e (wp_keys wp) (wp_sub wp) (pn_now net s) (pe_endpoint sub) of
                Inl f \<Rightarrow> (Inl f, s)
              | Inr jwt \<Rightarrow>
                  (case pn_post net s (pe_endpoint sub) (push_headers wp jwt) body of
                     (Inl err, s) \<Rightarrow> (Inl (PushTransport (redact_url err)), s)
                   | (Inr (status, raw), s) \<Rightarrow>
                       if status \<ge> 300 then (Inr (status, push_reason (pn_reason net) (take reason_limit raw)), s)
                       else (Inr (status, []), s))))"

section \<open>The report of a fan-out\<close>

datatype push_refusal = Unsent push_fault | Refused int string

record push_report =
  pr_total :: nat
  pr_delivered :: nat
  pr_removed :: nat
  pr_kept :: nat
  pr_failures :: "(string \<times> push_refusal) list"

definition fresh_subscription_grace :: duration where "fresh_subscription_grace = 10 * minute"

definition fresh_subscription :: "time \<Rightarrow> pushee \<Rightarrow> bool" where
  "fresh_subscription now sub \<longleftrightarrow>
     \<not> is_zero_time (pe_created sub) \<and> time_sub now (pe_created sub) < fresh_subscription_grace"

text \<open>One subscription's outcome: what \<open>SendReport\<close> records, and whether it deletes the subscription.\<close>

definition record_outcome ::
  "(string \<Rightarrow> string) \<Rightarrow> pushee \<Rightarrow> (push_fault + int \<times> string) \<Rightarrow> time \<Rightarrow> push_report \<Rightarrow> push_report \<times> bool" where
  "record_outcome origin sub res now r =
     (case res of
        Inl f \<Rightarrow> (r\<lparr>pr_failures := pr_failures r @ [(origin (pe_endpoint sub), Unsent f)]\<rparr>, False)
      | Inr (status, reason) \<Rightarrow>
          if status \<ge> 200 \<and> status < 300 then (r\<lparr>pr_delivered := Suc (pr_delivered r)\<rparr>, False)
          else let r = r\<lparr>pr_failures := pr_failures r @ [(origin (pe_endpoint sub), Refused status reason)]\<rparr>
               in if status \<noteq> 404 \<and> status \<noteq> 410 then (r, False)
                  else if fresh_subscription now sub then (r\<lparr>pr_kept := Suc (pr_kept r)\<rparr>, False)
                  else (r\<lparr>pr_removed := Suc (pr_removed r)\<rparr>, True))"

fun send_each ::
  "(pushee \<Rightarrow> 's \<Rightarrow> (push_fault + int \<times> string) \<times> 's) \<Rightarrow> ('s \<Rightarrow> time) \<Rightarrow> (string \<Rightarrow> string) \<Rightarrow> (string \<Rightarrow> 'w \<Rightarrow> 'w)
     \<Rightarrow> pushee list \<Rightarrow> push_report \<times> 's \<times> 'w \<Rightarrow> push_report \<times> 's \<times> 'w" where
  "send_each send clock origin remove [] st = st"
| "send_each send clock origin remove (sub # rest) (r, s, w) =
     (let (res, s) = send sub s; (r, gone) = record_outcome origin sub res (clock s) r
      in send_each send clock origin remove rest (r, s, if gone then remove (pe_endpoint sub) w else w))"

definition send_report ::
  "(pushee \<Rightarrow> 's \<Rightarrow> (push_fault + int \<times> string) \<times> 's) \<Rightarrow> ('s \<Rightarrow> time) \<Rightarrow> (string \<Rightarrow> string)
     \<Rightarrow> ('w \<Rightarrow> string \<Rightarrow> pushee list) \<Rightarrow> (string \<Rightarrow> 'w \<Rightarrow> 'w) \<Rightarrow> string \<Rightarrow> 's \<Rightarrow> 'w \<Rightarrow> push_report \<times> 's \<times> 'w" where
  "send_report send clock origin subs remove loc s w =
     (let xs = subs w loc
      in send_each send clock origin remove xs
           (\<lparr>pr_total = length xs, pr_delivered = 0, pr_removed = 0, pr_kept = 0, pr_failures = []\<rparr>, s, w))"

datatype push_failure =
  PartlyDelivered nat nat "(string \<times> push_refusal) list" | NotDelivered nat "(string \<times> push_refusal) list"

definition push_verdict :: "push_report \<Rightarrow> push_failure option" where
  "push_verdict r =
     (if pr_total r = 0 \<or> pr_delivered r > 0 \<and> pr_failures r = [] then None
      else if pr_delivered r > 0 then Some (PartlyDelivered (pr_delivered r) (pr_total r) (pr_failures r))
      else Some (NotDelivered (pr_total r) (pr_failures r)))"

section \<open>What a fan-out may delete\<close>

text \<open>The outcomes of a fan-out, one per subscription: the answer and the time it was read.\<close>

fun outcomes ::
  "(pushee \<Rightarrow> 's \<Rightarrow> (push_fault + int \<times> string) \<times> 's) \<Rightarrow> ('s \<Rightarrow> time) \<Rightarrow> pushee list \<Rightarrow> 's
     \<Rightarrow> (pushee \<times> (push_fault + int \<times> string) \<times> time) list" where
  "outcomes send clock [] s = []"
| "outcomes send clock (sub # rest) s =
     (let (res, s') = send sub s in (sub, res, clock s') # outcomes send clock rest s')"

definition reached :: "pushee \<times> (push_fault + int \<times> string) \<times> time \<Rightarrow> bool" where
  "reached out = (case out of (sub, Inr (status, reason), t) \<Rightarrow> 200 \<le> status \<and> status < 300 | _ \<Rightarrow> False)"

definition reported_gone :: "pushee \<times> (push_fault + int \<times> string) \<times> time \<Rightarrow> bool" where
  "reported_gone out = (case out of (sub, Inr (status, reason), t) \<Rightarrow> status = 404 \<or> status = 410 | _ \<Rightarrow> False)"

definition deletable :: "pushee \<times> (push_fault + int \<times> string) \<times> time \<Rightarrow> bool" where
  "deletable out \<longleftrightarrow> reported_gone out \<and> \<not> fresh_subscription (snd (snd out)) (fst out)"

lemmas outcome_defs = reached_def reported_gone_def deletable_def

lemma record_outcome_counts:
  assumes "record_outcome origin sub res now r = (r', gone)"
  shows "pr_total r' = pr_total r"
    and "pr_delivered r' = pr_delivered r + (if reached (sub, res, now) then 1 else 0)"
    and "length (pr_failures r') = length (pr_failures r) + (if reached (sub, res, now) then 0 else 1)"
    and "pr_removed r' = pr_removed r + (if deletable (sub, res, now) then 1 else 0)"
    and "pr_kept r' = pr_kept r + (if reported_gone (sub, res, now) \<and> \<not> deletable (sub, res, now) then 1 else 0)"
    and "gone = deletable (sub, res, now)"
  using assms by (auto simp: record_outcome_def outcome_defs Let_def split: sum.splits prod.splits if_splits)

lemma send_each_counts:
  "send_each send clock origin remove xs (r, s, w) = (r', s', w') \<Longrightarrow>
     (let os = outcomes send clock xs s
      in pr_total r' = pr_total r
        \<and> pr_delivered r' = pr_delivered r + length (filter reached os)
        \<and> length (pr_failures r') = length (pr_failures r) + length (filter (\<lambda>x. \<not> reached x) os)
        \<and> pr_removed r' = pr_removed r + length (filter deletable os)
        \<and> pr_kept r' = pr_kept r + length (filter (\<lambda>x. reported_gone x \<and> \<not> deletable x) os))"
proof (induction xs arbitrary: r s w)
  case (Cons x xs)
  obtain res s1 where 1: "send x s = (res, s1)" by fastforce
  obtain r1 gone where 2: "record_outcome origin x res (clock s1) r = (r1, gone)" by fastforce
  from Cons.prems 1 2 have
    "send_each send clock origin remove xs (r1, s1, if gone then remove (pe_endpoint x) w else w) = (r', s', w')"
    by simp
  from Cons.IH [OF this] record_outcome_counts [OF 2] 1 show ?case by (simp add: Let_def)
qed simp

lemma length_outcomes: "length (outcomes send clock xs s) = length xs"
  by (induction xs arbitrary: s) (simp_all add: split_def Let_def)

text \<open>The report of a fan-out accounts for every subscription of the location: delivered and failed add
  up to the total, every answer of 404 or 410 is either a deletion or a subscription kept because it
  is fresh, and \<open>Send\<close> returns no error exactly when nothing failed.\<close>

lemma push_report_exact:
  assumes "send_report send clock origin subs remove loc s w = (r, s', w')"
  shows "pr_total r = length (subs w loc) \<and> pr_delivered r + length (pr_failures r) = pr_total r
    \<and> pr_removed r + pr_kept r = length (filter reported_gone (outcomes send clock (subs w loc) s))
    \<and> (push_verdict r = None \<longleftrightarrow> pr_failures r = [])"
proof -
  let ?os = "outcomes send clock (subs w loc) s"
  have c: "pr_total r = length (subs w loc)" "pr_delivered r = length (filter reached ?os)"
    "length (pr_failures r) = length (filter (\<lambda>x. \<not> reached x) ?os)"
    "pr_removed r = length (filter deletable ?os)"
    "pr_kept r = length (filter (\<lambda>x. reported_gone x \<and> \<not> deletable x) ?os)"
    using send_each_counts [of send clock origin remove "subs w loc" _ s w r s' w'] assms
    by (simp_all add: send_report_def Let_def)
  have sum: "pr_delivered r + length (pr_failures r) = pr_total r"
    using sum_length_filter_compl [of reached ?os] c by (simp add: length_outcomes)
  moreover have "pr_removed r + pr_kept r = length (filter reported_gone ?os)"
  proof -
    have "filter deletable ?os = filter deletable (filter reported_gone ?os)"
      "filter (\<lambda>x. reported_gone x \<and> \<not> deletable x) ?os = filter (\<lambda>x. \<not> deletable x) (filter reported_gone ?os)"
      by (auto simp: deletable_def intro!: filter_cong)
    then show ?thesis using c(4,5) sum_length_filter_compl [of deletable "filter reported_gone ?os"] by simp
  qed
  moreover have "push_verdict r = None \<longleftrightarrow> pr_failures r = []"
    using sum by (auto simp: push_verdict_def)
  ultimately show ?thesis using c(1) by simp
qed

definition sample_push_world :: "bool \<Rightarrow> string \<Rightarrow> pushee list" where
  "sample_push_world b loc = (if b then [sample_pushee 5, sample_pushee 6] else [])"

text \<open>Where the subscriptions live. Deleting one leaves the others of every location alone; whether the
  deletion itself succeeds is not promised.\<close>

locale subscription_store =
  fixes subs :: "'w \<Rightarrow> string \<Rightarrow> pushee list"
    and remove :: "string \<Rightarrow> 'w \<Rightarrow> 'w"
  assumes others_stay:
    "filter (\<lambda>x. pe_endpoint x \<noteq> ep) (subs (remove ep w) l) = filter (\<lambda>x. pe_endpoint x \<noteq> ep) (subs w l)"
begin

lemma send_each_keeps:
  assumes "send_each send clock origin remove xs (r, s, w) = (r', s', w')"
    and "\<forall>out \<in> set (outcomes send clock xs s). deletable out \<longrightarrow> pe_endpoint (fst out) \<in> gone"
  shows "filter (\<lambda>x. pe_endpoint x \<notin> gone) (subs w' l) = filter (\<lambda>x. pe_endpoint x \<notin> gone) (subs w l)"
  using assms
proof (induction xs arbitrary: r s w)
  case (Cons x xs)
  obtain res s1 where 1: "send x s = (res, s1)" by fastforce
  obtain r1 del where 2: "record_outcome origin x res (clock s1) r = (r1, del)" by fastforce
  let ?w1 = "if del then remove (pe_endpoint x) w else w"
  from Cons.prems(1) 1 2 have "send_each send clock origin remove xs (r1, s1, ?w1) = (r', s', w')" by simp
  from Cons.IH [OF this] Cons.prems(2) 1
  have "filter (\<lambda>x. pe_endpoint x \<notin> gone) (subs w' l) = filter (\<lambda>x. pe_endpoint x \<notin> gone) (subs ?w1 l)" by simp
  also have "\<dots> = filter (\<lambda>x. pe_endpoint x \<notin> gone) (subs w l)"
  proof (cases del)
    case True
    then have "pe_endpoint x \<in> gone"
      using record_outcome_counts(6) [OF 2] Cons.prems(2) 1 by simp
    then have drop: "filter (\<lambda>x. pe_endpoint x \<notin> gone) ys
        = filter (\<lambda>x. pe_endpoint x \<notin> gone) (filter (\<lambda>y. pe_endpoint y \<noteq> pe_endpoint x) ys)" for ys
      by (auto intro!: filter_cong)
    from True show ?thesis
      using others_stay [of "pe_endpoint x" w l] drop [of "subs (remove (pe_endpoint x) w) l"] drop [of "subs w l"]
      by simp
  qed simp
  finally show ?case .
qed simp

text \<open>A fan-out deletes no subscription but those reported gone when they were no longer fresh.\<close>

lemma report_keeps:
  assumes "send_report send clock origin subs remove loc s w = (r, s', w')"
    and "x \<in> set (subs w l)"
    and "\<forall>out \<in> set (outcomes send clock (subs w loc) s). deletable out \<longrightarrow> pe_endpoint (fst out) \<noteq> pe_endpoint x"
  shows "x \<in> set (subs w' l)"
proof -
  let ?gone = "(\<lambda>out. pe_endpoint (fst out)) ` {out \<in> set (outcomes send clock (subs w loc) s). deletable out}"
  have "x \<in> set (filter (\<lambda>x. pe_endpoint x \<notin> ?gone) (subs w l))" using assms(2,3) by auto
  also have "filter (\<lambda>x. pe_endpoint x \<notin> ?gone) (subs w l) = filter (\<lambda>x. pe_endpoint x \<notin> ?gone) (subs w' l)"
    by (rule send_each_keeps [OF assms(1) [unfolded send_report_def Let_def], symmetric]) blast
  finally show ?thesis by simp
qed

end

end
