(* ===== verification/Auth.thy ===== *)
theory Auth
  imports WebPush
begin

text \<open>
  Accounts and sessions: \<open>internal/auth\<close>. SHA-256 and HMAC-SHA1 are parameters, as are the random
  bytes of a token. The session file is a copy of the session table (its JSON is left out). The
  lemmas give the login decision, the tolerance of a one-time code, and the laws of the session
  table; the locale \<open>session_service\<close> is what the login handlers rely on.
\<close>

section \<open>Roles\<close>

definition role_rank :: "string \<Rightarrow> nat" where
  "role_rank r = (if r = ''viewer'' then 1 else if r = ''manager'' then 2 else if r = ''admin'' then 3 else 0)"

definition satisfies :: "string \<Rightarrow> string \<Rightarrow> bool" where
  "satisfies r required \<longleftrightarrow> role_rank r \<ge> role_rank required"

lemma satisfies_trans: "satisfies a b \<Longrightarrow> satisfies b c \<Longrightarrow> satisfies a c"
  by (simp add: satisfies_def)

lemma satisfies_known: "satisfies r ''viewer'' \<Longrightarrow> r \<in> {''viewer'', ''manager'', ''admin''}"
  by (auto simp: satisfies_def role_rank_def split: if_splits)

lemma satisfies_admin: "satisfies r ''admin'' \<longleftrightarrow> r = ''admin''"
  by (auto simp: satisfies_def role_rank_def split: if_splits)

section \<open>The login directory\<close>

record entry =
  en_username :: string
  en_password_sha256 :: string
  en_role :: string
  en_must_change :: bool
  en_totp :: bool

record entry_hash =
  eh_hash :: "byte list"
  eh_role :: string
  eh_must_change :: bool
  eh_totp :: bool

type_synonym directory = "string \<Rightarrow> entry_hash option"

definition decode_hash :: "string \<Rightarrow> byte list option" where
  "decode_hash h = (case hex_decode h of Some b \<Rightarrow> if length b = 32 then Some b else None | None \<Rightarrow> None)"

definition add_entry :: "directory \<Rightarrow> entry \<Rightarrow> directory" where
  "add_entry m e =
     (case decode_hash (en_password_sha256 e) of
        Some b \<Rightarrow> m(to_lower (en_username e) \<mapsto> \<lparr>eh_hash = b, eh_role = en_role e,
                     eh_must_change = en_must_change e, eh_totp = en_totp e\<rparr>)
      | None \<Rightarrow> m)"

definition new_directory :: "entry list \<Rightarrow> directory" where
  "new_directory es = foldl add_entry Map.empty es"

record verify_result =
  vr_role :: string
  vr_must_change :: bool
  vr_totp :: bool

definition verify :: "(string \<Rightarrow> byte list) \<Rightarrow> directory \<Rightarrow> string \<Rightarrow> string \<Rightarrow> verify_result option" where
  "verify sha d username password =
     (case d (to_lower username) of
        None \<Rightarrow> None
      | Some e \<Rightarrow>
          if sha password \<noteq> eh_hash e then None
          else Some \<lparr>vr_role = eh_role e, vr_must_change = eh_must_change e, vr_totp = eh_totp e\<rparr>)"

lemma foldl_add_entry:
  "foldl add_entry m es k =
     (case find_first (\<lambda>e. to_lower (en_username e) = k \<and> decode_hash (en_password_sha256 e) \<noteq> None) (rev es) of
        Some e \<Rightarrow> Some \<lparr>eh_hash = the (decode_hash (en_password_sha256 e)), eh_role = en_role e,
                     eh_must_change = en_must_change e, eh_totp = en_totp e\<rparr>
      | None \<Rightarrow> m k)"
proof (induction es rule: rev_induct)
  case (snoc e es)
  then show ?case
    by (cases "decode_hash (en_password_sha256 e)"; cases "to_lower (en_username e) = k") (simp_all add: add_entry_def)
qed simp

text \<open>With usernames that differ up to case, as \<open>Validate\<close> enforces, an account's own entry decides.\<close>

lemma directory_lookup:
  assumes "distinct (map (to_lower \<circ> en_username) es)" "e \<in> set es" "to_lower u = to_lower (en_username e)"
    and "decode_hash (en_password_sha256 e) = Some b"
  shows "new_directory es (to_lower u) = Some \<lparr>eh_hash = b, eh_role = en_role e,
           eh_must_change = en_must_change e, eh_totp = en_totp e\<rparr>"
proof -
  let ?P = "\<lambda>x. to_lower (en_username x) = to_lower u \<and> decode_hash (en_password_sha256 x) \<noteq> None"
  have "?P e" using assms(3,4) by simp
  then obtain x where x: "find_first ?P (rev es) = Some x"
    using assms(2) find_first_None [of ?P "rev es"] by (cases "find_first ?P (rev es)") auto
  then have "?P x" "x \<in> set es" using find_first_Some [OF x] by simp_all
  then have "x = e" using assms(1-3) by (auto simp: distinct_map inj_on_def)
  then show ?thesis using x assms(4) by (simp add: new_directory_def foldl_add_entry)
qed

lemma verify_unknown: "\<forall>e \<in> set es. to_lower (en_username e) \<noteq> to_lower u \<Longrightarrow> verify sha (new_directory es) u p = None"
proof -
  assume "\<forall>e \<in> set es. to_lower (en_username e) \<noteq> to_lower u"
  then have "find_first (\<lambda>e. to_lower (en_username e) = to_lower u \<and> decode_hash (en_password_sha256 e) \<noteq> None) (rev es) = None"
    by simp
  then have "new_directory es (to_lower u) = None" by (simp only: new_directory_def foldl_add_entry option.case)
  then show ?thesis by (simp add: verify_def)
qed

section \<open>Base 32\<close>

text \<open>Bit lists, the most significant bit first.\<close>

primrec bits_of_nat :: "nat \<Rightarrow> nat \<Rightarrow> bool list" where
  "bits_of_nat 0 x = []"
| "bits_of_nat (Suc w) x = bits_of_nat w (x div 2) @ [odd x]"

definition nat_of_bits :: "bool list \<Rightarrow> nat" where
  "nat_of_bits bs = foldl (\<lambda>n b. 2 * n + (if b then 1 else 0)) 0 bs"

lemma length_bits [simp]: "length (bits_of_nat w x) = w"
  by (induction w arbitrary: x) simp_all

lemma nat_of_bits_snoc: "nat_of_bits (bs @ [b]) = 2 * nat_of_bits bs + (if b then 1 else 0)"
  by (simp add: nat_of_bits_def)

lemma nat_of_bits_of_nat: "x < 2 ^ w \<Longrightarrow> nat_of_bits (bits_of_nat w x) = x"
proof (induction w arbitrary: x)
  case (Suc w)
  then have "nat_of_bits (bits_of_nat w (x div 2)) = x div 2" by simp
  then show ?case by (simp add: nat_of_bits_snoc)
qed (simp add: nat_of_bits_def)

lemma bits_of_nat_of_bits: "bits_of_nat (length bs) (nat_of_bits bs) = bs"
  by (induction bs rule: rev_induct) (simp_all add: nat_of_bits_snoc)

lemma nat_of_bits_less: "nat_of_bits bs < 2 ^ length bs"
  by (induction bs rule: rev_induct) (auto simp: nat_of_bits_def)

function chunks :: "nat \<Rightarrow> 'a list \<Rightarrow> 'a list list" where
  "chunks k xs = (if k = 0 \<or> length xs < k then [] else take k xs # chunks k (drop k xs))"
  by pat_completeness auto
termination by (relation "measure (\<lambda>(k, xs). length xs)") auto

declare chunks.simps [simp del]

lemma chunks_append: "0 < k \<Longrightarrow> length a = k \<Longrightarrow> chunks k (a @ xs) = a # chunks k xs"
  by (subst chunks.simps) simp

lemma chunks_short: "length xs < k \<Longrightarrow> chunks k xs = []"
  by (subst chunks.simps) simp

lemma chunks_concat: "0 < k \<Longrightarrow> \<forall>x \<in> set xss. length x = k \<Longrightarrow> length ys < k \<Longrightarrow> chunks k (concat xss @ ys) = xss"
  by (induction xss) (simp_all add: chunks_append chunks_short)

lemma concat_chunks: "0 < k \<Longrightarrow> k dvd length xs \<Longrightarrow> concat (chunks k xs) = xs"
proof (induction k xs rule: chunks.induct)
  case (1 k xs)
  show ?case
  proof (cases "length xs < k")
    case True
    with 1(2,3) have "xs = []" by (auto dest: dvd_imp_le)
    with 1(2) show ?thesis by (subst chunks.simps) simp
  next
    case False
    with 1 have "concat (chunks k (drop k xs)) = drop k xs" by (simp add: dvd_diff_nat)
    with False 1(2) show ?thesis by (subst chunks.simps) simp
  qed
qed

lemma chunks_length: "c \<in> set (chunks k xs) \<Longrightarrow> length c = k"
  by (induction k xs rule: chunks.induct) (subst (asm) chunks.simps, auto split: if_splits)

lemma length_concat_same: "(\<And>c. c \<in> set cs \<Longrightarrow> length c = k) \<Longrightarrow> length (concat cs) = length cs * k"
  by (induction cs) auto

definition b32_digit :: "nat \<Rightarrow> char" where
  "b32_digit n = (if n < 26 then char_of (65 + n) else char_of (24 + n))"

definition b32_val :: "char \<Rightarrow> nat option" where
  "b32_val c = (let n = of_char c :: nat in
     if 65 \<le> n \<and> n \<le> 90 then Some (n - 65) else if 50 \<le> n \<and> n \<le> 55 then Some (n - 24) else None)"

text \<open>\<open>base32NoPad\<close>: whole groups of five bytes only are encoded here, which is all the program does.\<close>

definition b32_encode :: "byte list \<Rightarrow> string" where
  "b32_encode bs = map (b32_digit \<circ> nat_of_bits) (chunks 5 (concat (map (\<lambda>b. bits_of_nat 8 (unat b)) bs)))"

definition b32_decode :: "string \<Rightarrow> byte list option" where
  "b32_decode s =
     (let vs = map b32_val (filter (\<lambda>c. c \<noteq> CHR 0x0A \<and> c \<noteq> CHR 0x0D) s)
      in if None \<in> set vs \<or> length vs mod 8 \<in> {1, 3, 6} then None
         else Some (map (of_nat \<circ> nat_of_bits) (chunks 8 (concat (map (bits_of_nat 5 \<circ> the) vs)))))"

lemma b32_val_digit: "n < 32 \<Longrightarrow> b32_val (b32_digit n) = Some n \<and> b32_digit n \<notin> {CHR 0x0A, CHR 0x0D}"
  by (auto simp: b32_digit_def b32_val_def Let_def char_of_eq)

lemma b32_encode_decode:
  assumes "5 dvd length bs"
  shows "b32_decode (b32_encode bs) = Some bs"
proof -
  let ?B = "concat (map (\<lambda>b. bits_of_nat 8 (unat b)) bs)"
  let ?C = "chunks 5 ?B"
  have len: "length ?B = 8 * length bs" by (simp add: length_concat comp_def sum_list_triv)
  have c5: "c \<in> set ?C \<Longrightarrow> length c = 5" for c by (rule chunks_length)
  then have lt: "c \<in> set ?C \<Longrightarrow> nat_of_bits c < 32" for c using nat_of_bits_less [of c] by simp
  have dig: "c \<in> set ?C \<Longrightarrow> b32_val (b32_digit (nat_of_bits c)) = Some (nat_of_bits c)
      \<and> b32_digit (nat_of_bits c) \<notin> {CHR 0x0A, CHR 0x0D}" for c
    using lt b32_val_digit by blast
  have f: "filter (\<lambda>c. c \<noteq> CHR 0x0A \<and> c \<noteq> CHR 0x0D) (b32_encode bs) = b32_encode bs"
    by (rule filter_True) (use dig in \<open>fastforce simp: b32_encode_def\<close>)
  have v: "map b32_val (b32_encode bs) = map (Some \<circ> nat_of_bits) ?C"
    using dig by (simp add: b32_encode_def)
  have "bits_of_nat 5 (nat_of_bits c) = c" if "c \<in> set ?C" for c
    using bits_of_nat_of_bits [of c] c5 [OF that] by simp
  then have bits: "map (bits_of_nat 5 \<circ> the \<circ> (Some \<circ> nat_of_bits)) ?C = ?C"
    by (simp add: map_idI)
  have "5 dvd length ?B" using assms len by simp
  then have cc: "concat ?C = ?B" by (intro concat_chunks) simp_all
  have "length ?C * 5 = length (concat ?C)" using c5 by (rule length_concat_same [symmetric])
  moreover obtain m where "length bs = 5 * m" using assms by (rule dvdE)
  ultimately have l8: "length ?C mod 8 = 0" using cc len by simp
  have "chunks 8 ?B = map (\<lambda>b. bits_of_nat 8 (unat b)) bs"
    using chunks_concat [of 8 "map (\<lambda>b. bits_of_nat 8 (unat b)) bs" "[]"] by simp
  then have "map (of_nat \<circ> nat_of_bits) (chunks 8 ?B) = bs"
    using byte_less by (simp add: comp_def nat_of_bits_of_nat)
  then show ?thesis
    using l8 by (simp add: b32_decode_def Let_def f v bits cc) auto
qed

section \<open>One-time codes\<close>

definition totp_step :: duration where "totp_step = 30 * second"

definition be64 :: "64 word \<Rightarrow> byte list" where
  "be64 w = map (\<lambda>i. ucast (drop_bit (8 * i) w)) (rev [0..<8])"

definition of_be32 :: "byte list \<Rightarrow> 32 word" where "of_be32 bs = of_le32 (rev bs)"

definition char_upper :: "char \<Rightarrow> char" where
  "char_upper c = (let n = of_char c :: nat in if 97 \<le> n \<and> n \<le> 122 then char_of (n - 32) else c)"

definition six_digits :: "nat \<Rightarrow> string" where
  "six_digits n = (let s = show_nat n in replicate (6 - length s) (CHR ''0'') @ s)"

definition totp_counter :: "time \<Rightarrow> 64 word" where
  "totp_counter t = (word_of_int (unix t) :: 64 word) div 30"

unbundle bit_operations_syntax

definition hotp :: "(byte list \<Rightarrow> byte list \<Rightarrow> byte list) \<Rightarrow> byte list \<Rightarrow> 64 word \<Rightarrow> string" where
  "hotp hmac k counter =
     (let sum = hmac k (be64 counter);
          offset = unat (last sum AND 0x0F);
          code = unat (of_be32 (take 4 (drop offset sum)) AND 0x7FFFFFFF) mod 1000000
      in six_digits code)"

definition totp_code :: "(byte list \<Rightarrow> byte list \<Rightarrow> byte list) \<Rightarrow> string \<Rightarrow> time \<Rightarrow> string option" where
  "totp_code hmac secret t =
     (case b32_decode (map char_upper secret) of
        None \<Rightarrow> None
      | Some k \<Rightarrow> Some (hotp hmac k (totp_counter t)))"

fun verify_skews :: "(byte list \<Rightarrow> byte list \<Rightarrow> byte list) \<Rightarrow> string \<Rightarrow> string \<Rightarrow> time \<Rightarrow> int list \<Rightarrow> bool" where
  "verify_skews hmac secret code now [] = False"
| "verify_skews hmac secret code now (k # ks) =
     (case totp_code hmac secret (now + k * totp_step) of
        None \<Rightarrow> False
      | Some want \<Rightarrow> if want = code then True else verify_skews hmac secret code now ks)"

definition verify_totp :: "(byte list \<Rightarrow> byte list \<Rightarrow> byte list) \<Rightarrow> string \<Rightarrow> string \<Rightarrow> time \<Rightarrow> bool" where
  "verify_totp hmac secret code now = verify_skews hmac secret code now [0, - 1, 1]"

definition totp_uri :: "string \<Rightarrow> string \<Rightarrow> string \<Rightarrow> string" where
  "totp_uri issuer account secret =
     ''otpauth://totp/'' @ issuer @ '':'' @ account @ ''?secret='' @ secret @ ''&issuer='' @ issuer @ ''&digits=6&period=30''"

definition new_totp_secret :: "byte list \<Rightarrow> string" where
  "new_totp_secret random = b32_encode random"

lemma totp_code_cong: "totp_counter t = totp_counter t' \<Longrightarrow> totp_code hmac secret t = totp_code hmac secret t'"
  by (simp only: totp_code_def)

lemma totp_decodes: "totp_code hmac secret t = None \<longleftrightarrow> b32_decode (map char_upper secret) = None"
  by (simp add: totp_code_def split: option.splits)

lemma verify_totp_iff:
  "verify_totp hmac secret code now \<longleftrightarrow> (\<exists>k \<in> {- 1, 0, 1}. totp_code hmac secret (now + k * totp_step) = Some code)"
  by (cases "b32_decode (map char_upper secret)") (auto simp: verify_totp_def totp_code_def)

lemma unix_shift: "unix (t + k * totp_step) = unix t + 30 * k"
proof -
  have "k * totp_step = (30 * k) * second" by (simp add: totp_step_def)
  then have "(t + k * totp_step) div second = (t + (30 * k) * second) div second" by (simp only:)
  moreover have "(t + (30 * k) * second) div second = 30 * k + t div second"
    by (rule div_mult_self1) (simp add: second_def)
  ultimately show ?thesis by (simp add: unix_def)
qed

lemma totp_counter_nat:
  "0 \<le> unix t \<Longrightarrow> unix t < 2 ^ 64 \<Longrightarrow> uint (totp_counter t) = unix t div 30"
  by (simp add: totp_counter_def uint_div_distrib uint_word_of_int take_bit_int_eq_self)

lemma char_upper_b32: "n < 32 \<Longrightarrow> char_upper (b32_digit n) = b32_digit n"
  by (auto simp: char_upper_def b32_digit_def Let_def)

text \<open>The secret of an enrolment decodes to the random bytes it was made of.\<close>

lemma new_totp_secret_decodes:
  assumes "length random = 20"
  shows "b32_decode (map char_upper (new_totp_secret random)) = Some random"
proof -
  have "map char_upper (b32_encode random) = b32_encode random"
  proof -
    have "char_upper (b32_digit (nat_of_bits c)) = b32_digit (nat_of_bits c)" if "length c = 5" for c
      using nat_of_bits_less [of c] that by (intro char_upper_b32) simp
    then show ?thesis by (simp add: b32_encode_def chunks_length)
  qed
  then show ?thesis using b32_encode_decode [of random] assms by (simp add: new_totp_secret_def)
qed

text \<open>A code made by an authenticator whose clock is within thirty seconds of the broker's is accepted,
  whatever the instants; a code that is accepted is the one of an instant at most one step away.\<close>

lemma totp_tolerates_drift:
  assumes "totp_code hmac secret t = Some code" "\<bar>now - t\<bar> \<le> totp_step"
    and "30 \<le> unix t" "30 \<le> unix now" "unix t + 30 < 2 ^ 64" "unix now + 30 < 2 ^ 64"
  shows "verify_totp hmac secret code now"
proof -
  let ?a = "unix t div 30" and ?b = "unix now div 30"
  have "t div second \<le> now div second + 30" "now div second \<le> t div second + 30"
  proof -
    have "t \<le> now + second * 30" "now \<le> t + second * 30" using assms(2) by (auto simp: totp_step_def)
    then have "t div second \<le> (now + second * 30) div second" "now div second \<le> (t + second * 30) div second"
      by (auto intro!: zdiv_mono1 simp: second_def)
    then show "t div second \<le> now div second + 30" "now div second \<le> t div second + 30" by (simp_all add: second_def)
  qed
  then have "unix t \<le> unix now + 30" "unix now \<le> unix t + 30" by (simp_all add: unix_def)
  then have "?a = ?b + - 1 \<or> ?a = ?b \<or> ?a = ?b + 1" by linarith
  then obtain k where k: "k \<in> {- 1, 0, 1}" "?a = ?b + k" by auto
  have "unix (now + k * totp_step) div 30 = ?b + k" by (simp add: unix_shift)
  then have "uint (totp_counter (now + k * totp_step)) = uint (totp_counter t)"
    using k assms(3-6) by (subst (1 2) totp_counter_nat) (auto simp: unix_shift)
  then have "totp_code hmac secret (now + k * totp_step) = Some code"
    using totp_code_cong [of "now + k * totp_step" t hmac secret] assms(1) by (simp only: word_uint_eq_iff)
  with k(1) show ?thesis unfolding verify_totp_iff by blast
qed

section \<open>Sessions\<close>

record session_flags =
  sf_must_change :: bool
  sf_pending_2fa :: bool

record session_entry =
  se_role :: string
  se_username :: string
  se_flags :: session_flags
  se_expires :: time

record session =
  sn_role :: string
  sn_username :: string
  sn_flags :: session_flags

text \<open>The table, its file (present when the store is persisted and was written) and whether writes
  succeed at the moment.\<close>

record session_store =
  ss_m :: "string \<Rightarrow> session_entry option"
  ss_ttl :: duration
  ss_path :: string
  ss_file :: "(string \<Rightarrow> session_entry option) option"
  ss_writable :: bool

definition session_key :: "(string \<Rightarrow> byte list) \<Rightarrow> string \<Rightarrow> string" where
  "session_key sha token = hex_encode (sha token)"

definition new_session_store :: "duration \<Rightarrow> session_store" where
  "new_session_store ttl =
     \<lparr>ss_m = Map.empty, ss_ttl = ttl, ss_path = [], ss_file = None, ss_writable = True\<rparr>"

definition save_locked :: "time \<Rightarrow> session_store \<Rightarrow> session_store" where
  "save_locked now s =
     (if ss_path s = [] then s
      else let live = map_keep (\<lambda>e. now < se_expires e) (ss_m s)
           in s\<lparr>ss_m := live, ss_file := (if ss_writable s then Some live else ss_file s)\<rparr>)"

definition new_token :: "byte list \<Rightarrow> string" where "new_token random = b64url_encode random"

definition create_session ::
  "(string \<Rightarrow> byte list) \<Rightarrow> time \<Rightarrow> string \<Rightarrow> string \<Rightarrow> string \<Rightarrow> session_flags \<Rightarrow> session_store \<Rightarrow> session_store" where
  "create_session sha now token role username flags s =
     save_locked now (s\<lparr>ss_m := (ss_m s)(session_key sha token \<mapsto>
       \<lparr>se_role = role, se_username = username, se_flags = flags, se_expires = now + ss_ttl s\<rparr>)\<rparr>)"

definition revoke_session :: "(string \<Rightarrow> byte list) \<Rightarrow> time \<Rightarrow> string \<Rightarrow> session_store \<Rightarrow> session_store" where
  "revoke_session sha now token s = save_locked now (s\<lparr>ss_m := (ss_m s)(session_key sha token := None)\<rparr>)"

definition check_session ::
  "(string \<Rightarrow> byte list) \<Rightarrow> time \<Rightarrow> string \<Rightarrow> session_store \<Rightarrow> session option \<times> session_store" where
  "check_session sha now token s =
     (case ss_m s (session_key sha token) of
        None \<Rightarrow> (None, s)
      | Some e \<Rightarrow>
          if now > se_expires e then (None, revoke_session sha now token s)
          else (Some \<lparr>sn_role = se_role e, sn_username = se_username e, sn_flags = se_flags e\<rparr>, s))"

definition revoke_by_username :: "time \<Rightarrow> string \<Rightarrow> session_store \<Rightarrow> session_store" where
  "revoke_by_username now username s =
     save_locked now (s\<lparr>ss_m := map_keep (\<lambda>e. \<not> equal_fold (se_username e) username) (ss_m s)\<rparr>)"

datatype session_load_error = SessionReadError | SessionFileUnusable

datatype session_file = NoSessionFile | UnreadableSessionFile | GarbledSessionFile
  | SessionFile int "(string \<times> session_entry) list"

definition load_entry :: "time \<Rightarrow> (string \<Rightarrow> session_entry option) \<Rightarrow> string \<times> session_entry
    \<Rightarrow> (string \<Rightarrow> session_entry option)" where
  "load_entry now m kv = (if fst kv = [] \<or> \<not> now < se_expires (snd kv) then m else m(fst kv \<mapsto> snd kv))"

definition persist_sessions ::
  "time \<Rightarrow> string \<Rightarrow> session_file \<Rightarrow> session_store \<Rightarrow> session_load_error option \<times> session_store" where
  "persist_sessions now path f s =
     (let s = s\<lparr>ss_path := path\<rparr>
      in case f of
           NoSessionFile \<Rightarrow> (None, s)
         | UnreadableSessionFile \<Rightarrow> (Some SessionReadError, s)
         | GarbledSessionFile \<Rightarrow> (Some SessionFileUnusable, s)
         | SessionFile v es \<Rightarrow>
             (if v \<noteq> 1 then (Some SessionFileUnusable, s)
              else (None, s\<lparr>ss_m := foldl (load_entry now) (ss_m s) es\<rparr>)))"

section \<open>What a session service promises\<close>

text \<open>The session a token stands for at an instant.\<close>

definition alive :: "(string \<Rightarrow> byte list) \<Rightarrow> session_store \<Rightarrow> time \<Rightarrow> string \<Rightarrow> session option" where
  "alive sha s now token =
     (case ss_m s (session_key sha token) of
        None \<Rightarrow> None
      | Some e \<Rightarrow> if now > se_expires e then None
                  else Some \<lparr>sn_role = se_role e, sn_username = se_username e, sn_flags = se_flags e\<rparr>)"

lemma fst_check_session [simp]: "fst (check_session sha now token s) = alive sha s now token"
  by (auto simp: check_session_def alive_def split: option.splits)

lemma save_locked_alive:
  "now' > now \<Longrightarrow> alive sha (save_locked now s) now' token = alive sha s now' token"
  "alive sha (save_locked now s) now' token = Some x \<Longrightarrow> alive sha s now' token = Some x"
  by (auto simp: alive_def save_locked_def map_keep_def Let_def split: option.splits if_splits)

text \<open>The service as the handlers see it. Two laws name an instant \<open>now\<close> of the operation and a later one
  \<open>then\<close>: a save may drop the sessions that have expired by \<open>now\<close>.\<close>

locale session_service =
  fixes who :: "'s \<Rightarrow> time \<Rightarrow> string \<Rightarrow> session option"
    and create :: "time \<Rightarrow> string \<Rightarrow> string \<Rightarrow> string \<Rightarrow> session_flags \<Rightarrow> 's \<Rightarrow> 's"
    and revoke :: "time \<Rightarrow> string \<Rightarrow> 's \<Rightarrow> 's"
    and revoke_user :: "time \<Rightarrow> string \<Rightarrow> 's \<Rightarrow> 's"
    and same :: "string \<Rightarrow> string \<Rightarrow> bool"
    and lifetime :: "'s \<Rightarrow> duration"
  assumes created: "now < later \<Longrightarrow> later \<le> now + lifetime s \<Longrightarrow>
      who (create now t role user flags s) later t = Some \<lparr>sn_role = role, sn_username = user, sn_flags = flags\<rparr>"
    and created_same: "same t t' \<Longrightarrow> who (create now t role user flags s) later t' = Some x \<Longrightarrow>
      x = \<lparr>sn_role = role, sn_username = user, sn_flags = flags\<rparr>"
    and create_others: "\<not> same t t' \<Longrightarrow> who (create now t role user flags s) later t' = Some x \<Longrightarrow> who s later t' = Some x"
    and revoked: "who (revoke now t s) later t = None"
    and revoke_others: "who (revoke now t s) later t' = Some x \<Longrightarrow> who s later t' = Some x"
    and user_revoked: "who (revoke_user now u s) later t = Some x \<Longrightarrow>
      \<not> equal_fold (sn_username x) u \<and> who s later t = Some x"
begin

text \<open>Exchanging a session for another one: the old token is dead, the new one stands for the new session,
  and no other token gains anything.\<close>

definition reissue :: "time \<Rightarrow> string \<Rightarrow> string \<Rightarrow> string \<Rightarrow> string \<Rightarrow> session_flags \<Rightarrow> 's \<Rightarrow> 's" where
  "reissue now old t role user flags s = create now t role user flags (revoke now old s)"

lemma reissue_gains_nothing:
  assumes "who (reissue now old t role user flags s) later t' = Some x"
  shows "who s later t' = Some x \<or> same t t' \<and> x = \<lparr>sn_role = role, sn_username = user, sn_flags = flags\<rparr>"
proof (cases "same t t'")
  case True
  with created_same [OF True assms [unfolded reissue_def]] show ?thesis by simp
next
  case False
  from revoke_others [OF create_others [OF False assms [unfolded reissue_def]]] show ?thesis by simp
qed

lemma reissue_old_dead: "\<not> same t old \<Longrightarrow> who (reissue now old t role user flags s) later old = None"
  using create_others [of t old now role user flags "revoke now old s" later] revoked [of now old s later]
  by (cases "who (reissue now old t role user flags s) later old") (auto simp: reissue_def)

end

lemma create_alive:
  "now < later \<Longrightarrow> later \<le> now + ss_ttl s \<Longrightarrow>
     alive sha (create_session sha now t role user flags s) later t = Some \<lparr>sn_role = role, sn_username = user, sn_flags = flags\<rparr>"
  unfolding create_session_def by (simp add: save_locked_alive(1)) (simp add: alive_def)

lemma create_alive_cases:
  assumes "alive sha (create_session sha now t role user flags s) later t' = Some x"
  shows "if session_key sha t = session_key sha t'
    then x = \<lparr>sn_role = role, sn_username = user, sn_flags = flags\<rparr> else alive sha s later t' = Some x"
  using save_locked_alive(2) [OF assms [unfolded create_session_def]] by (auto simp: alive_def split: if_splits)

lemma revoke_alive:
  "alive sha (revoke_session sha now t s) later t = None"
  "alive sha (revoke_session sha now t s) later t' = Some x \<Longrightarrow> alive sha s later t' = Some x"
proof -
  let ?s = "s\<lparr>ss_m := (ss_m s)(session_key sha t := None)\<rparr>"
  have cut: "alive sha ?s later t = None" "alive sha ?s later t' = Some x \<Longrightarrow> alive sha s later t' = Some x"
    by (auto simp: alive_def split: if_splits)
  then show "alive sha (revoke_session sha now t s) later t = None"
    using save_locked_alive(2) [of sha now ?s later t]
    by (cases "alive sha (revoke_session sha now t s) later t") (auto simp: revoke_session_def)
  show "alive sha (revoke_session sha now t s) later t' = Some x \<Longrightarrow> alive sha s later t' = Some x"
    using save_locked_alive(2) [of sha now ?s later t'] cut(2) by (simp add: revoke_session_def)
qed

lemma revoke_user_alive:
  assumes "alive sha (revoke_by_username now u s) later t = Some x"
  shows "\<not> equal_fold (sn_username x) u \<and> alive sha s later t = Some x"
  using save_locked_alive(2) [OF assms [unfolded revoke_by_username_def]]
  by (auto simp: alive_def map_keep_def split: option.splits if_splits)

interpretation sessions: session_service "alive sha" "create_session sha" "revoke_session sha" revoke_by_username
    "\<lambda>t t'. session_key sha t = session_key sha t'" ss_ttl
  for sha
proof (unfold_locales, goal_cases)
  case 1 then show ?case by (rule create_alive)
next
  case 2 then show ?case using create_alive_cases [OF 2(2)] by simp
next
  case 3 then show ?case using create_alive_cases [OF 3(2)] by simp
next
  case 4 show ?case by (rule revoke_alive)
next
  case 5 then show ?case by (rule revoke_alive)
next
  case 6 then show ?case by (rule revoke_user_alive)
qed

section \<open>A restart\<close>

lemma foldl_load_entry:
  "distinct (map fst es) \<Longrightarrow> foldl (load_entry now) m es k =
     (case map_of es k of Some e \<Rightarrow> if k \<noteq> [] \<and> now < se_expires e then Some e else m k | None \<Rightarrow> m k)"
proof (induction es arbitrary: m)
  case (Cons kv es)
  obtain k' e where kv: "kv = (k', e)" by fastforce
  with Cons.prems have "k = k' \<Longrightarrow> map_of es k = None" by (auto simp: map_of_eq_None_iff)
  then show ?case using Cons kv by (auto simp: load_entry_def split: option.splits)
qed simp



end
