(* ===== verification/ConfigWrite.thy ===== *)
theory ConfigWrite
  imports ConfigLoad ConfigStore Auth
begin

text \<open>
  The write path of the configuration: \<open>internal/server/configwrite.go\<close>, with \<open>config.Live\<close> and the
  caches of \<open>refreshDerived\<close> (\<open>server.go\<close>, \<open>auth.go\<close>). Every admin and manager save goes through
  \<open>applyConfig\<close>, which is atomic under its mutex; the load of the configuration that is edited is
  not. The lemmas show what success and failure of a save mean for the live configuration and for
  a restart, and what two interleaved saves do to each other.
\<close>

section \<open>State\<close>

datatype apply_error = MarshalFailed string | SaveFailed string string string

record persist_state =
  pt_mode :: string
  pt_target :: string
  pt_durable :: bool
  pt_last_err :: "apply_error option"
  pt_last_err_at :: time
  pt_last_ok_at :: time

record derived =
  dv_names :: "string \<Rightarrow> string option"
  dv_auth :: "string \<Rightarrow> byte list option"
  dv_directory :: directory

text \<open>What does not change while the broker runs: the backend and the outside world's answers.\<close>

record 'k app_env =
  ae_go :: go_env
  ae_sha :: "string \<Rightarrow> byte list"
  ae_store :: store
  ae_io :: "'k store_env"
  ae_marshal :: "config \<Rightarrow> string option"
  ae_keys :: "config \<Rightarrow> string list"

record 'k core =
  co_cfg :: config
  co_derived :: derived
  co_pstate :: persist_state
  co_world :: "'k store_world"

section \<open>The caches\<close>

definition new_device_auth :: "config \<Rightarrow> string \<Rightarrow> byte list option" where
  "new_device_auth c =
     foldl (\<lambda>m r. case decode_hash (rm_token_sha256 r) of Some b \<Rightarrow> m(rm_device_id r \<mapsto> b) | None \<Rightarrow> m)
       Map.empty (cf_rooms c)"

definition device_names :: "config \<Rightarrow> string \<Rightarrow> string option" where
  "device_names c = foldl (\<lambda>m r. m(rm_device_id r \<mapsto> rm_name r)) Map.empty (cf_rooms c)"

definition entry_of_user :: "user \<Rightarrow> entry" where
  "entry_of_user u = \<lparr>en_username = us_username u, en_password_sha256 = us_password_sha256 u, en_role = us_role u,
     en_must_change = us_must_change u, en_totp = (us_totp_secret u \<noteq> [])\<rparr>"

definition refresh_derived :: "config \<Rightarrow> derived" where
  "refresh_derived c = \<lparr>dv_names = device_names c, dv_auth = new_device_auth c,
     dv_directory = new_directory (map entry_of_user (cf_users c))\<rparr>"

text \<open>The caches read nothing of a configuration but its rooms and its users.\<close>

lemma refresh_derived_cong:
  "cf_rooms c = cf_rooms c' \<Longrightarrow> cf_users c = cf_users c' \<Longrightarrow> refresh_derived c = refresh_derived c'"
  by (simp add: refresh_derived_def device_names_def new_device_auth_def)

lemma foldl_map_upd:
  "foldl (\<lambda>m r. m(f r \<mapsto> g r)) m rs k =
     (case find_first (\<lambda>r. f r = k) (rev rs) of Some r \<Rightarrow> Some (g r) | None \<Rightarrow> m k)"
  by (induction rs rule: rev_induct) simp_all

section \<open>Saving\<close>

definition record_ok :: "string \<Rightarrow> string \<Rightarrow> bool \<Rightarrow> time \<Rightarrow> persist_state \<Rightarrow> persist_state" where
  "record_ok mode target durable t p =
     p\<lparr>pt_mode := mode, pt_target := target, pt_durable := durable, pt_last_err := None, pt_last_ok_at := t\<rparr>"

definition record_err :: "string \<Rightarrow> string \<Rightarrow> bool \<Rightarrow> apply_error \<Rightarrow> time \<Rightarrow> persist_state \<Rightarrow> persist_state" where
  "record_err mode target durable err t p =
     p\<lparr>pt_mode := mode, pt_target := target, pt_durable := durable, pt_last_err := Some err, pt_last_err_at := t\<rparr>"

definition fail_save :: "'k app_env \<Rightarrow> time \<Rightarrow> apply_error \<Rightarrow> ('k, 'x) core_scheme \<Rightarrow> apply_error option \<times> ('k, 'x) core_scheme" where
  "fail_save env now err co =
     (let st = ae_store env
      in (Some err, co\<lparr>co_pstate := record_err (store_mode st) (store_target st) (store_durable st) err now (co_pstate co)\<rparr>))"

definition swap_in :: "'k app_env \<Rightarrow> time \<Rightarrow> config \<Rightarrow> bool \<Rightarrow> ('k, 'x) core_scheme \<Rightarrow> ('k, 'x) core_scheme" where
  "swap_in env now c refresh co =
     (let st = ae_store env
      in co\<lparr>co_cfg := c,
            co_derived := (if refresh then refresh_derived c else co_derived co),
            co_pstate := record_ok (store_mode st) (store_target st) (store_durable st) now (co_pstate co)\<rparr>)"

definition apply_config ::
  "'k app_env \<Rightarrow> time \<Rightarrow> config \<Rightarrow> bool \<Rightarrow> ('k, 'x) core_scheme \<Rightarrow> apply_error option \<times> ('k, 'x) core_scheme" where
  "apply_config env now c refresh co =
     (let st = ae_store env
      in if store_durable st
         then (case marshal_for_persist (ae_marshal env) (ae_keys env c) c of
                 None \<Rightarrow> fail_save env now (MarshalFailed (store_target st)) co
               | Some out \<Rightarrow>
                   (case persist (ae_io env) st (co_world co) out of
                      (Some err, w) \<Rightarrow> fail_save env now (SaveFailed (store_mode st) (store_target st) err) (co\<lparr>co_world := w\<rparr>)
                    | (None, w) \<Rightarrow> (None, swap_in env now c refresh (co\<lparr>co_world := w\<rparr>))))
         else (None, swap_in env now c refresh co))"

text \<open>The way out for a forced password change whose save failed: the configuration goes live all the
  same.\<close>

definition store_live :: "config \<Rightarrow> ('k, 'x) core_scheme \<Rightarrow> ('k, 'x) core_scheme" where
  "store_live c co = co\<lparr>co_cfg := c, co_derived := refresh_derived c\<rparr>"

definition new_core :: "'k app_env \<Rightarrow> config \<Rightarrow> 'k store_world \<Rightarrow> 'k core" where
  "new_core env c w =
     (let st = ae_store env
      in \<lparr>co_cfg = c, co_derived = refresh_derived c,
          co_pstate = record_ok (store_mode st) (store_target st) (store_durable st) zero_time
            \<lparr>pt_mode = [], pt_target = [], pt_durable = False, pt_last_err = None, pt_last_err_at = zero_time,
             pt_last_ok_at = zero_time\<rparr>,
          co_world = w\<rparr>)"

datatype strip = StripHealthy string | StripEphemeral | StripFailed apply_error time

definition persist_strip :: "persist_state \<Rightarrow> strip" where
  "persist_strip v =
     (case pt_last_err v of
        Some err \<Rightarrow> StripFailed err (pt_last_err_at v)
      | None \<Rightarrow> if \<not> pt_durable v then StripEphemeral
                else StripHealthy (if pt_mode v = ''configmap'' then ''ConfigMap '' @ pt_target v
                                   else if pt_mode v = ''file'' then ''file '' @ pt_target v else pt_target v))"

definition rounded_ago :: "time \<Rightarrow> time \<Rightarrow> string" where
  "rounded_ago now t =
     (if is_zero_time t \<or> time_sub now t < minute then ''just now''
      else show_int (time_sub now t div minute) @ ''m ago'')"

text \<open>What an administrator reads, in two parts: what failed, and what to do. \<open>why\<close> is what the YAML encoder
  said.\<close>

definition save_failure_parts :: "string \<Rightarrow> apply_error \<Rightarrow> string \<times> string" where
  "save_failure_parts why err =
     (let ephemeral = ''or start the broker with -config-persistence=none for ephemeral changes''
      in case err of
           MarshalFailed target \<Rightarrow> (''could not marshal config for '' @ target @ '': '' @ why, [])
         | SaveFailed mode target e \<Rightarrow>
             if mode = ''configmap''
             then (''could not save to ConfigMap '' @ target @ '': '' @ e, ''. Check the broker ServiceAccount'' @ [CHR 0x27]
                  @ ''s RBAC (docs/DEPLOY-TIERS.md#tier-3-403-triage-checklist), '' @ ephemeral)
             else if mode = ''file''
             then (''could not save to '' @ target @ '': '' @ e, ''. Check the path is writable, '' @ ephemeral)
             else (''could not save config ('' @ mode @ ''): '' @ e, []))"

definition save_failure_text :: "string \<Rightarrow> apply_error \<Rightarrow> string" where
  "save_failure_text why err =
     (case save_failure_parts why err of
        (what, hint) \<Rightarrow> (what @ '' '' @ em_dash @ '' '') @ ''nothing was changed'' @ hint)"

text \<open>The class and the message of the strip.\<close>

definition strip_view :: "string \<Rightarrow> time \<Rightarrow> strip \<Rightarrow> string \<times> string" where
  "strip_view why now st =
     (case st of
        StripFailed err t \<Rightarrow>
          (''banner-error'', ''LAST SAVE FAILED '' @ rounded_ago now t @ '' '' @ em_dash @ '' '' @ save_failure_text why err)
      | StripEphemeral \<Rightarrow>
          (''banner-warn'', ''Persistence: none '' @ em_dash @ '' changes take effect immediately but are LOST when the broker restarts.'')
      | StripHealthy dest \<Rightarrow> ([], ''Saving to '' @ dest))"

text \<open>Whatever the store had done before it failed, the message says that nothing was changed.\<close>

lemma failure_claims_no_change: "contains (save_failure_text why err) ''nothing was changed''"
  unfolding save_failure_text_def prod.case_eq_if by (rule contains_append)

lemmas apply_defs = apply_config_def fail_save_def swap_in_def record_ok_def record_err_def

section \<open>What a save means\<close>

lemma apply_config_Some:
  "apply_config env now c refresh co = (Some err, co') \<Longrightarrow>
     co_cfg co' = co_cfg co \<and> co_derived co' = co_derived co \<and> pt_last_err (co_pstate co') = Some err"
  by (auto simp: apply_defs Let_def split: if_splits option.splits prod.splits)

lemma apply_config_None:
  "apply_config env now c refresh co = (None, co') \<Longrightarrow>
     co_cfg co' = c \<and> co_derived co' = (if refresh then refresh_derived c else co_derived co)
     \<and> pt_last_err (co_pstate co') = None"
  by (auto simp: apply_defs Let_def split: if_splits option.splits prod.splits)

lemma apply_config_world:
  assumes "apply_config env now c refresh co = (None, co')" "store_durable (ae_store env)"
  shows "\<exists>out. marshal_for_persist (ae_marshal env) (ae_keys env c) c = Some out
    \<and> persist (ae_io env) (ae_store env) (co_world co) out = (None, co_world co')"
  using assms by (auto simp: apply_defs Let_def split: if_splits option.splits prod.splits)

lemma apply_config_more: "co_cfg (snd (apply_config env now c refresh co)) = c \<or>
    co_cfg (snd (apply_config env now c refresh co)) = co_cfg co"
  by (cases "fst (apply_config env now c refresh co)")
    (metis apply_config_None prod.collapse, metis apply_config_Some prod.collapse)

text \<open>C17. With the file backend, a save that succeeds is durable: the configuration is live, its document is
  what any restart finds, whenever the machine crashes, and the strip shows no error. A save that
  fails leaves the live configuration and the caches alone and is shown.\<close>

theorem saved_means_saved:
  assumes "ae_store env = FileStore path" "temps_fresh (ae_io env) path"
    and "apply_config env now c refresh co = (res, co')"
  shows "case res of
      None \<Rightarrow> co_cfg co' = c \<and> pt_last_err (co_pstate co') = None
        \<and> (\<exists>out. marshal_for_persist (ae_marshal env) (ae_keys env c) c = Some out
            \<and> (\<forall>y. may_read (sw_disk (co_world co')) path y \<longleftrightarrow> y = Some out))
    | Some err \<Rightarrow> co_cfg co' = co_cfg co \<and> co_derived co' = co_derived co
        \<and> persist_strip (co_pstate co') = StripFailed err (pt_last_err_at (co_pstate co'))"
proof (cases res)
  case None
  have d: "store_durable (ae_store env)" using assms(1) by (simp add: store_durable_def)
  from apply_config_world [OF assms(3) [unfolded None] d] obtain out where
    out: "marshal_for_persist (ae_marshal env) (ae_keys env c) c = Some out"
    "file_persist (ae_io env) path (co_world co) out = (None, co_world co')"
    using assms(1) by (auto simp: persist_def)
  from file_store.saved [OF assms(2) out(2)] out(1) apply_config_None [OF assms(3) [unfolded None]] None
  show ?thesis by auto
next
  case (Some err)
  with apply_config_Some [of env now c refresh co err co'] assms(3) show ?thesis by (auto simp: persist_strip_def)
qed

definition sample_app_env :: "(nat \<Rightarrow> write_step \<Rightarrow> string option) \<Rightarrow> unit app_env" where
  "sample_app_env faults =
     \<lparr>ae_go = sample_env, ae_sha = (\<lambda>s. replicate 32 (of_nat (length s))), ae_store = FileStore ''/etc/config.yaml'',
      ae_io = \<lparr>se_faults = faults, se_torn = (\<lambda>n. 0),
        se_temp = (\<lambda>d. (''/etc/.tmp'',
          hd (filter (\<lambda>i. dk_live d ''/etc/config.yaml'' \<noteq> Some i \<and> dk_synced d ''/etc/config.yaml'' \<noteq> Some i) [0, 1, 2]))),
        se_kube = \<lparr>kn_token = (\<lambda>k. Inr []), kn_do = (\<lambda>k m u h b. (Inr (200, []), k)), kn_quote = (\<lambda>s. s)\<rparr>\<rparr>,
      ae_marshal = (\<lambda>c. Some (''ssid: '' @ fl_wifi_ssid (cf_fleet c) @ '' default: '' @ cf_default_location c)),
      ae_keys = (\<lambda>c. [])\<rparr>"

lemma sample_temps_fresh: "temps_fresh (ae_io (sample_app_env faults)) ''/etc/config.yaml''"
proof -
  have "fresh_temp ''/etc/.tmp'' (hd (filter (\<lambda>i. a \<noteq> Some i \<and> b \<noteq> Some i) [0, 1, 2])) ''/etc/config.yaml'' d"
    if "a = dk_live d ''/etc/config.yaml''" "b = dk_synced d ''/etc/config.yaml''" for a b d
    by (auto simp: fresh_temp_def that [symmetric])
  then show ?thesis by (simp add: temps_fresh_def sample_app_env_def)
qed

definition sample_core :: "unit core" where
  "sample_core = new_core (sample_app_env (\<lambda>n st. None)) sample_config \<lparr>sw_disk = sample_disk, sw_kube = (), sw_saves = 0\<rparr>"

lemma sample_app_fields [simp]:
  "ae_store (sample_app_env f) = FileStore ''/etc/config.yaml''" "ae_go (sample_app_env f) = sample_env"
  "ae_keys (sample_app_env f) c = []" "se_faults (ae_io (sample_app_env f)) = f"
  "ae_marshal (sample_app_env f) c = Some (''ssid: '' @ fl_wifi_ssid (cf_fleet c) @ '' default: '' @ cf_default_location c)"
  by (simp_all add: sample_app_env_def)

lemma marshal_no_keys: "marshal_for_persist m [] c = m c"
  by (cases "m c") (simp_all add: marshal_for_persist_def persist_order_def restore_refs_def)

lemma fault_free_save:
  assumes "ae_store env = FileStore path" "se_faults (ae_io env) = (\<lambda>n st. None)"
    and "marshal_for_persist (ae_marshal env) (ae_keys env c) c \<noteq> None"
  shows "fst (apply_config env now c refresh co) = None"
  using assms
  by (auto simp: apply_config_def store_durable_def persist_def file_persist_def write_atomic_def Let_def split_def
      split: option.splits)

theorem saved_means_saved_witness:
  "\<exists>co'. apply_config (sample_app_env (\<lambda>n st. None)) 5 (sample_config\<lparr>cf_default_location := ''sf''\<rparr>) True sample_core
       = (None, co')
     \<and> may_read (sw_disk (co_world co')) ''/etc/config.yaml'' (Some (''ssid: '' @ '' default: '' @ ''sf''))
     \<and> \<not> may_read (sw_disk (co_world co')) ''/etc/config.yaml'' (Some ''old'')"
proof -
  let ?c = "sample_config\<lparr>cf_default_location := ''sf''\<rparr>"
  obtain co' where a: "apply_config (sample_app_env (\<lambda>n st. None)) 5 ?c True sample_core = (None, co')"
    using fault_free_save [of "sample_app_env (\<lambda>n st. None)" "''/etc/config.yaml''" ?c 5 True sample_core]
    by (cases "apply_config (sample_app_env (\<lambda>n st. None)) 5 ?c True sample_core") (simp add: marshal_no_keys)
  from saved_means_saved [OF _ sample_temps_fresh a] a show ?thesis
    by (simp add: marshal_no_keys sample_config_def)
qed

text \<open>A save that is refused with the words "nothing was changed" can have replaced the file: when only the
  sync of the directory fails, the live configuration stays and the new document is in place, so
  that the next start loads what the administrator was told was not saved.\<close>

lemma refused_save_changes_file:
  assumes "ae_store env = FileStore path" "temps_fresh (ae_io env) path"
    and "marshal_for_persist (ae_marshal env) (ae_keys env c) c = Some out"
    and "se_faults (ae_io env) (sw_saves (co_world co)) = (\<lambda>st. if st = SyncDir then Some err else None)"
  shows "let (res, co') = apply_config env now c refresh co in
    res = Some (SaveFailed ''file'' path (''fsync dir: '' @ err)) \<and> co_cfg co' = co_cfg co
    \<and> file_of (sw_disk (co_world co')) path = Some out"
proof -
  let ?d = "sw_disk (co_world co)"
  obtain tmp i where t: "se_temp (ae_io env) ?d = (tmp, i)" by fastforce
  then have fr: "fresh_temp tmp i path ?d" using assms(2) by (simp add: temps_fresh_def) (metis fst_conv snd_conv)
  let ?wa = "write_atomic (\<lambda>st. if st = SyncDir then Some err else None) (se_torn (ae_io env) (sw_saves (co_world co))) tmp i path out ?d"
  have res: "fst ?wa = Some (SyncDir, err)" by (simp add: write_atomic_def Let_def)
  then obtain hist where wa: "?wa = (Some (SyncDir, err), hist)" by (metis prod.collapse)
  have "file_of (last hist) path = Some out"
    using write_atomic_result [OF _ wa] fr renamed_disk(1) [OF wrote_facts(1) fr wrote_facts(2-4)]
    by (auto simp: fresh_temp_def after_rename_def)
  then show ?thesis
    using assms(1,3,4) t wa
    by (simp add: apply_config_def fail_save_def store_durable_def persist_def file_persist_def final_disk_def
        store_mode_def store_target_def step_text_def Let_def)
qed

section \<open>Saves that overlap\<close>

text \<open>A save handler loads the live configuration, derives an edited one, and applies it. The load is atomic
  and so is \<open>applyConfig\<close>; between them other handlers run. Handler \<open>i\<close> makes the edit \<open>edits i\<close>.\<close>

datatype editor = Idle | Holding config | Rejected cfg_error | Finished "apply_error option"

inductive admin_step ::
  "'k app_env \<Rightarrow> (nat \<Rightarrow> edit) \<Rightarrow> 'k core \<times> (nat \<Rightarrow> editor) \<Rightarrow> 'k core \<times> (nat \<Rightarrow> editor) \<Rightarrow> bool"
  for env edits where
  load: "eds i = Idle \<Longrightarrow> admin_step env edits (co, eds) (co, eds(i := Holding (co_cfg co)))"
| reject: "eds i = Holding c \<Longrightarrow> run_edit (ae_go env) c (edits i) = Inl err \<Longrightarrow>
    admin_step env edits (co, eds) (co, eds(i := Rejected err))"
| save: "eds i = Holding c \<Longrightarrow> run_edit (ae_go env) c (edits i) = Inr n \<Longrightarrow>
    apply_config env now n refresh co = (res, co') \<Longrightarrow>
    admin_step env edits (co, eds) (co', eds(i := Finished res))"

inductive admin_reach :: "'k app_env \<Rightarrow> (nat \<Rightarrow> edit) \<Rightarrow> 'k core \<Rightarrow> 'k core \<times> (nat \<Rightarrow> editor) \<Rightarrow> bool"
  for env edits co0 where
  start: "admin_reach env edits co0 (co0, \<lambda>i. Idle)"
| step: "admin_reach env edits co0 s \<Longrightarrow> admin_step env edits s s' \<Longrightarrow> admin_reach env edits co0 s'"

definition all_well_formed :: "go_env \<Rightarrow> 'k core \<times> (nat \<Rightarrow> editor) \<Rightarrow> bool" where
  "all_well_formed e s \<longleftrightarrow> well_formed e (co_cfg (fst s)) \<and> (\<forall>i c. snd s i = Holding c \<longrightarrow> well_formed e c)"

lemma admin_step_well_formed:
  "admin_step env edits s s' \<Longrightarrow> all_well_formed (ae_go env) s \<Longrightarrow> all_well_formed (ae_go env) s'"
proof (induction rule: admin_step.induct)
  case (save eds i c n now refresh co res co')
  have "well_formed (ae_go env) n" using save(2) by (rule run_edit_well_formed)
  moreover have "co_cfg co' = n \<or> co_cfg co' = co_cfg co"
    using apply_config_more [of env now n refresh co] save(3) by simp
  ultimately show ?case using save(4) by (auto simp: all_well_formed_def)
qed (auto simp: all_well_formed_def)

text \<open>However the saves of any number of administrators interleave, and whichever of them fail, the live
  configuration satisfies the contract of \<open>Validate\<close> at every moment.\<close>

lemma live_always_well_formed:
  assumes "admin_reach env edits co0 s" "well_formed (ae_go env) (co_cfg co0)"
  shows "well_formed (ae_go env) (co_cfg (fst s))"
proof -
  have "all_well_formed (ae_go env) s"
    using assms(1)
  proof induction
    case start then show ?case using assms(2) by (simp add: all_well_formed_def)
  next
    case (step s s') then show ?case using admin_step_well_formed by blast
  qed
  then show ?thesis by (simp add: all_well_formed_def)
qed

definition sample_edits :: "nat \<Rightarrow> edit" where
  "sample_edits i = (if i = 0 then WithFleetWifiSSID ''lobby'' else WithDefaultLocation ''sf'')"

lemma sample_edit_0: "run_edit sample_env sample_config (WithFleetWifiSSID ''lobby'')
    = Inr (sample_config\<lparr>cf_fleet := (cf_fleet sample_config)\<lparr>fl_wifi_ssid := ''lobby''\<rparr>\<rparr>)"
proof -
  have "well_formed sample_env (sample_config\<lparr>cf_fleet := (cf_fleet sample_config)\<lparr>fl_wifi_ssid := ''lobby''\<rparr>\<rparr>)"
    unfolding well_formed_def
    by (intro conjI; simp add: sample_config_def; simp add: contract_defs sample_env_def Let_def)
  then show ?thesis by (simp only: run_edit.simps with_fleet_wifi_ssid_def checked_Inr simp_thms)
qed

lemma sample_edit_1: "run_edit sample_env sample_config (WithDefaultLocation ''sf'')
    = Inr (sample_config\<lparr>cf_default_location := ''sf''\<rparr>)"
proof -
  have "well_formed sample_env (sample_config\<lparr>cf_default_location := ''sf''\<rparr>)"
    unfolding well_formed_def
    by (intro conjI; simp add: sample_config_def; simp add: contract_defs sample_env_def Let_def)
  then show ?thesis by (simp only: run_edit.simps with_default_location_def checked_Inr simp_thms)
qed

text \<open>C18. Two overlapping saves lose one of them: both administrators are told that their change was saved, and
  the first one's is neither in the live configuration nor on disk.\<close>

theorem overlapping_saves_lose_one:
  "\<exists>co eds. admin_reach (sample_app_env (\<lambda>n st. None)) sample_edits sample_core (co, eds)
     \<and> eds 0 = Finished None \<and> eds 1 = Finished None
     \<and> cf_default_location (co_cfg co) = ''sf'' \<and> fl_wifi_ssid (cf_fleet (co_cfg co)) = []"
proof -
  let ?env = "sample_app_env (\<lambda>n st. None)"
  let ?n0 = "sample_config\<lparr>cf_fleet := (cf_fleet sample_config)\<lparr>fl_wifi_ssid := ''lobby''\<rparr>\<rparr>"
  let ?n1 = "sample_config\<lparr>cf_default_location := ''sf''\<rparr>"
  have cfg: "co_cfg sample_core = sample_config" by (simp add: sample_core_def new_core_def Let_def)
  have ok: "\<exists>co'. apply_config ?env 5 n True co = (None, co')" for n co
    using fault_free_save [of ?env "''/etc/config.yaml''" n 5 True co]
    by (cases "apply_config ?env 5 n True co") (simp add: marshal_no_keys)
  obtain co1 where 1: "apply_config ?env 5 ?n0 True sample_core = (None, co1)" using ok by blast
  obtain co2 where 2: "apply_config ?env 5 ?n1 True co1 = (None, co2)" using ok by blast
  have e0: "run_edit (ae_go ?env) sample_config (sample_edits 0) = Inr ?n0"
    and e1: "run_edit (ae_go ?env) sample_config (sample_edits 1) = Inr ?n1"
    by (simp_all only: sample_app_fields sample_edits_def sample_edit_0 sample_edit_1 if_True if_False simp_thms one_neq_zero)
  let ?h = "(\<lambda>i. Idle)(0 := Holding sample_config, 1 := Holding sample_config)"
  have "admin_reach ?env sample_edits sample_core (sample_core, \<lambda>i. Idle)" by (rule start)
  then have "admin_reach ?env sample_edits sample_core (sample_core, (\<lambda>i. Idle)(0 := Holding sample_config))"
    by (rule step) (use load [of "\<lambda>i. Idle" 0 ?env sample_edits sample_core] cfg in simp)
  then have "admin_reach ?env sample_edits sample_core (sample_core, ?h)"
    by (rule step) (use load [of "(\<lambda>i. Idle)(0 := Holding sample_config)" 1 ?env sample_edits sample_core] cfg in simp)
  then have "admin_reach ?env sample_edits sample_core (co1, ?h(0 := Finished None))"
    by (rule step) (rule save [where i = 0 and edits = sample_edits, OF _ e0 1], simp)
  then have "admin_reach ?env sample_edits sample_core (co2, ?h(0 := Finished None, 1 := Finished None))"
    by (rule step) (rule save [where i = 1 and edits = sample_edits, OF _ e1 2], simp)
  moreover have "co_cfg co2 = ?n1" using apply_config_None [OF 2] by simp
  ultimately show ?thesis
    by (intro exI [of _ co2] exI [of _ "?h(0 := Finished None, 1 := Finished None)"]) (simp add: sample_config_def)
qed

end
