(* ===== verification/PackBits.thy ===== *)
theory PackBits
  imports GoBase
begin

text \<open>
  The wire format of a frame: \<open>internal/render/packbits.go\<close> (the run-length encoder),
  \<open>internal/render/payload.go\<close> (the MDPF header and \<open>Encode\<close>), and the device side of the same
  format, \<open>firmware/main/protocol.hpp\<close> (\<open>parse_header\<close>, \<open>packbits_decode\<close>). The round trips say
  that the device reconstructs exactly the frame buffer the broker rendered.
\<close>

section \<open>PackBits\<close>

text \<open>The inner loop that counts a run: \<open>runLen\<close> bytes equal to the first, at most 128.\<close>

fun run_len :: "byte \<Rightarrow> byte list \<Rightarrow> nat \<Rightarrow> nat" where
  "run_len v [] n = n"
| "run_len v (x # xs) n = (if x = v \<and> n < 128 then run_len v xs (Suc n) else n)"

text \<open>The inner loop that gathers a literal: it stops where a run of three starts, or at 128.\<close>

fun lit_len :: "byte list \<Rightarrow> nat \<Rightarrow> nat" where
  "lit_len (a # b # c # xs) n =
     (if n < 128 then (if a = b \<and> b = c then n else lit_len (b # c # xs) (Suc n)) else n)"
| "lit_len (a # xs) n = (if n < 128 then lit_len xs (Suc n) else n)"
| "lit_len [] n = n"

lemma run_len_ge: "n \<le> run_len v xs n"
  by (induction v xs n rule: run_len.induct) auto

lemma run_len_le: "run_len v xs n \<le> n + length xs"
  by (induction v xs n rule: run_len.induct) auto

lemma run_len_128: "n \<le> 128 \<Longrightarrow> run_len v xs n \<le> 128"
  by (induction v xs n rule: run_len.induct) auto

lemma run_len_take:
  "take (run_len v xs n - n) xs = replicate (run_len v xs n - n) v"
proof (induction v xs n rule: run_len.induct)
  case (2 v x xs n)
  show ?case
  proof (cases "x = v \<and> n < 128")
    case True
    then have "run_len v xs (Suc n) - n = Suc (run_len v xs (Suc n) - Suc n)"
      using run_len_ge [of "Suc n" v xs] by simp
    with 2 True show ?thesis by simp
  qed auto
qed simp

lemma lit_len_ge: "n \<le> lit_len xs n"
  by (induction xs n rule: lit_len.induct) auto

lemma lit_len_le: "lit_len xs n \<le> n + length xs"
  by (induction xs n rule: lit_len.induct) auto

lemma lit_len_128: "n \<le> 128 \<Longrightarrow> lit_len xs n \<le> 128"
  by (induction xs n rule: lit_len.induct) auto

text \<open>A literal that starts where no run of two starts is not empty: this is why the outer loop
  always advances.\<close>

lemma lit_len_pos:
  assumes "run_len x xs 1 < 2"
  shows "0 < lit_len (x # xs) 0"
proof (cases xs)
  case (Cons y ys)
  show ?thesis
  proof (cases ys)
    case (Cons z zs)
    with \<open>xs = y # ys\<close> assms show ?thesis
      using lit_len_ge [of "Suc 0" "y # z # zs"] run_len_ge [of "Suc (Suc (Suc 0))" x zs] by (auto split: if_splits)
  next
    case Nil
    with \<open>xs = y # ys\<close> show ?thesis using lit_len_ge [of "Suc 0" "[y]"] by simp
  qed
qed simp

function packbits :: "byte list \<Rightarrow> byte list" where
  "packbits [] = []"
| "packbits (x # xs) =
     (let r = run_len x xs 1 in
      if 2 \<le> r then of_nat (257 - r) # x # packbits (drop r (x # xs))
      else (let l = lit_len (x # xs) 0
            in of_nat (l - 1) # take l (x # xs) @ packbits (drop l (x # xs))))"
  by pat_completeness auto
termination
proof (relation "measure length", goal_cases)
  case (3 x xs r l)
  then have "0 < l" using lit_len_pos [of x xs] by simp
  then show ?case by simp
qed auto

text \<open>The device's streaming decoder. It stops after \<open>raw_len\<close> bytes; a control byte of \<open>-128\<close>
  (0x80) is skipped. \<open>room\<close> is \<open>raw_len - produced\<close>.\<close>

function packbits_decode :: "byte list \<Rightarrow> nat \<Rightarrow> byte list" where
  "packbits_decode [] room = []"
| "packbits_decode (c # xs) room =
     (if room = 0 then []
      else if 0 \<le> sint c then
        (let k = min (min (nat (sint c) + 1) (length xs)) room
         in take k xs @ packbits_decode (drop k xs) (room - k))
      else if sint c \<noteq> - 128 then
        (case xs of [] \<Rightarrow> []
         | v # ys \<Rightarrow> (let k = min (nat (1 - sint c)) room
                      in replicate k v @ packbits_decode ys (room - k)))
      else packbits_decode xs room)"
  by pat_completeness auto
termination by (relation "measure (length \<circ> fst)") auto

lemma sint_literal_ctrl:
  assumes "1 \<le> l" "l \<le> 128"
  shows "sint (of_nat (l - 1) :: byte) = int l - 1"
proof -
  have "(of_nat (l - 1) :: byte) = of_int (int l - 1)" using assms by simp
  moreover have "signed_take_bit 7 (int l - 1) = int l - 1"
    using assms by (intro signed_take_bit_int_eq_self) auto
  ultimately show ?thesis by (simp only: signed_of_int) simp
qed

lemma sint_run_ctrl:
  assumes "2 \<le> r" "r \<le> 128"
  shows "sint (of_nat (257 - r) :: byte) = 1 - int r"
proof -
  have "(of_nat (257 - r) :: byte) = of_int (1 - int r)" using assms by simp
  moreover have "signed_take_bit 7 (1 - int r) = 1 - int r"
    using assms by (intro signed_take_bit_int_eq_self) auto
  ultimately show ?thesis by (simp only: signed_of_int) simp
qed


text \<open>One encoded chunk, decoded.\<close>

lemma take_take_drop:
  "r \<le> length xs \<Longrightarrow> take room xs = take room (take r xs) @ take (room - r) (drop r xs)"
  using take_append [of room "take r xs" "drop r xs"] by simp

lemma decode_no_room [simp]: "packbits_decode xs 0 = []"
  by (cases xs) auto

declare packbits.simps(2) [simp del] packbits_decode.simps(2) [simp del]

lemma decode_run:
  assumes "2 \<le> r" "r \<le> 128"
  shows "packbits_decode (of_nat (257 - r) # x # bs) room =
         replicate (min r room) x @ packbits_decode bs (room - min r room)"
  using sint_run_ctrl [OF assms] assms
  by (cases "room = 0") (simp_all add: packbits_decode.simps(2) Let_def del: of_nat_diff)

lemma decode_literal:
  assumes l: "1 \<le> l" "l \<le> 128" "length ys = l"
  shows "packbits_decode (of_nat (l - 1) # ys @ bs) room =
         take room ys @ packbits_decode bs (room - min l room)"
proof (cases "room = 0")
  case False
  define k where "k = min l room"
  have n: "Suc (nat (int l - 1)) = l" using l by simp
  have "packbits_decode (of_nat (l - 1) # ys @ bs) room =
      take k (ys @ bs) @ packbits_decode (drop k (ys @ bs)) (room - k)"
    using sint_literal_ctrl [OF l(1,2)] False l n
    by (simp add: packbits_decode.simps(2) Let_def k_def del: of_nat_diff)
  then show ?thesis
    using l by (cases "l \<le> room") (simp_all add: k_def)
qed simp

lemma decode_packbits_take: "packbits_decode (packbits s) room = take room s"
proof (induction s arbitrary: room rule: packbits.induct)
  case (2 x xs)
  define r where "r = run_len x xs 1"
  show ?case
  proof (cases "2 \<le> r")
    case True
    have r: "r \<le> 128" "r \<le> length (x # xs)"
      using run_len_128 [of 1 x xs] run_len_le [of x xs 1] by (auto simp: r_def)
    have run: "take r (x # xs) = replicate r x"
      using run_len_take [of x xs 1] True by (cases r) (auto simp: r_def)
    have step: "packbits (x # xs) = of_nat (257 - r) # x # packbits (drop r (x # xs))"
      using True by (simp add: r_def Let_def packbits.simps(2))
    have rest: "take (room - min r room) (drop r (x # xs)) = take (room - r) (drop r (x # xs))"
      by (simp add: min_def)
    have first: "replicate (min r room) x = take room (take r (x # xs))"
      unfolding run by (simp add: min.commute)
    show ?thesis
      unfolding step decode_run [OF True r(1)] "2.IH"(1) [OF r_def True] rest first
      by (rule take_take_drop [OF r(2), symmetric])
  next
    case False
    define l where "l = lit_len (x # xs) 0"
    have l: "1 \<le> l" "l \<le> 128" "l \<le> length (x # xs)"
      using lit_len_pos [of x xs] lit_len_128 [of 0 "x # xs"] lit_len_le [of "x # xs" 0] False
      by (auto simp: r_def l_def)
    have step: "packbits (x # xs) = of_nat (l - 1) # take l (x # xs) @ packbits (drop l (x # xs))"
      using False by (simp add: r_def l_def Let_def packbits.simps(2))
    have rest: "take (room - min l room) (drop l (x # xs)) = take (room - l) (drop l (x # xs))"
      by (simp add: min_def)
    have len: "length (take l (x # xs)) = l" using l(3) by simp
    show ?thesis
      unfolding step decode_literal [OF l(1,2) len] "2.IH"(2) [OF r_def False l_def] rest
      by (rule take_take_drop [OF l(3), symmetric])
  qed
qed simp

text \<open>C2. The device's decoder, told to stop at the frame's length, gives back exactly the bytes
  the encoder was given, whatever they are.\<close>

theorem packbits_roundtrip: "packbits_decode (packbits s) (length s) = s"
  by (simp add: decode_packbits_take)

section \<open>The size of the encoding\<close>

lemma lit_len_stop:
  "lit_len xs n < 128 \<Longrightarrow> lit_len xs n - n < length xs \<Longrightarrow>
     \<exists>a ys. drop (lit_len xs n - n) xs = a # a # a # ys"
proof (induction xs n rule: lit_len.induct)
  case (1 a b c xs n)
  show ?case
  proof (cases "n < 128 \<and> \<not> (a = b \<and> b = c)")
    case True
    then have "lit_len (a # b # c # xs) n = lit_len (b # c # xs) (Suc n)" by auto
    moreover have "lit_len (b # c # xs) (Suc n) - n = Suc (lit_len (b # c # xs) (Suc n) - Suc n)"
      using lit_len_ge [of "Suc n" "b # c # xs"] by simp
    ultimately show ?thesis using 1 True by auto
  next
    case False
    with 1 show ?thesis by (auto split: if_splits)
  qed
qed (auto split: if_splits)

definition starts_run3 :: "byte list \<Rightarrow> bool" where
  "starts_run3 s \<longleftrightarrow> (\<exists>a ys. s = a # a # a # ys)"

lemma starts_run3_run_len: "starts_run3 (x # xs) \<Longrightarrow> 3 \<le> run_len x xs 1"
  using run_len_ge [of "Suc (Suc (Suc 0))"]
  by (auto simp: starts_run3_def numeral_3_eq_3 numeral_2_eq_2)

lemma packbits_size_aux:
  "length (packbits s) + (if starts_run3 s then 1 else 0) \<le> length s + length s div 128 + 1"
proof (induction s rule: packbits.induct)
  case (2 x xs)
  define n where "n = length (x # xs)"
  define r where "r = run_len x xs 1"
  show ?case
  proof (cases "2 \<le> r")
    case True
    have r: "r \<le> n" using run_len_le [of x xs 1] by (simp add: r_def n_def)
    have "length (packbits (x # xs)) = 2 + length (packbits (drop r (x # xs)))"
      using True by (simp add: r_def Let_def packbits.simps(2))
    moreover have "length (packbits (drop r (x # xs))) \<le> (n - r) + (n - r) div 128 + 1"
      using "2.IH"(1) [OF r_def True] by (simp add: n_def split: if_splits)
    moreover have "(n - r) div 128 \<le> n div 128" by (simp add: div_le_mono)
    moreover have "3 \<le> r" if "starts_run3 (x # xs)"
      using starts_run3_run_len [OF that] by (simp add: r_def)
    ultimately show ?thesis using True r unfolding n_def [symmetric] by (cases "starts_run3 (x # xs)") simp_all
  next
    case False
    define l where "l = lit_len (x # xs) 0"
    let ?rest = "drop l (x # xs)"
    have l: "1 \<le> l" "l \<le> 128" "l \<le> n"
      using lit_len_pos [of x xs] lit_len_128 [of 0 "x # xs"] lit_len_le [of "x # xs" 0] False
      by (auto simp: r_def l_def n_def)
    have len: "length (packbits (x # xs)) = 1 + l + length (packbits ?rest)"
      using False l by (simp add: r_def l_def [symmetric] Let_def packbits.simps(2) n_def)
    have no3: "\<not> starts_run3 (x # xs)"
      using starts_run3_run_len [of x xs] False by (auto simp: r_def)
    have IH: "length (packbits ?rest) + (if starts_run3 ?rest then 1 else 0)
        \<le> (n - l) + (n - l) div 128 + 1"
      using "2.IH"(2) [OF r_def False l_def] by (simp add: n_def)
    show ?thesis
    proof (cases "l = n")
      case True
      with len no3 show ?thesis unfolding n_def [symmetric] by (simp add: n_def)
    next
      case False
      show ?thesis
      proof (cases "l = 128")
        case True
        then have "n div 128 = Suc ((n - l) div 128)" using l by (simp add: le_div_geq)
        with IH len no3 l show ?thesis unfolding n_def [symmetric] by (simp split: if_splits)
      next
        case False
        then have "starts_run3 ?rest"
          using lit_len_stop [of "x # xs" 0] l \<open>l \<noteq> n\<close> by (simp add: l_def starts_run3_def n_def)
        moreover have "(n - l) div 128 \<le> n div 128" by (simp add: div_le_mono)
        ultimately show ?thesis using IH len no3 l unfolding n_def [symmetric] by simp
      qed
    qed
  qed
qed simp

text \<open>PackBits never inflates a frame by more than one control byte per 128 bytes and one
  more, so the fall-back of \<open>Encode\<close> costs at most that much work and memory.\<close>

lemma packbits_size: "length (packbits s) \<le> length s + length s div 128 + 1"
  using packbits_size_aux [of s] by (simp split: if_splits)

section \<open>The MDPF header\<close>

record payload =
  pl_bytes :: "byte list"
  pl_crc32 :: u32
  pl_next_wake :: u32
  pl_compressed :: bool

definition mdpf_magic :: "byte list" where "mdpf_magic = [0x4D, 0x44, 0x50, 0x46]"
definition header_size :: nat where "header_size = 32"
definition flag_compressed :: "16 word" where "flag_compressed = 1"
definition flag_full_refr :: "16 word" where "flag_full_refr = 2"

definition mdpf_flags :: "bool \<Rightarrow> bool \<Rightarrow> 16 word" where
  "mdpf_flags compressed full =
     (let flags = (if compressed then 0 OR flag_compressed else 0)
      in if full then flags OR flag_full_refr else flags)"

definition encode_body :: "byte list \<Rightarrow> byte list \<times> bool" where
  "encode_body packed =
     (let body = packbits packed
      in if length body \<ge> length packed then (packed, False) else (body, True))"

definition encode :: "byte list \<Rightarrow> int \<Rightarrow> int \<Rightarrow> u32 \<Rightarrow> bool \<Rightarrow> payload" where
  "encode packed width height next_wake full =
     (let crc = checksum_ieee packed;
          (body, compressed) = encode_body packed;
          flags = mdpf_flags compressed full;
          buf = replicate (header_size + length body) 0;
          buf = put_at 0 mdpf_magic buf;
          buf = put_at 4 (le16 1) buf;
          buf = put_at 6 (le16 flags) buf;
          buf = put_at 8 (le16 (word_of_int width)) buf;
          buf = put_at 10 (le16 (word_of_int height)) buf;
          buf = put_at 12 [4] buf;
          buf = put_at 16 (le32 (of_nat (length body))) buf;
          buf = put_at 20 (le32 (of_nat (length packed))) buf;
          buf = put_at 24 (le32 next_wake) buf;
          buf = put_at 28 (le32 crc) buf;
          buf = put_at header_size body buf
      in \<lparr>pl_bytes = buf, pl_crc32 = crc, pl_next_wake = next_wake, pl_compressed = compressed\<rparr>)"

text \<open>The device: the header as \<open>parse_header\<close> reads it, the body length check of
  \<open>net_client.cpp\<close>, and the decoding of \<open>show\<close> in \<open>epd_spectra6.cpp\<close>.\<close>

record mdpf_header =
  h_version :: "16 word"
  h_flags :: "16 word"
  h_width :: "16 word"
  h_height :: "16 word"
  h_bpp :: byte
  h_payload_len :: u32
  h_raw_len :: u32
  h_next_wake :: u32
  h_crc :: u32

definition slice_of :: "nat \<Rightarrow> nat \<Rightarrow> 'a list \<Rightarrow> 'a list" where
  "slice_of off n xs = take n (drop off xs)"

definition parse_header :: "byte list \<Rightarrow> mdpf_header option" where
  "parse_header buf =
     (if length buf < header_size then None
      else let h = \<lparr>h_version = of_le16 (slice_of 4 2 buf), h_flags = of_le16 (slice_of 6 2 buf),
                    h_width = of_le16 (slice_of 8 2 buf), h_height = of_le16 (slice_of 10 2 buf),
                    h_bpp = buf ! 12, h_payload_len = of_le32 (slice_of 16 4 buf),
                    h_raw_len = of_le32 (slice_of 20 4 buf), h_next_wake = of_le32 (slice_of 24 4 buf),
                    h_crc = of_le32 (slice_of 28 4 buf)\<rparr>
           in if slice_of 0 4 buf \<noteq> mdpf_magic then None
              else if h_version h \<noteq> 1 then None
              else if h_bpp h \<noteq> 4 then None
              else Some h)"

text \<open>\<open>size_t\<close> has 32 bits on the ESP32-S3, so the sum of the bounds check wraps; \<open>total\<close> is the
  length of the buffer, of which \<open>slice_of\<close> gives at most what is there.\<close>

definition fetch_body :: "byte list \<Rightarrow> (mdpf_header \<times> byte list) option" where
  "fetch_body buf =
     (case parse_header buf of None \<Rightarrow> None
      | Some h \<Rightarrow> if unat (of_nat header_size + h_payload_len h) > length buf then None
                  else Some (h, slice_of header_size (unat (h_payload_len h)) buf))"

definition epd_width :: "16 word" where "epd_width = 800"
definition epd_height :: "16 word" where "epd_height = 480"
definition epd_raw_len :: nat where "epd_raw_len = 192000"

definition epd_show :: "byte list \<Rightarrow> mdpf_header \<Rightarrow> byte list option" where
  "epd_show body h =
     (if h_width h \<noteq> epd_width \<or> h_height h \<noteq> epd_height then None
      else let fb = (if h_flags h AND flag_compressed \<noteq> 0 then packbits_decode body epd_raw_len
                     else take epd_raw_len body)
           in if length fb \<noteq> epd_raw_len then None else Some fb)"

lemma encode_layout:
  assumes "encode_body packed = (body, c)"
  shows "pl_bytes (encode packed w h nw full) =
    mdpf_magic @ le16 1 @ le16 (mdpf_flags c full) @ le16 (word_of_int w) @ le16 (word_of_int h)
    @ [4, 0, 0, 0] @ le32 (of_nat (length body)) @ le32 (of_nat (length packed)) @ le32 nw
    @ le32 (checksum_ieee packed) @ body"
proof -
  have "replicate (header_size + length body) (0::byte) =
      [0,0,0,0] @ [0,0] @ [0,0] @ [0,0] @ [0,0] @ [0,0,0,0] @ [0,0,0,0] @ [0,0,0,0] @ [0,0,0,0]
      @ [0,0,0,0] @ replicate (length body) 0"
    by (simp add: header_size_def numeral_eq_Suc)
  then show ?thesis
    unfolding encode_def Let_def assms prod.case
    by (simp add: put_at_def header_size_def mdpf_magic_def le16_def le32_def)
qed

lemma encode_parsed:
  assumes "encode_body packed = (body, c)"
  shows "parse_header (pl_bytes (encode packed w h nw full)) =
    Some \<lparr>h_version = 1, h_flags = mdpf_flags c full, h_width = word_of_int w,
      h_height = word_of_int h, h_bpp = 4, h_payload_len = of_nat (length body),
      h_raw_len = of_nat (length packed), h_next_wake = nw, h_crc = checksum_ieee packed\<rparr>"
  unfolding encode_layout [OF assms] parse_header_def slice_of_def
  by (simp add: header_size_def mdpf_magic_def Let_def nth_append)

lemma encode_body_length: "encode_body packed = (body, c) \<Longrightarrow> length body \<le> length packed"
  by (auto simp: encode_body_def Let_def split: if_splits)

lemma encode_fetched:
  assumes b: "encode_body packed = (body, c)" and n: "length packed < 2 ^ 31"
  shows "fetch_body (pl_bytes (encode packed w h nw full)) =
    Some (\<lparr>h_version = 1, h_flags = mdpf_flags c full, h_width = word_of_int w,
      h_height = word_of_int h, h_bpp = 4, h_payload_len = of_nat (length body),
      h_raw_len = of_nat (length packed), h_next_wake = nw, h_crc = checksum_ieee packed\<rparr>, body)"
proof -
  have l: "length body < 2 ^ 31" using encode_body_length [OF b] n by simp
  then have "unat (of_nat (length body) :: u32) = length body" by (simp add: unat_of_nat)
  moreover have "unat (of_nat header_size + of_nat (length body) :: u32) = 32 + length body"
  proof -
    have "of_nat header_size + of_nat (length body) = (of_nat (32 + length body) :: u32)"
      by (simp add: header_size_def)
    then show ?thesis using l by (simp only: unat_of_nat) simp
  qed
  moreover have "length (pl_bytes (encode packed w h nw full)) = 32 + length body"
    "drop 32 (pl_bytes (encode packed w h nw full)) = body"
    by (simp_all add: encode_layout [OF b] mdpf_magic_def)
  ultimately show ?thesis
    by (simp add: fetch_body_def encode_parsed [OF b] slice_of_def header_size_def)
qed

lemma mdpf_flags_compressed: "mdpf_flags c full AND flag_compressed \<noteq> 0 \<longleftrightarrow> c"
  by (cases c; cases full) (simp_all add: mdpf_flags_def flag_compressed_def flag_full_refr_def)

text \<open>End to end: whatever frame the broker packs for the panel, the device accepts the
  payload \<open>Encode\<close> makes of it and shows exactly that frame.\<close>

lemma device_shows_frame:
  assumes "length packed = epd_raw_len"
  shows "\<exists>h body. fetch_body (pl_bytes (encode packed 800 480 nw full)) = Some (h, body)
    \<and> epd_show body h = Some packed \<and> h_next_wake h = nw
    \<and> h_crc h = pl_crc32 (encode packed 800 480 nw full)"
proof -
  obtain body c where b: "encode_body packed = (body, c)" by (cases "encode_body packed")
  have "length packed < 2 ^ 31" using assms by (simp add: epd_raw_len_def)
  note f = encode_fetched [OF b this, of 800 480 nw full]
  have "(if c then packbits_decode body epd_raw_len else take epd_raw_len body) = packed"
    using b assms by (auto simp: encode_body_def Let_def decode_packbits_take split: if_splits)
  then have "epd_show body (fst (the (fetch_body (pl_bytes (encode packed 800 480 nw full))))) = Some packed"
    using assms by (simp add: f epd_show_def mdpf_flags_compressed epd_width_def epd_height_def Let_def)
  moreover have "pl_crc32 (encode packed 800 480 nw full) = checksum_ieee packed"
    by (simp add: encode_def b Let_def)
  ultimately show ?thesis using f by simp
qed

text \<open>The bounds check of the device wraps around: a 32 byte response whose header announces
  almost \<open>2 ^ 32\<close> bytes of body passes it.\<close>

lemma fetch_body_check_wraps:
  "\<exists>h body. fetch_body (mdpf_magic @ [1, 0, 0, 0, 0x20, 0x03, 0xE0, 0x01, 4, 0, 0, 0,
      0xE0, 0xFF, 0xFF, 0xFF, 0, 0, 0, 0, 0, 0, 0, 0, 0, 0, 0, 0]) = Some (h, body)
    \<and> length body = 0 \<and> h_payload_len h = 0xFFFFFFE0"
  by (simp add: fetch_body_def parse_header_def slice_of_def header_size_def mdpf_magic_def
      of_le16_def of_le32_def Let_def)

end
