(* ===== verification/Cache.thy ===== *)
theory Cache
  imports Calendar PackBits
begin

text \<open>
  \<open>internal/cache/cache.go\<close>: the latest rendered payload of each device, and the once-a-day forced
  full refresh. \<open>LastForcedRefreshDay\<close>, a formatted local date, is the number of the local day
  (\<open>None\<close> is the empty string); two instants have the same date exactly when they have the same day
  number. An error is its text.
\<close>

record cache_entry =
  ce_payload :: payload
  ce_preview :: "byte list"
  ce_etag :: string
  ce_rendered_at :: time
  ce_err :: "string option"
  ce_cur :: "event option"
  ce_next :: "event option"
  ce_last_forced :: "int option"

definition zero_entry :: cache_entry where
  "zero_entry = \<lparr>ce_payload = \<lparr>pl_bytes = [], pl_crc32 = 0, pl_next_wake = 0, pl_compressed = False\<rparr>,
     ce_preview = [], ce_etag = [], ce_rendered_at = zero_time, ce_err = None, ce_cur = None, ce_next = None,
     ce_last_forced = None\<rparr>"

type_synonym cache = "string \<rightharpoonup> cache_entry"

definition entry_of :: "cache \<Rightarrow> string \<Rightarrow> cache_entry" where
  "entry_of s d = (case s d of Some e \<Rightarrow> e | None \<Rightarrow> zero_entry)"

definition cache_get :: "cache \<Rightarrow> string \<Rightarrow> cache_entry option" where
  "cache_get s d = s d"

definition cache_set :: "cache \<Rightarrow> string \<Rightarrow> cache_entry \<Rightarrow> cache" where
  "cache_set s d e = s(d \<mapsto> e)"

definition cache_set_error :: "cache \<Rightarrow> string \<Rightarrow> string \<Rightarrow> cache" where
  "cache_set_error s d err = s(d \<mapsto> (entry_of s d)\<lparr>ce_err := Some err\<rparr>)"

definition should_force_full_refresh :: "cache \<Rightarrow> string \<Rightarrow> time \<Rightarrow> int \<Rightarrow> zone \<Rightarrow> bool \<times> cache" where
  "should_force_full_refresh s d now forced_hour z =
     (if local_hour z now \<noteq> forced_hour then (False, s)
      else let day = local_day z now; e = entry_of s d
           in if ce_last_forced e = Some day then (False, s)
              else (True, s(d \<mapsto> e\<lparr>ce_last_forced := Some day\<rparr>)))"

section \<open>A device's day\<close>

datatype cache_op = CSet string cache_entry | CError string string | CForce string time

text \<open>The run of a sequence of operations; the answers of \<open>ShouldForceFullRefresh\<close> for device \<open>d\<close> that
  were true, as the local days they fell on.\<close>

fun cache_step :: "int \<Rightarrow> zone \<Rightarrow> cache \<Rightarrow> cache_op \<Rightarrow> cache" where
  "cache_step h z s (CSet d e) = cache_set s d e"
| "cache_step h z s (CError d err) = cache_set_error s d err"
| "cache_step h z s (CForce d now) = snd (should_force_full_refresh s d now h z)"

fun forced_days :: "int \<Rightarrow> zone \<Rightarrow> string \<Rightarrow> cache \<Rightarrow> cache_op list \<Rightarrow> int list" where
  "forced_days h z d s [] = []"
| "forced_days h z d s (op # ops) =
     (case op of
        CForce d' now \<Rightarrow>
          if d' = d \<and> fst (should_force_full_refresh s d' now h z)
          then local_day z now # forced_days h z d (cache_step h z s op) ops
          else forced_days h z d (cache_step h z s op) ops
      | _ \<Rightarrow> forced_days h z d (cache_step h z s op) ops)"

lemma force_true:
  "fst (should_force_full_refresh s d now h z) \<longleftrightarrow>
     local_hour z now = h \<and> ce_last_forced (entry_of s d) \<noteq> Some (local_day z now)"
  by (simp add: should_force_full_refresh_def Let_def)

lemma force_marks:
  "fst (should_force_full_refresh s d now h z) \<Longrightarrow>
     ce_last_forced (entry_of (snd (should_force_full_refresh s d now h z)) d) = Some (local_day z now)"
  by (simp add: should_force_full_refresh_def Let_def entry_of_def split: if_splits)

lemma force_other:
  "d' \<noteq> d \<Longrightarrow> entry_of (snd (should_force_full_refresh s d' now h z)) d = entry_of s d"
  by (simp add: should_force_full_refresh_def Let_def entry_of_def)

lemma force_false:
  "\<not> fst (should_force_full_refresh s d now h z) \<Longrightarrow> snd (should_force_full_refresh s d now h z) = s"
  by (simp add: should_force_full_refresh_def Let_def split: if_splits)

lemma error_keeps_mark: "ce_last_forced (entry_of (cache_set_error s d' err) d) = ce_last_forced (entry_of s d)"
  by (simp add: cache_set_error_def entry_of_def)

definition no_set :: "string \<Rightarrow> cache_op list \<Rightarrow> bool" where
  "no_set d ops \<longleftrightarrow> (\<forall>e. CSet d e \<notin> set ops)"

definition force_times :: "string \<Rightarrow> cache_op list \<Rightarrow> time list" where
  "force_times d ops = concat (map (\<lambda>op. case op of CForce d' t \<Rightarrow> if d' = d then [t] else [] | _ \<Rightarrow> []) ops)"

lemma force_times_Cons [simp]:
  "force_times d (CSet d' e # ops) = force_times d ops"
  "force_times d (CError d' err # ops) = force_times d ops"
  "force_times d (CForce d' t # ops) = (if d' = d then t # force_times d ops else force_times d ops)"
  by (simp_all add: force_times_def)

lemma no_set_Cons:
  "no_set d (CSet d' e # ops) \<longleftrightarrow> d' \<noteq> d \<and> no_set d ops"
  "no_set d (CError d' err # ops) \<longleftrightarrow> no_set d ops"
  "no_set d (CForce d' t # ops) \<longleftrightarrow> no_set d ops"
  by (auto simp: no_set_def)

text \<open>C13. As long as no new rendering is stored for the device and the clock does not go back, the
  forced refresh is given at most once for each local day, and after the mark only on later days.\<close>

theorem forced_once_a_day:
  assumes "no_set d ops" "sorted (map (local_day z) (force_times d ops))"
    and "\<forall>m. ce_last_forced (entry_of s d) = Some m \<longrightarrow> (\<forall>t \<in> set (force_times d ops). m \<le> local_day z t)"
  shows "distinct (forced_days h z d s ops) \<and>
    (\<forall>m. ce_last_forced (entry_of s d) = Some m \<longrightarrow> (\<forall>x \<in> set (forced_days h z d s ops). m < x))"
  using assms
proof (induction ops arbitrary: s)
    case Nil
    show ?case by simp
  next
    case (Cons op ops)
    show ?case
    proof (cases op)
      case (CSet d' e)
      with Cons.prems have "d' \<noteq> d" by (simp add: no_set_Cons)
      then have "entry_of (cache_set s d' e) d = entry_of s d" by (simp add: cache_set_def entry_of_def)
      with Cons.IH [of "cache_set s d' e"] Cons.prems CSet show ?thesis by (simp add: no_set_Cons)
    next
      case (CError d' err)
      with Cons.IH [of "cache_set_error s d' err"] Cons.prems show ?thesis
        by (simp add: no_set_Cons error_keeps_mark)
    next
      case (CForce d' t)
      show ?thesis
      proof (cases "d' = d \<and> fst (should_force_full_refresh s d t h z)")
        case False
        then have "ce_last_forced (entry_of (snd (should_force_full_refresh s d' t h z)) d)
            = ce_last_forced (entry_of s d)"
          by (metis force_false force_other)
        with Cons.IH [of "snd (should_force_full_refresh s d' t h z)"] Cons.prems False CForce
        show ?thesis by (auto simp: no_set_Cons split: if_splits)
      next
        case True
        let ?s = "snd (should_force_full_refresh s d t h z)"
        have mark: "ce_last_forced (entry_of ?s d) = Some (local_day z t)" using True by (simp add: force_marks)
        have new: "ce_last_forced (entry_of s d) \<noteq> Some (local_day z t)" using True by (simp add: force_true)
        from Cons.IH [of ?s] Cons.prems CForce True mark
        have ih: "distinct (forced_days h z d ?s ops)" "\<forall>x \<in> set (forced_days h z d ?s ops). local_day z t < x"
          by (auto simp: no_set_Cons)
        with Cons.prems(3) new CForce True show ?thesis by fastforce
      qed
    qed
qed

theorem forced_once_a_day_witness:
  "distinct (forced_days 3 (\<lambda>t. 0) ''d1'' Map.empty
     [CForce ''d1'' (3 * hour), CError ''d1'' ''x'', CForce ''d1'' (3 * hour + minute)])"
proof -
  let ?ops = "[CForce ''d1'' (3 * hour), CError ''d1'' ''x'', CForce ''d1'' (3 * hour + minute)]"
  have "no_set ''d1'' ?ops" by (simp add: no_set_def)
  moreover have "sorted (map (local_day (\<lambda>t. 0)) (force_times ''d1'' ?ops))"
    by (simp add: force_times_def local_day_def local_secs_def unix_def dur_defs)
  ultimately show ?thesis
    using forced_once_a_day [of "''d1''" ?ops "\<lambda>t. 0" Map.empty 3]
    by (simp add: entry_of_def zero_entry_def del: forced_days.simps)
qed

text \<open>The entry that the poller stores has no mark, so a device that polls in the forced hour gets
  the forced refresh again after every rendering of that hour.\<close>

lemma poll_repeats_forced_refresh:
  assumes "local_hour z now = h" "local_hour z now' = h" "local_day z now' = local_day z now"
    and "ce_last_forced e = None"
  shows "fst (should_force_full_refresh
    (cache_set (snd (should_force_full_refresh s d now h z)) d e) d now' h z)"
  using assms by (simp add: force_true cache_set_def entry_of_def)

end
