(* ===== verification/Poller.thy ===== *)
theory Poller
  imports Cache ConfigEdit Telemetry
begin

text \<open>
  \<open>internal/poller/poller.go\<close>: one tick of the poller. The calendar is the argument \<open>fetch\<close> (the
  interface \<open>calendar.Provider\<close>; \<open>Inl\<close> is its error), the drawing of a frame the record \<open>renderer\<close>.
  The goroutines of a tick work on disjoint groups of displays and their writes to the two stores
  are atomic, so the model runs the groups one after the other; \<open>refresh_all_correct\<close> gives each
  display's result without mentioning an order, and \<open>refresh_groups_commute\<close> says that the order
  of two groups does not matter.
\<close>

section \<open>Displays of one room\<close>

text \<open>The loop of \<open>groupByRoomAddress\<close>: \<open>gs\<close> are the groups so far with their keys, in order.\<close>

fun add_to_groups :: "string \<Rightarrow> room \<Rightarrow> (string \<times> room list) list \<Rightarrow> (string \<times> room list) list" where
  "add_to_groups key r [] = [(key, [r])]"
| "add_to_groups key r ((k, g) # gs) =
     (if k = key then (k, g @ [r]) # gs else (k, g) # add_to_groups key r gs)"

definition keyed_groups :: "room list \<Rightarrow> (string \<times> room list) list" where
  "keyed_groups rooms = foldl (\<lambda>gs r. add_to_groups (to_lower (rm_room r)) r gs) [] rooms"

definition group_by_room_address :: "room list \<Rightarrow> room list list" where
  "group_by_room_address rooms = map snd (keyed_groups rooms)"

lemma add_to_groups_keys:
  "map fst (add_to_groups key r gs) = (if key \<in> set (map fst gs) then map fst gs else map fst gs @ [key])"
  by (induction key r gs rule: add_to_groups.induct) (simp_all del: set_map)

lemma add_to_groups_lookup:
  "map_of (add_to_groups key r gs) k =
     (if k = key then Some ((case map_of gs k of Some g \<Rightarrow> g | None \<Rightarrow> []) @ [r]) else map_of gs k)"
  by (induction gs) auto

lemma keyed_groups_snoc:
  "keyed_groups (rooms @ [r]) = add_to_groups (to_lower (rm_room r)) r (keyed_groups rooms)"
  by (simp add: keyed_groups_def)

lemma keyed_groups_correct:
  "distinct (map fst (keyed_groups rooms))
   \<and> map_of (keyed_groups rooms) k = (if room_group rooms k = [] then None else Some (room_group rooms k))"
proof (induction rooms rule: rev_induct)
  case Nil
  show ?case by (simp add: keyed_groups_def room_group_def)
next
  case (snoc r rooms)
  then show ?case
    by (auto simp: keyed_groups_snoc add_to_groups_keys add_to_groups_lookup room_group_def
        filter_empty_conv split: option.splits if_splits)
qed

lemma keyed_groups_mem:
  "(k, g) \<in> set (keyed_groups rooms) \<longleftrightarrow> g = room_group rooms k \<and> g \<noteq> []"
proof -
  have "(k, g) \<in> set (keyed_groups rooms) \<longleftrightarrow> map_of (keyed_groups rooms) k = Some g"
    using keyed_groups_correct [of rooms k] by (auto dest: map_of_SomeD)
  then show ?thesis using keyed_groups_correct [of rooms k] by auto
qed

lemma room_group_listed:
  "r \<in> set rooms \<Longrightarrow> room_group rooms (to_lower (rm_room r)) \<in> set (group_by_room_address rooms)"
proof -
  assume "r \<in> set rooms"
  then have "room_group rooms (to_lower (rm_room r)) \<noteq> []" by (auto simp: room_group_def filter_empty_conv)
  then have "(to_lower (rm_room r), room_group rooms (to_lower (rm_room r))) \<in> set (keyed_groups rooms)"
    by (simp add: keyed_groups_mem)
  then show ?thesis unfolding group_by_room_address_def by force
qed

text \<open>Every calendar address is fetched once: the groups are the displays that share an address up to
  case, each complete and in the order of the configuration, no two of them for one address, and
  every display is in one.\<close>

lemma groups_partition:
  "(\<forall>g \<in> set (group_by_room_address rooms). g \<noteq> [] \<and> g = room_group rooms (to_lower (rm_room (hd g))))
   \<and> distinct (map (to_lower \<circ> rm_room \<circ> hd) (group_by_room_address rooms))
   \<and> (\<forall>r \<in> set rooms. room_group rooms (to_lower (rm_room r)) \<in> set (group_by_room_address rooms))"
proof (intro conjI)
  have key: "to_lower (rm_room (hd g)) = k" if "(k, g) \<in> set (keyed_groups rooms)" for k g
  proof -
    have "hd g \<in> set (room_group rooms k)" using that by (auto simp: keyed_groups_mem)
    then show ?thesis by (simp add: room_group_def)
  qed
  then show "\<forall>g \<in> set (group_by_room_address rooms). g \<noteq> [] \<and> g = room_group rooms (to_lower (rm_room (hd g)))"
    by (fastforce simp: group_by_room_address_def keyed_groups_mem)
  have "map (to_lower \<circ> rm_room \<circ> hd) (group_by_room_address rooms) = map fst (keyed_groups rooms)"
    using key by (auto simp: group_by_room_address_def)
  then show "distinct (map (to_lower \<circ> rm_room \<circ> hd) (group_by_room_address rooms))"
    using keyed_groups_correct by simp
qed (auto intro: room_group_listed)

section \<open>One address\<close>

record 'img renderer =
  rn_compose :: "schedule \<Rightarrow> time \<Rightarrow> 'img"
  rn_pack :: "'img \<Rightarrow> byte list"
  rn_png :: "'img \<Rightarrow> byte list option"
  rn_width :: int
  rn_height :: int

text \<open>\<open>fmt.Sprintf("%q", fmt.Sprintf("%08x", crc))\<close>: hexadecimal digits need no escape.\<close>

definition etag_of :: "u32 \<Rightarrow> string" where
  "etag_of crc = CHR 0x22 # hex_encode (be32 crc) @ [CHR 0x22]"

definition compose_entry :: "'img renderer \<Rightarrow> schedule \<Rightarrow> string \<Rightarrow> time \<Rightarrow> cache_entry" where
  "compose_entry rn sched name now =
     (let named = sched\<lparr>sc_room_name := name\<rparr>;
          pal = rn_compose rn named now;
          pay = encode (rn_pack rn pal) (rn_width rn) (rn_height rn) 0 True
      in \<lparr>ce_payload = pay,
          ce_preview = (case rn_png rn pal of Some b \<Rightarrow> b | None \<Rightarrow> []),
          ce_etag = etag_of (pl_crc32 pay), ce_rendered_at = now, ce_err = None,
          ce_cur = current sched now, ce_next = next_event sched now, ce_last_forced = None\<rparr>)"

text \<open>The loop over the displays of a group; \<open>by_name\<close> is the memo of composed entries.\<close>

fun refresh_displays ::
  "'img renderer \<Rightarrow> schedule \<Rightarrow> time \<Rightarrow> (string \<times> cache_entry) list \<Rightarrow> room list
     \<Rightarrow> cache \<times> fleet \<Rightarrow> cache \<times> fleet" where
  "refresh_displays rn sched now by_name [] st = st"
| "refresh_displays rn sched now by_name (r # rs) (store, tlm) =
     (let cur = current sched now; nxt = next_event sched now;
          tlm = set_room_status tlm (rm_device_id r) (room_status cur nxt now)
      in case map_of by_name (rm_name r) of
           Some e \<Rightarrow> refresh_displays rn sched now by_name rs (cache_set store (rm_device_id r) e, tlm)
         | None \<Rightarrow>
             (let e = compose_entry rn sched (rm_name r) now
              in refresh_displays rn sched now ((rm_name r, e) # by_name) rs
                   (cache_set store (rm_device_id r) e, tlm)))"

fun fail_displays :: "string \<Rightarrow> room list \<Rightarrow> cache \<Rightarrow> cache" where
  "fail_displays err [] store = store"
| "fail_displays err (r # rs) store = fail_displays err rs (cache_set_error store (rm_device_id r) err)"

type_synonym fetcher = "string \<Rightarrow> time \<Rightarrow> time \<Rightarrow> string + schedule"

definition refresh_room ::
  "'img renderer \<Rightarrow> fetcher \<Rightarrow> time \<Rightarrow> time \<Rightarrow> time \<Rightarrow> room list \<Rightarrow> cache \<times> fleet \<Rightarrow> cache \<times> fleet" where
  "refresh_room rn fetch from til now grp st =
     (case fetch (rm_room (hd grp)) from til of
        Inl err \<Rightarrow> (fail_displays err grp (fst st), snd st)
      | Inr sched \<Rightarrow> refresh_displays rn sched now [] grp st)"

definition refresh_all ::
  "go_env \<Rightarrow> config \<Rightarrow> 'img renderer \<Rightarrow> fetcher \<Rightarrow> time \<Rightarrow> cache \<times> fleet \<Rightarrow> (cache \<times> fleet) option" where
  "refresh_all e c rn fetch now st =
     (case env_zone e (wk_timezone (cf_wake c)) of
        None \<Rightarrow> None
      | Some z \<Rightarrow>
          (let from = time_of_local z (local_day z now * 86400); til = from + 48 * hour
           in Some (foldl (\<lambda>st g. refresh_room rn fetch from til now g st) st
                      (group_by_room_address (cf_rooms c)))))"

section \<open>What a tick leaves\<close>

text \<open>The result for one display, given the answer of the calendar for its address.\<close>

definition refreshed :: "'img renderer \<Rightarrow> time \<Rightarrow> string + schedule \<Rightarrow> room \<Rightarrow> cache \<times> fleet \<Rightarrow> cache \<times> fleet \<Rightarrow> bool" where
  "refreshed rn now ans r old new \<longleftrightarrow>
     (let d = rm_device_id r in
      case ans of
        Inl err \<Rightarrow> fst new d = Some ((entry_of (fst old) d)\<lparr>ce_err := Some err\<rparr>) \<and> snd new d = snd old d
      | Inr s \<Rightarrow> fst new d = Some (compose_entry rn s (rm_name r) now)
          \<and> snd new d = Some ((state_of (snd old) d)\<lparr>ds_room_status := status_at s now\<rparr>))"

definition same_at :: "string \<Rightarrow> cache \<times> fleet \<Rightarrow> cache \<times> fleet \<Rightarrow> bool" where
  "same_at d old new \<longleftrightarrow> fst new d = fst old d \<and> snd new d = snd old d"

lemma refreshed_cong:
  "same_at (rm_device_id r) old old' \<Longrightarrow> same_at (rm_device_id r) new new' \<Longrightarrow>
     refreshed rn now ans r old new = refreshed rn now ans r old' new'"
  by (auto simp: refreshed_def same_at_def entry_of_def state_of_def Let_def split: sum.splits)

lemma fail_displays_result:
  assumes "distinct (map rm_device_id rs)"
  shows "fail_displays err rs store d =
    (if d \<in> rm_device_id ` set rs then Some ((entry_of store d)\<lparr>ce_err := Some err\<rparr>) else store d)"
  using assms
proof (induction rs arbitrary: store)
  case (Cons r rs)
  then show ?case
    by (cases "rm_device_id r = d") (auto simp: cache_set_error_def entry_of_def)
qed simp

text \<open>The memo holds composed entries, so it makes no difference.\<close>

definition memo_ok :: "'img renderer \<Rightarrow> schedule \<Rightarrow> time \<Rightarrow> (string \<times> cache_entry) list \<Rightarrow> bool" where
  "memo_ok rn sched now by_name \<longleftrightarrow>
     (\<forall>n e. map_of by_name n = Some e \<longrightarrow> e = compose_entry rn sched n now)"

lemma refresh_displays_result:
  assumes "distinct (map rm_device_id rs)" "memo_ok rn sched now by_name"
  shows "(\<forall>r \<in> set rs. refreshed rn now (Inr sched) r st (refresh_displays rn sched now by_name rs st))
    \<and> (\<forall>d. d \<notin> rm_device_id ` set rs \<longrightarrow> same_at d st (refresh_displays rn sched now by_name rs st))"
  using assms
proof (induction rn sched now by_name rs st rule: refresh_displays.induct)
  case (1 rn sched now by_name st)
  show ?case by (simp add: same_at_def)
next
  case (2 rn sched now by_name r rs store tlm)
  define e where "e = compose_entry rn sched (rm_name r) now"
  define tlm' where "tlm' = set_room_status tlm (rm_device_id r) (status_at sched now)"
  define memo where "memo = (if map_of by_name (rm_name r) = None then (rm_name r, e) # by_name else by_name)"
  have eq: "refresh_displays rn sched now by_name (r # rs) (store, tlm) =
      refresh_displays rn sched now memo rs (cache_set store (rm_device_id r) e, tlm')"
    using 2(4) by (auto simp: Let_def tlm'_def e_def memo_def status_at_def memo_ok_def split: option.splits)
  let ?st' = "(cache_set store (rm_device_id r) e, tlm')"
  let ?new = "refresh_displays rn sched now memo rs ?st'"
  have memo: "memo_ok rn sched now memo" using 2(4) by (auto simp: memo_ok_def memo_def e_def)
  have ih: "(\<forall>x \<in> set rs. refreshed rn now (Inr sched) x ?st' ?new)
      \<and> (\<forall>d. d \<notin> rm_device_id ` set rs \<longrightarrow> same_at d ?st' ?new)"
  proof (cases "map_of by_name (rm_name r)")
    case None
    with 2(1) [OF refl refl refl None refl] 2(3) memo None show ?thesis
      by (simp add: memo_def e_def tlm'_def status_at_def)
  next
    case (Some x)
    with 2(4) have "x = e" by (simp add: memo_ok_def e_def)
    with 2(2) [OF refl refl refl Some] 2(3) memo Some show ?thesis
      by (simp add: memo_def tlm'_def status_at_def)
  qed
  have head: "refreshed rn now (Inr sched) r (store, tlm) ?st'"
    by (simp add: refreshed_def e_def tlm'_def cache_set_def set_room_status_def Let_def)
  have other: "same_at d (store, tlm) ?st'" if "d \<noteq> rm_device_id r" for d
    using that by (simp add: same_at_def tlm'_def cache_set_def set_room_status_def)
  have notin: "rm_device_id r \<notin> rm_device_id ` set rs" using 2(3) by simp
  have "refreshed rn now (Inr sched) x (store, tlm) ?new" if x: "x \<in> set (r # rs)" for x
  proof (cases "x = r")
    case True
    from ih notin have "same_at (rm_device_id r) ?st' ?new" by blast
    with head refreshed_cong [of r "(store, tlm)" "(store, tlm)" ?st' ?new rn now "Inr sched"] True show ?thesis
      by (simp add: same_at_def)
  next
    case False
    with x have "x \<in> set rs" by simp
    with notin have "rm_device_id x \<noteq> rm_device_id r" by (metis image_eqI)
    from other [OF this] refreshed_cong [of x "(store, tlm)" ?st' ?new ?new rn now "Inr sched"] ih \<open>x \<in> set rs\<close> show ?thesis
      by (simp add: same_at_def)
  qed
  moreover have "same_at d (store, tlm) ?new" if "d \<notin> rm_device_id ` set (r # rs)" for d
    using ih other [of d] that by (simp add: same_at_def)
  ultimately show ?case unfolding eq by simp
qed

lemma refresh_room_result:
  assumes "distinct (map rm_device_id g)"
  shows "(\<forall>r \<in> set g. refreshed rn now (fetch (rm_room (hd g)) from til) r st (refresh_room rn fetch from til now g st))
    \<and> (\<forall>d. d \<notin> rm_device_id ` set g \<longrightarrow> same_at d st (refresh_room rn fetch from til now g st))"
proof (cases "fetch (rm_room (hd g)) from til")
  case (Inl err)
  then show ?thesis
    by (auto simp: refresh_room_def refreshed_def same_at_def fail_displays_result [OF assms] Let_def)
next
  case (Inr sched)
  then show ?thesis
    using refresh_displays_result [OF assms, of rn sched now "[]" st]
    by (simp add: refresh_room_def memo_ok_def)
qed

lemma refreshed_det:
  "refreshed rn now ans r old new \<Longrightarrow> refreshed rn now ans r old' new' \<Longrightarrow> same_at (rm_device_id r) old old'
    \<Longrightarrow> same_at (rm_device_id r) new new'"
  by (auto simp: refreshed_def same_at_def entry_of_def state_of_def Let_def split: sum.splits)

lemma same_at_eq: "(\<And>d. same_at d a b) \<Longrightarrow> a = b"
  by (auto simp: same_at_def prod_eq_iff)

lemma same_at_trans: "same_at d a b \<Longrightarrow> same_at d b c \<Longrightarrow> same_at d a c"
  by (simp add: same_at_def)

lemma same_at_sym: "same_at d a b \<Longrightarrow> same_at d b a"
  by (simp add: same_at_def)

text \<open>Two groups that share no display can be refreshed in either order.\<close>

lemma refresh_groups_commute:
  assumes "distinct (map rm_device_id (g @ h))"
  shows "refresh_room rn fetch from til now h (refresh_room rn fetch from til now g st)
    = refresh_room rn fetch from til now g (refresh_room rn fetch from til now h st)"
proof (rule same_at_eq)
  fix d
  let ?R = "\<lambda>g. refresh_room rn fetch from til now g"
  have dg: "distinct (map rm_device_id g)" and dh: "distinct (map rm_device_id h)" using assms by auto
  note g1 = refresh_room_result [OF dg, of rn now fetch "from" til]
  note h1 = refresh_room_result [OF dh, of rn now fetch "from" til]
  have one: "same_at d (?R b (?R a st)) (?R a (?R b st))"
    if d: "d \<in> rm_device_id ` set a" "d \<notin> rm_device_id ` set b"
      and a: "\<And>st. (\<forall>r \<in> set a. refreshed rn now (fetch (rm_room (hd a)) from til) r st (?R a st))
        \<and> (\<forall>d. d \<notin> rm_device_id ` set a \<longrightarrow> same_at d st (?R a st))"
      and b: "\<And>st. (\<forall>r \<in> set b. refreshed rn now (fetch (rm_room (hd b)) from til) r st (?R b st))
        \<and> (\<forall>d. d \<notin> rm_device_id ` set b \<longrightarrow> same_at d st (?R b st))" for a b
  proof -
    from d(1) obtain r where r: "r \<in> set a" "d = rm_device_id r" by auto
    have "same_at d (?R a st) (?R a (?R b st))"
      using refreshed_det [OF a [of st, THEN conjunct1, rule_format, OF r(1)]
          a [of "?R b st", THEN conjunct1, rule_format, OF r(1)]] b [of st] d(2) r(2) by simp
    with b [of "?R a st"] d(2) show ?thesis by (blast intro: same_at_trans same_at_sym)
  qed
  show "same_at d (?R h (?R g st)) (?R g (?R h st))"
  proof (cases "d \<in> rm_device_id ` set g")
    case True
    with assms have "d \<notin> rm_device_id ` set h" by auto
    from one [OF True this g1 h1] show ?thesis .
  next
    case False
    show ?thesis
    proof (cases "d \<in> rm_device_id ` set h")
      case True
      from one [OF True False h1 g1] show ?thesis by (rule same_at_sym)
    next
      case out: False
      with False g1 h1 show ?thesis by (meson same_at_trans same_at_sym)
    qed
  qed
qed

lemma refresh_groups_result:
  assumes "distinct (map rm_device_id (concat gs))"
  shows "(\<forall>g \<in> set gs. \<forall>r \<in> set g. refreshed rn now (fetch (rm_room (hd g)) from til) r st
      (foldl (\<lambda>st g. refresh_room rn fetch from til now g st) st gs))
    \<and> (\<forall>d. d \<notin> rm_device_id ` set (concat gs) \<longrightarrow>
        same_at d st (foldl (\<lambda>st g. refresh_room rn fetch from til now g st) st gs))"
  using assms
proof (induction gs rule: rev_induct)
  case Nil
  show ?case by (simp add: same_at_def)
next
  case (snoc g gs)
  let ?mid = "foldl (\<lambda>st g. refresh_room rn fetch from til now g st) st gs"
  let ?new = "refresh_room rn fetch from til now g ?mid"
  have ih: "\<forall>h \<in> set gs. \<forall>r \<in> set h. refreshed rn now (fetch (rm_room (hd h)) from til) r st ?mid"
    "\<forall>d. d \<notin> rm_device_id ` set (concat gs) \<longrightarrow> same_at d st ?mid"
    using snoc by auto
  have dg: "distinct (map rm_device_id g)" using snoc.prems by simp
  note now' = refresh_room_result [OF dg, of rn now fetch "from" til ?mid]
  have "refreshed rn now (fetch (rm_room (hd h)) from til) r st ?new" if h: "h \<in> set gs" "r \<in> set h" for h r
  proof -
    have "rm_device_id r \<notin> rm_device_id ` set g" using snoc.prems h by auto
    with now' have "same_at (rm_device_id r) ?mid ?new" by blast
    moreover have "same_at (rm_device_id r) st st" by (simp add: same_at_def)
    moreover have "refreshed rn now (fetch (rm_room (hd h)) from til) r st ?mid" using ih(1) h by blast
    ultimately show ?thesis using refreshed_cong by blast
  qed
  moreover have "refreshed rn now (fetch (rm_room (hd g)) from til) r st ?new" if r: "r \<in> set g" for r
  proof -
    have "rm_device_id r \<notin> rm_device_id ` set (concat gs)" using snoc.prems r by auto
    with ih(2) have "same_at (rm_device_id r) st ?mid" by blast
    moreover have "same_at (rm_device_id r) ?new ?new" by (simp add: same_at_def)
    moreover have "refreshed rn now (fetch (rm_room (hd g)) from til) r ?mid ?new" using now' r by blast
    ultimately show ?thesis using refreshed_cong by blast
  qed
  moreover have "same_at d st ?new" if "d \<notin> rm_device_id ` set (concat (gs @ [g]))" for d
  proof -
    from that have "d \<notin> rm_device_id ` set (concat gs)" "d \<notin> rm_device_id ` set g" by auto
    with ih(2) now' have "same_at d st ?mid" "same_at d ?mid ?new" by blast+
    then show ?thesis by (rule same_at_trans)
  qed
  ultimately show ?case by auto
qed

lemma keyed_groups_mset: "mset (concat (map snd (keyed_groups rooms))) = mset rooms"
proof (induction rooms rule: rev_induct)
  case (snoc r rooms)
  have "mset (concat (map snd (add_to_groups k r gs))) = add_mset r (mset (concat (map snd gs)))" for k gs
    by (induction k r gs rule: add_to_groups.induct) auto
  with snoc show ?case by (simp add: keyed_groups_snoc)
qed (simp add: keyed_groups_def)

text \<open>After a tick every configured display has either the frame composed for its own name from the
  schedule of its address, with the events and the status of this instant, or keeps its frame with
  the error of the calendar; no other device is touched.\<close>

lemma refresh_all_correct:
  assumes "distinct (map rm_device_id (cf_rooms c))" "refresh_all e c rn fetch now st = Some new"
  shows "\<exists>z from til. env_zone e (wk_timezone (cf_wake c)) = Some z
    \<and> from = time_of_local z (local_day z now * 86400) \<and> til = from + 48 * hour
    \<and> (\<forall>r \<in> set (cf_rooms c). \<exists>addr. equal_fold addr (rm_room r)
          \<and> refreshed rn now (fetch addr from til) r st new)
    \<and> (\<forall>d. d \<notin> rm_device_id ` set (cf_rooms c) \<longrightarrow> same_at d st new)"
proof -
  from assms(2) obtain z where z: "env_zone e (wk_timezone (cf_wake c)) = Some z"
    by (auto simp: refresh_all_def split: option.splits)
  define frm where "frm = time_of_local z (local_day z now * 86400)"
  define gs where "gs = group_by_room_address (cf_rooms c)"
  have new: "new = foldl (\<lambda>st g. refresh_room rn fetch frm (frm + 48 * hour) now g st) st gs"
    using assms(2) z by (simp add: refresh_all_def frm_def gs_def Let_def)
  have mset: "mset (concat gs) = mset (cf_rooms c)"
    by (simp add: gs_def group_by_room_address_def keyed_groups_mset)
  then have "distinct (map rm_device_id (concat gs))"
    using assms(1) by (metis mset_map mset_eq_imp_distinct_iff)
  note res = refresh_groups_result [OF this, of rn now fetch frm "frm + 48 * hour" st, folded new]
  have "\<exists>addr. equal_fold addr (rm_room r) \<and> refreshed rn now (fetch addr frm (frm + 48 * hour)) r st new"
    if r: "r \<in> set (cf_rooms c)" for r
  proof -
    let ?g = "room_group (cf_rooms c) (to_lower (rm_room r))"
    have g: "?g \<in> set gs" using room_group_listed [OF r] by (simp add: gs_def)
    have mem: "r \<in> set ?g" using r by (simp add: room_group_def)
    then have "hd ?g \<in> set ?g" by (cases ?g) auto
    then have "equal_fold (rm_room (hd ?g)) (rm_room r)" by (simp add: room_group_def equal_fold_def)
    with res g mem show ?thesis by blast
  qed
  moreover have "set (concat gs) = set (cf_rooms c)" using mset by (rule mset_eq_setD)
  ultimately show ?thesis using z res by (auto simp: frm_def)
qed

section \<open>The loop\<close>

text \<open>\<open>Run\<close>: the first tick at once, then one whenever the ticker fires, each with the configuration, the
  answers of the calendar and the clock it meets. \<open>time.NewTicker\<close> panics for an interval that is not
  positive; the value \<open>None\<close> is a panic, of it or of a tick.\<close>

type_synonym tick = "config \<times> fetcher \<times> time"

definition poll_tick :: "go_env \<Rightarrow> 'img renderer \<Rightarrow> tick \<Rightarrow> cache \<times> fleet \<Rightarrow> (cache \<times> fleet) option" where
  "poll_tick e rn tk st = (case tk of (c, fetch, now) \<Rightarrow> refresh_all e c rn fetch now st)"

fun poll_ticks :: "go_env \<Rightarrow> 'img renderer \<Rightarrow> tick list \<Rightarrow> cache \<times> fleet \<Rightarrow> (cache \<times> fleet) option" where
  "poll_ticks e rn [] st = Some st"
| "poll_ticks e rn (tk # tks) st = Option.bind (poll_tick e rn tk st) (poll_ticks e rn tks)"

definition run_poller :: "go_env \<Rightarrow> 'img renderer \<Rightarrow> tick \<Rightarrow> tick list \<Rightarrow> cache \<times> fleet \<Rightarrow> (cache \<times> fleet) option" where
  "run_poller e rn tk tks st =
     Option.bind (poll_tick e rn tk st)
       (\<lambda>st. if cf_poll_interval (fst tk) \<le> 0 then None else poll_ticks e rn tks st)"

lemma poll_ticks_last:
  "poll_ticks e rn (tks @ [tk]) st = Some new \<Longrightarrow> \<exists>old. poll_ticks e rn tks st = Some old \<and> poll_tick e rn tk old = Some new"
  by (induction tks arbitrary: st) (auto simp: bind_eq_Some_conv split: option.splits)

text \<open>However long the poller has run, every display is as the last tick left it.\<close>

lemma run_poller_last:
  assumes "run_poller e rn tk tks st = Some new"
  shows "\<exists>old. poll_tick e rn (last (tk # tks)) old = Some new"
proof -
  obtain st1 where 1: "poll_tick e rn tk st = Some st1" "poll_ticks e rn tks st1 = Some new"
    using assms by (cases "poll_tick e rn tk st") (auto simp: run_poller_def split: if_splits)
  show ?thesis
  proof (cases tks rule: rev_cases)
    case Nil
    with 1 show ?thesis by (intro exI [of _ st]) simp
  next
    case (snoc ts t)
    with 1(2) obtain old where "poll_tick e rn t old = Some new" using poll_ticks_last by blast
    with snoc show ?thesis by (intro exI [of _ old]) simp
  qed
qed

text \<open>A negative interval passes \<open>Validate\<close> and ends the process at the first ticker.\<close>

lemma negative_interval_panics:
  "cf_poll_interval (fst tk) \<le> 0 \<Longrightarrow> run_poller e rn tk tks st = None"
  "validate e (c\<lparr>cf_poll_interval := n\<rparr>) = None \<longleftrightarrow> validate e c = None"
proof -
  show "cf_poll_interval (fst tk) \<le> 0 \<Longrightarrow> run_poller e rn tk tks st = None"
    by (cases "poll_tick e rn tk st") (simp_all add: run_poller_def)
  let ?c = "c\<lparr>cf_poll_interval := n\<rparr>"
  have "users_ok ?c = users_ok c" by (simp add: users_ok_def)
  moreover have "channels_ok e ?c = channels_ok e c"
    by (simp add: channels_ok_def validate_channel_def validate_lark_app_def Let_def)
  moreover have "subscriptions_ok e ?c = subscriptions_ok e c" by (simp add: subscriptions_ok_def)
  moreover have "locations_ok ?c = locations_ok c" by (simp add: locations_ok_def)
  moreover have "settings_ok e ?c = settings_ok e c" by (simp add: settings_ok_def)
  ultimately show "validate e ?c = None \<longleftrightarrow> validate e c = None" by (simp add: validates_wf well_formed_def)
qed

definition sample_renderer :: "schedule renderer" where
  "sample_renderer = \<lparr>rn_compose = (\<lambda>s t. s), rn_pack = (\<lambda>s. [0x11, 0x11]), rn_png = (\<lambda>s. None),
     rn_width = 2, rn_height = 2\<rparr>"

definition sample_fetch :: fetcher where
  "sample_fetch addr from til = (if addr = ''b@x.io'' then Inl ''unreachable'' else Inr (demo_fetch addr from 0))"

end
