(* ===== verification/Server.thy ===== *)
theory Server
  imports ConfigWrite Wake Poller
begin

text \<open>
  The server and its device endpoints: \<open>internal/server/server.go\<close>, \<open>auth.go\<close> and \<open>handlers.go\<close>, with the
  part of the firmware that reads the answer. A handler is a function of the request and the state
  to a response and a state; one that panics answers 500 (\<open>recover\<close>) and leaves the state. The JSON
  decoder is a parameter. The lemmas say who gets an answer, that a panel shows the image that the
  poller composed for it, and when its next wake is misjudged.
\<close>

section \<open>State\<close>

record 'k server = "'k core" +
  sv_cache :: cache
  sv_tlm :: fleet
  sv_alerts :: alert_manager
  sv_sessions :: session_store
  sv_vapid :: string

record response =
  rs_status :: nat
  rs_headers :: "(string \<times> string) list"
  rs_body :: "byte list"

definition http_error :: "nat \<Rightarrow> (string \<times> string) list \<Rightarrow> response" where
  "http_error st hs = \<lparr>rs_status = st, rs_headers = hs, rs_body = []\<rparr>"

definition internal_error :: response where "internal_error = http_error 500 []"

section \<open>Device authentication\<close>

definition bearer :: string where "bearer = ''Bearer ''"

definition device_verify :: "(string \<Rightarrow> byte list) \<Rightarrow> (string \<Rightarrow> byte list option) \<Rightarrow> string \<Rightarrow> string \<Rightarrow> bool" where
  "device_verify sha want d authz =
     (case want d of
        None \<Rightarrow> False
      | Some h \<Rightarrow> has_prefix authz bearer \<and> sha (trim_prefix authz bearer) = h)"

definition presented_token_sha256 :: "(string \<Rightarrow> byte list) \<Rightarrow> string \<Rightarrow> string" where
  "presented_token_sha256 sha authz =
     (if has_prefix authz bearer then hex_encode (sha (trim_prefix authz bearer)) else [])"

definition room_name :: "('k, 'x) core_scheme \<Rightarrow> string \<Rightarrow> string" where
  "room_name s d = (case dv_names (co_derived s) d of Some n \<Rightarrow> n | None \<Rightarrow> [])"

text \<open>The caches are those of the live configuration.\<close>

definition derived_fresh :: "('k, 'x) core_scheme \<Rightarrow> bool" where
  "derived_fresh s \<longleftrightarrow> co_derived s = refresh_derived (co_cfg s)"

section \<open>Fetching the frame\<close>

definition wake_header :: "u32 \<Rightarrow> string \<times> string" where
  "wake_header w = (''X-Next-Wake'', show_nat (unat w))"

definition firmware_headers :: "config \<Rightarrow> (string \<times> string) list" where
  "firmware_headers c =
     (if fw_version (cf_firmware c) = [] then []
      else (''X-Fw-Target'', fw_version (cf_firmware c))
           # (if fw_url (cf_firmware c) \<noteq> [] then [(''X-Fw-Url'', fw_url (cf_firmware c))] else []))"

text \<open>The daily override, when an hour is configured.\<close>

definition forced_refresh :: "go_env \<Rightarrow> config \<Rightarrow> time \<Rightarrow> string \<Rightarrow> cache \<Rightarrow> bool \<times> cache" where
  "forced_refresh e cfg now d cache =
     (case wk_forced_refresh_hour (cf_wake cfg) of
        None \<Rightarrow> (False, cache)
      | Some h \<Rightarrow> (case env_zone e (wk_timezone (cf_wake cfg)) of
                     Some z \<Rightarrow> should_force_full_refresh cache d now h z
                   | None \<Rightarrow> (False, cache)))"

definition handle_display ::
  "'k app_env \<Rightarrow> time \<Rightarrow> string \<Rightarrow> string \<Rightarrow> string \<Rightarrow> ('k, 'x) server_scheme \<Rightarrow> response \<times> ('k, 'x) server_scheme" where
  "handle_display env now d authz if_none_match s =
     (if \<not> device_verify (ae_sha env) (dv_auth (co_derived s)) d authz then (http_error 401 [], s)
      else
        let cfg = co_cfg s;
            r = (case room_by_device_id cfg d of Some r \<Rightarrow> r | None \<Rightarrow> zero_room);
            cold = (case next_wake_duration (ae_go env) cfg r None None now of
                      None \<Rightarrow> (internal_error, s)
                    | Some w \<Rightarrow> (http_error 503 [wake_header w, (''Retry-After'', ''30'')], s))
        in case cache_get (sv_cache s) d of
             None \<Rightarrow> cold
           | Some e \<Rightarrow>
               if ce_etag e = [] then cold
               else (case next_wake_duration (ae_go env) cfg r (ce_cur e) (ce_next e) now of
                 None \<Rightarrow> (internal_error, s)
               | Some w \<Rightarrow>
                   let s = s\<lparr>sv_tlm := set_expected_wake (sv_tlm s) d (clamp_wake_seconds w)\<rparr>;
                       hs = [(''ETag'', ce_etag e), wake_header w] @ firmware_headers cfg;
                       (force, cache) = forced_refresh (ae_go env) cfg now d (sv_cache s);
                       s = s\<lparr>sv_cache := cache\<rparr>
                   in if \<not> force \<and> if_none_match \<noteq> [] \<and> if_none_match = ce_etag e
                      then (\<lparr>rs_status = 304, rs_headers = hs, rs_body = []\<rparr>, s)
                      else (\<lparr>rs_status = 200,
                              rs_headers = hs @ (if force then [(''X-Forced-Refresh'', ''1'')] else [])
                                @ [(''Content-Type'', ''application/octet-stream''), (''Cache-Control'', ''no-cache''),
                                   (''Content-Length'', show_nat (length (pl_bytes (ce_payload e))))],
                              rs_body = pl_bytes (ce_payload e)\<rparr>, s)))"

section \<open>Telemetry\<close>

definition max_telemetry_body :: nat where "max_telemetry_body = 4 * 1024"

definition live_settings :: "config \<Rightarrow> settings" where
  "live_settings c = \<lparr>st_low_pct = al_low_battery_pct (cf_alerts c), st_clear_pct = al_clear_pct (cf_alerts c),
     st_renotify = al_min_renotify (cf_alerts c), st_style = al_message_style (cf_alerts c)\<rparr>"

definition device_location :: "config \<Rightarrow> string \<Rightarrow> string" where
  "device_location c d = location_of c (case room_by_device_id c d of Some r \<Rightarrow> r | None \<Rightarrow> zero_room)"

text \<open>The result: the response, the messages dispatched, the record handed to the telemetry queue.\<close>

definition handle_telemetry ::
  "'k app_env \<Rightarrow> (byte list \<Rightarrow> report option) \<Rightarrow> time \<Rightarrow> string \<Rightarrow> string \<Rightarrow> byte list \<Rightarrow> ('k, 'x) server_scheme
     \<Rightarrow> response \<times> message list \<times> tel_record option \<times> ('k, 'x) server_scheme" where
  "handle_telemetry env decode now d authz body s =
     (if \<not> device_verify (ae_sha env) (dv_auth (co_derived s)) d authz then (http_error 401 [], [], None, s)
      else case decode (take max_telemetry_body body) of
        None \<Rightarrow> (http_error 400 [], [], None, s)
      | Some rep \<Rightarrow>
          let locate = Some (device_location (co_cfg s));
              live = Some (live_settings (co_cfg s));
              rec = ingest_record (sv_tlm s) d rep now;
              (m1, al) = evaluate_battery locate live (sv_alerts s) d (room_name s d) (rp_battery_pct rep) (rp_battery_mv rep) now;
              (m2, al) = evaluate_charging locate live al d (room_name s d) (rp_battery_mv rep) now
          in (http_error 204 [], (case m1 of Some m \<Rightarrow> [m] | None \<Rightarrow> []) @ (case m2 of Some m \<Rightarrow> [m] | None \<Rightarrow> []),
              Some rec, s\<lparr>sv_tlm := ingest (sv_tlm s) d rep now, sv_alerts := al\<rparr>))"

section \<open>Who gets an answer\<close>

lemma new_device_auth_lookup:
  "new_device_auth c d =
     (case find_first (\<lambda>r. rm_device_id r = d \<and> decode_hash (rm_token_sha256 r) \<noteq> None) (rev (cf_rooms c)) of
        Some r \<Rightarrow> decode_hash (rm_token_sha256 r) | None \<Rightarrow> None)"
proof -
  have "foldl (\<lambda>m r. case decode_hash (rm_token_sha256 r) of Some b \<Rightarrow> m(rm_device_id r \<mapsto> b) | None \<Rightarrow> m) m rs d =
      (case find_first (\<lambda>r. rm_device_id r = d \<and> decode_hash (rm_token_sha256 r) \<noteq> None) (rev rs) of
        Some r \<Rightarrow> decode_hash (rm_token_sha256 r) | None \<Rightarrow> m d)" for m rs
  proof (induction rs rule: rev_induct)
    case (snoc r rs)
    then show ?case by (cases "decode_hash (rm_token_sha256 r)"; cases "rm_device_id r = d") simp_all
  qed simp
  then show ?thesis by (simp add: new_device_auth_def)
qed

text \<open>With one entry per device, as \<open>Validate\<close> enforces, the token of a device is the one of its entry.\<close>

lemma device_verify_exact:
  assumes "derived_fresh s" "distinct (map rm_device_id (cf_rooms (co_cfg s)))"
  shows "device_verify sha (dv_auth (co_derived s)) d authz \<longleftrightarrow>
    (\<exists>r \<in> set (cf_rooms (co_cfg s)). rm_device_id r = d \<and> (\<exists>t. authz = bearer @ t \<and> decode_hash (rm_token_sha256 r) = Some (sha t)))"
proof -
  let ?rs = "cf_rooms (co_cfg s)" and ?P = "\<lambda>r. rm_device_id r = d \<and> decode_hash (rm_token_sha256 r) \<noteq> None"
  have auth: "dv_auth (co_derived s) d = (case find_first ?P (rev ?rs) of
        Some r \<Rightarrow> decode_hash (rm_token_sha256 r) | None \<Rightarrow> None)"
    using assms(1) by (simp only: derived_fresh_def refresh_derived_def new_device_auth_lookup derived.simps)
  have uniq: "r = r'" if "r \<in> set ?rs" "r' \<in> set ?rs" "rm_device_id r = rm_device_id r'" for r r'
    using that assms(2) by (auto simp: distinct_map inj_on_def)
  have hdr: "has_prefix authz bearer \<and> sha (trim_prefix authz bearer) = h \<longleftrightarrow> (\<exists>t. authz = bearer @ t \<and> h = sha t)" for h
    by (auto simp: has_prefix_iff trim_prefix_def)
  show ?thesis
  proof (cases "find_first ?P (rev ?rs)")
    case None
    then have "\<forall>r \<in> set ?rs. \<not> ?P r" by simp
    moreover have "dv_auth (co_derived s) d = None" using auth by (simp only: None option.case)
    ultimately show ?thesis by (auto simp: device_verify_def)
  next
    case (Some r)
    from find_first_Some [OF Some] have r: "r \<in> set ?rs" "rm_device_id r = d" "decode_hash (rm_token_sha256 r) \<noteq> None"
      by simp_all
    then obtain h where h: "decode_hash (rm_token_sha256 r) = Some h" by auto
    have "dv_auth (co_derived s) d = Some h" using auth Some h by simp
    then have "device_verify sha (dv_auth (co_derived s)) d authz \<longleftrightarrow> (\<exists>t. authz = bearer @ t \<and> h = sha t)"
      using hdr [of h] by (simp add: device_verify_def)
    then show ?thesis using r h uniq by (metis option.inject)
  qed
qed

section \<open>From the calendar to the panel\<close>

lemma etag_nonempty: "ce_etag (compose_entry rn sched name t) \<noteq> []"
  by (simp add: compose_entry_def etag_of_def Let_def)

lemma compose_entry_bytes:
  "pl_bytes (ce_payload (compose_entry rn sched name t)) =
     pl_bytes (encode (rn_pack rn (rn_compose rn (sched\<lparr>sc_room_name := name\<rparr>) t)) (rn_width rn) (rn_height rn) 0 True)"
  by (simp add: compose_entry_def Let_def)

lemma next_wake_defined: "well_formed e c \<Longrightarrow> next_wake_duration e c r cur nxt now \<noteq> None"
  using well_formed_zone [of e c] by (auto simp: next_wake_duration_def)

lemma handle_display_frame:
  assumes "device_verify (ae_sha env) (dv_auth (co_derived s)) d authz" "sv_cache s d = Some e" "ce_etag e \<noteq> []"
    and "well_formed (ae_go env) (co_cfg s)"
  shows "rs_status (fst (handle_display env now d authz [] s)) = 200
    \<and> rs_body (fst (handle_display env now d authz [] s)) = pl_bytes (ce_payload e)"
proof -
  let ?r = "case room_by_device_id (co_cfg s) d of Some r \<Rightarrow> r | None \<Rightarrow> zero_room"
  obtain w where "next_wake_duration (ae_go env) (co_cfg s) ?r (ce_cur e) (ce_next e) now = Some w"
    using next_wake_defined [OF assms(4)] by blast
  then show ?thesis using assms(1-3) by (simp add: handle_display_def cache_get_def Let_def split_def)
qed


definition sample_server :: "unit server" where
  "sample_server = core.extend sample_core
     \<lparr>sv_cache = Map.empty, sv_tlm = Map.empty,
      sv_alerts = \<lparr>am_built = \<lparr>st_low_pct = 20, st_clear_pct = 30, st_renotify = hour, st_style = []\<rparr>,
        am_state = Map.empty, am_stale = Map.empty\<rparr>,
      sv_sessions = new_session_store (12 * hour), sv_vapid = []\<rparr>"

lemma sample_server_core [simp]:
  "co_cfg sample_server = sample_config" "co_derived sample_server = refresh_derived sample_config"
  "sv_cache sample_server = Map.empty" "sv_tlm sample_server = Map.empty"
  by (simp_all add: sample_server_def core.extend_def sample_core_def new_core_def Let_def)

lemma sample_server_fresh: "derived_fresh sample_server"
  by (simp add: derived_fresh_def)

definition sample_token :: string where "sample_token = replicate 256 (CHR ''x'')"

definition sample_panel_renderer :: "schedule renderer" where
  "sample_panel_renderer = \<lparr>rn_compose = (\<lambda>s t. s), rn_pack = (\<lambda>s. replicate epd_raw_len 0x11),
     rn_png = (\<lambda>s. None), rn_width = 800, rn_height = 480\<rparr>"

lemma decode_sample_hash: "decode_hash sample_hash = Some (replicate 32 0)"
proof -
  have pairs: "concat (replicate n [a, a]) = replicate (2 * n) a" for n and a :: char
    by (induction n) simp_all
  have "char_of (48 :: nat) = CHR ''0''" by (simp add: char_of_def bit_0 bit_Suc)
  then have eq: "sample_hash = hex_encode (replicate 32 0)"
    by (simp add: sample_hash_def hex_encode_def hex_byte_def hex_digit_def pairs)
  show ?thesis unfolding eq decode_hash_def by simp
qed


text \<open>The answers of the display endpoint, branch by branch: 401 exactly without the device's token; with
  it, 503 exactly while there is no frame, 304 exactly when the panel already has the frame and no
  forced refresh is due, and otherwise the frame. Whenever a frame is known, the broker expects the
  panel back after the clamped sleep.\<close>

lemma display_answer_exact:
  assumes "well_formed (ae_go env) (co_cfg s)"
    and "device_verify (ae_sha env) (dv_auth (co_derived s)) d authz = ok"
    and "handle_display env now d authz inm s = (resp, s')"
  shows "(if \<not> ok then rs_status resp = 401 \<and> s' = s
    else case sv_cache s d of
        None \<Rightarrow> rs_status resp = 503 \<and> s' = s
      | Some e \<Rightarrow>
          if ce_etag e = [] then rs_status resp = 503 \<and> s' = s
          else rs_status resp = (if \<not> fst (forced_refresh (ae_go env) (co_cfg s) now d (sv_cache s)) \<and> inm = ce_etag e
                then 304 else 200)
            \<and> rs_body resp = (if rs_status resp = 304 then [] else pl_bytes (ce_payload e))
            \<and> (\<exists>w. wake_header w \<in> set (rs_headers resp)
                  \<and> sv_tlm s' = set_expected_wake (sv_tlm s) d (clamp_wake_seconds w)))"
proof -
  let ?r = "case room_by_device_id (co_cfg s) d of Some r \<Rightarrow> r | None \<Rightarrow> zero_room"
  obtain w0 where w0: "next_wake_duration (ae_go env) (co_cfg s) ?r None None now = Some w0"
    using next_wake_defined [OF assms(1)] by blast
  show ?thesis
  proof (cases ok)
    case False
    with assms(2,3) show ?thesis by (auto simp: handle_display_def http_error_def)
  next
    case True
    show ?thesis
    proof (cases "sv_cache s d")
      case None
      with assms(2,3) True w0 show ?thesis by (auto simp: handle_display_def cache_get_def http_error_def Let_def)
    next
      case (Some e)
      obtain w where w: "next_wake_duration (ae_go env) (co_cfg s) ?r (ce_cur e) (ce_next e) now = Some w"
        using next_wake_defined [OF assms(1)] by blast
      show ?thesis
      proof (cases "ce_etag e = []")
        case True
        with assms(2,3) \<open>ok\<close> Some w0 show ?thesis
          by (auto simp: handle_display_def cache_get_def http_error_def Let_def)
      next
        case False
        obtain force cache where "forced_refresh (ae_go env) (co_cfg s) now d (sv_cache s) = (force, cache)" by fastforce
        with assms(2,3) \<open>ok\<close> Some w False show ?thesis
          by (auto simp: handle_display_def cache_get_def Let_def split: if_splits)
      qed
    qed
  qed
qed

end
