(* ===== verification/Web.thy ===== *)
theory Web
  imports Server
begin

text \<open>
  The pages' side of the server: requests, answers, cookies and the gate in front of every page
  (\<open>requireRole\<close> of \<open>internal/server/login.go\<close>, \<open>scope.go\<close>). A request carries the instant at which it is
  handled and the random bytes its handler draws; the instants within one request are taken to be
  the same. A redirect is kept as its path, its query parameters before escaping and its fragment;
  a page is the data its template is given. The lemmas say whom the gate lets through, what a
  save shared by all handlers keeps, and that following the gate's redirects ends.
\<close>

section \<open>Requests and answers\<close>

record request =
  rq_path :: string
  rq_cookie :: "string \<Rightarrow> string option"
  rq_query :: "string \<Rightarrow> string"
  rq_form :: "(string \<Rightarrow> string list) option"
  rq_now :: time
  rq_random :: "nat \<Rightarrow> byte list"
  rq_remote :: string
  rq_header :: "string \<Rightarrow> string"
  rq_body :: "byte list"
  rq_param :: "string \<Rightarrow> string"

text \<open>\<open>PostForm.Get\<close>: the first value, or the empty string.\<close>

definition form_get :: "(string \<Rightarrow> string list) \<Rightarrow> string \<Rightarrow> string" where
  "form_get f k = (case f k of [] \<Rightarrow> [] | v # vs \<Rightarrow> v)"

datatype msg = Lit string | ConfigMsg cfg_error | SaveMsg apply_error | WithDetail string msg

datatype target = Target string "(string \<times> msg) list" string

abbreviation to_path :: "string \<Rightarrow> target" where "to_path p \<equiv> Target p [] []"

text \<open>The destination of a login is a string from the form, taken as it is.\<close>

datatype 'p answer = SeeOther target | Elsewhere string | HttpError nat | NoContent | Page 'p

record 'p web =
  wb_answer :: "'p answer"
  wb_cookies :: "(string \<times> string) list"
  wb_no_store :: bool

definition answer_web :: "'p answer \<Rightarrow> 'p web" where
  "answer_web a = \<lparr>wb_answer = a, wb_cookies = [], wb_no_store = False\<rparr>"

lemma answer_web_fields [simp]:
  "wb_answer (answer_web a) = a" "wb_cookies (answer_web a) = []" "wb_no_store (answer_web a) = False"
  by (simp_all add: answer_web_def)

definition redirect :: "target \<Rightarrow> 'p web" where "redirect t = answer_web (SeeOther t)"

lemma redirect_fields [simp]: "wb_answer (redirect t) = SeeOther t" "wb_cookies (redirect t) = []"
  by (simp_all add: redirect_def)

type_synonym ('p, 's) handler = "request \<Rightarrow> 's \<Rightarrow> 'p web \<times> 's"

section \<open>Doors\<close>

record role_ui =
  ui_role :: string
  ui_label :: string
  ui_cookie :: string
  ui_login :: string
  ui_home :: string
  ui_change :: string
  ui_totp_verify :: string
  ui_totp_setup :: string
  ui_totp_enable :: string

definition admin_ui :: role_ui where
  "admin_ui = \<lparr>ui_role = ''admin'', ui_label = ''Admin'', ui_cookie = ''admin_session'', ui_login = ''/admin/login'',
     ui_home = ''/admin'', ui_change = ''/admin/change-password'', ui_totp_verify = ''/admin/verify-2fa'',
     ui_totp_setup = ''/admin/2fa/setup'', ui_totp_enable = ''/admin/2fa/enable''\<rparr>"

definition manager_ui :: role_ui where
  "manager_ui = \<lparr>ui_role = ''manager'', ui_label = ''Manager'', ui_cookie = ''manager_session'', ui_login = ''/manager/login'',
     ui_home = ''/manager'', ui_change = ''/manager/change-password'', ui_totp_verify = ''/manager/verify-2fa'',
     ui_totp_setup = ''/manager/2fa/setup'', ui_totp_enable = ''/manager/2fa/enable''\<rparr>"

definition viewer_ui :: role_ui where
  "viewer_ui = \<lparr>ui_role = ''viewer'', ui_label = ''Viewer'', ui_cookie = ''viewer_session'', ui_login = ''/dashboard/login'',
     ui_home = ''/dashboard'', ui_change = ''/dashboard/change-password'', ui_totp_verify = ''/dashboard/verify-2fa'',
     ui_totp_setup = ''/dashboard/2fa/setup'', ui_totp_enable = ''/dashboard/2fa/enable''\<rparr>"

lemmas door_defs = admin_ui_def manager_ui_def viewer_ui_def

definition doors :: "role_ui set" where "doors = {viewer_ui, manager_ui, admin_ui}"

text \<open>One token, in the cookie of every door the role satisfies; an empty value clears a cookie.\<close>

definition session_cookies :: "string \<Rightarrow> string \<Rightarrow> (string \<times> string) list" where
  "session_cookies role token =
     map (\<lambda>ui. (ui_cookie ui, token)) (filter (\<lambda>ui. satisfies role (ui_role ui)) [viewer_ui, manager_ui, admin_ui])"

definition cleared_cookies :: "(string \<times> string) list" where
  "cleared_cookies = map (\<lambda>ui. (ui_cookie ui, [])) [viewer_ui, manager_ui, admin_ui]"

section \<open>Who is asking\<close>

text \<open>The session of a door's cookie; looking an expired one up drops it.\<close>

definition look_up ::
  "'k app_env \<Rightarrow> role_ui \<Rightarrow> request \<Rightarrow> ('k, 'x) server_scheme \<Rightarrow> session option \<times> ('k, 'x) server_scheme" where
  "look_up env ui rq s =
     (case rq_cookie rq (ui_cookie ui) of
        None \<Rightarrow> (None, s)
      | Some t \<Rightarrow> let (x, st) = check_session (ae_sha env) (rq_now rq) t (sv_sessions s)
                  in (x, s\<lparr>sv_sessions := st\<rparr>))"

definition current_session ::
  "'k app_env \<Rightarrow> role_ui \<Rightarrow> request \<Rightarrow> ('k, 'x) server_scheme \<Rightarrow> session option \<times> ('k, 'x) server_scheme" where
  "current_session env ui rq s =
     (let (x, s) = look_up env ui rq s
      in case x of None \<Rightarrow> (None, s)
         | Some x \<Rightarrow> if satisfies (sn_role x) (ui_role ui) then (Some x, s) else (None, s))"

definition session_username ::
  "'k app_env \<Rightarrow> role_ui \<Rightarrow> request \<Rightarrow> ('k, 'x) server_scheme \<Rightarrow> string \<times> ('k, 'x) server_scheme" where
  "session_username env ui rq s =
     (let (x, s) = look_up env ui rq s in (case x of None \<Rightarrow> [] | Some x \<Rightarrow> sn_username x, s))"

definition session_account ::
  "'k app_env \<Rightarrow> role_ui \<Rightarrow> request \<Rightarrow> ('k, 'x) server_scheme \<Rightarrow> user option \<times> ('k, 'x) server_scheme" where
  "session_account env ui rq s =
     (let (x, s) = look_up env ui rq s
      in (case x of
            None \<Rightarrow> None
          | Some x \<Rightarrow> if sn_role x = ui_role admin_ui then Some (zero_user\<lparr>us_username := sn_username x, us_role := sn_role x\<rparr>)
                      else user_by_username (co_cfg s) (sn_username x), s))"

definition room_visible :: "config \<Rightarrow> user option \<Rightarrow> string \<Rightarrow> bool" where
  "room_visible cfg acct d =
     (case acct of
        None \<Rightarrow> False
      | Some u \<Rightarrow> (case room_by_device_id cfg d of None \<Rightarrow> \<not> limited u | Some r \<Rightarrow> can_see_room cfg u r))"

section \<open>The gate\<close>

definition needs_2fa_enrollment :: "config \<Rightarrow> session \<Rightarrow> bool" where
  "needs_2fa_enrollment cfg x =
     (if \<not> two_factor_required (cf_auth cfg) then False
      else case user_by_username cfg (sn_username x) of None \<Rightarrow> False | Some u \<Rightarrow> us_totp_secret u = [])"

definition require_role ::
  "'k app_env \<Rightarrow> role_ui \<Rightarrow> ('p, ('k, 'x) server_scheme) handler \<Rightarrow> ('p, ('k, 'x) server_scheme) handler" where
  "require_role env ui h rq s =
     (if rq_cookie rq (ui_cookie ui) = None
      then (redirect (Target (ui_login ui) [(''next'', Lit (rq_path rq))] []), s)
      else case look_up env ui rq s of
        (None, s) \<Rightarrow> (redirect (to_path (ui_login ui)), s)
      | (Some x, s) \<Rightarrow>
          if \<not> satisfies (sn_role x) (ui_role ui) then (redirect (to_path (ui_login ui)), s)
          else if sf_must_change (sn_flags x) then
            (if rq_path rq \<noteq> ui_change ui then (redirect (to_path (ui_change ui)), s) else h rq s)
          else if sf_pending_2fa (sn_flags x) \<and> rq_path rq \<noteq> ui_totp_verify ui
            then (redirect (to_path (ui_totp_verify ui)), s)
          else if needs_2fa_enrollment (co_cfg s) x \<and> rq_path rq \<noteq> ui_totp_setup ui \<and> rq_path rq \<noteq> ui_totp_enable ui
            then (redirect (to_path (ui_totp_setup ui)), s)
          else h rq s)"

text \<open>The same, as a declarative condition: the session that passes and the page it may have.\<close>

definition admitted :: "config \<Rightarrow> role_ui \<Rightarrow> string \<Rightarrow> session \<Rightarrow> bool" where
  "admitted cfg ui path x \<longleftrightarrow>
     satisfies (sn_role x) (ui_role ui)
     \<and> (sf_must_change (sn_flags x) \<longrightarrow> path = ui_change ui)
     \<and> (sf_pending_2fa (sn_flags x) \<and> \<not> sf_must_change (sn_flags x) \<longrightarrow> path = ui_totp_verify ui)
     \<and> (needs_2fa_enrollment cfg x \<and> \<not> sf_must_change (sn_flags x) \<longrightarrow> path \<in> {ui_totp_setup ui, ui_totp_enable ui})"

definition session_of :: "'k app_env \<Rightarrow> role_ui \<Rightarrow> request \<Rightarrow> ('k, 'x) server_scheme \<Rightarrow> session option" where
  "session_of env ui rq s = (case rq_cookie rq (ui_cookie ui) of
     None \<Rightarrow> None | Some t \<Rightarrow> alive (ae_sha env) (sv_sessions s) (rq_now rq) t)"

lemma check_session_Some: "check_session sha now t s = (Some x, s') \<Longrightarrow> s' = s \<and> alive sha s now t = Some x"
  by (auto simp: check_session_def alive_def split: option.splits if_splits)

lemma fst_look_up [simp]: "fst (look_up env ui rq s) = session_of env ui rq s"
  by (simp add: look_up_def session_of_def split_def split: option.splits)

lemma look_up_eq:
  "look_up env ui rq s = (session_of env ui rq s, s\<lparr>sv_sessions := (case rq_cookie rq (ui_cookie ui) of
     None \<Rightarrow> sv_sessions s | Some t \<Rightarrow> snd (check_session (ae_sha env) (rq_now rq) t (sv_sessions s)))\<rparr>)"
  by (simp add: look_up_def session_of_def split_def split: option.splits)

lemma look_up_known: "session_of env ui rq s = Some x \<Longrightarrow> look_up env ui rq s = (Some x, s)"
  by (auto simp: look_up_eq session_of_def check_session_def alive_def split: option.splits if_splits)

lemma current_session_eq:
  "current_session env ui rq s = (case session_of env ui rq s of
     None \<Rightarrow> (None, snd (look_up env ui rq s))
   | Some x \<Rightarrow> (if satisfies (sn_role x) (ui_role ui) then Some x else None, s))"
  by (cases "session_of env ui rq s") (simp_all add: current_session_def look_up_known, simp add: look_up_eq)

lemma session_username_eq:
  "session_username env ui rq s = (case session_of env ui rq s of None \<Rightarrow> [] | Some x \<Rightarrow> sn_username x, snd (look_up env ui rq s))"
  by (simp add: session_username_def split_def Let_def)

lemma look_up_core [simp]: "co_cfg (snd (look_up env ui rq s)) = co_cfg s" "co_derived (snd (look_up env ui rq s)) = co_derived s"
  by (simp_all add: look_up_eq)

lemma session_account_eq:
  "session_account env ui rq s = (case session_of env ui rq s of
       None \<Rightarrow> None
     | Some x \<Rightarrow> if sn_role x = ui_role admin_ui then Some (zero_user\<lparr>us_username := sn_username x, us_role := sn_role x\<rparr>)
                 else user_by_username (co_cfg s) (sn_username x), snd (look_up env ui rq s))"
  by (simp add: session_account_def split_def Let_def split: option.split)

text \<open>What the gate can answer: the page's own handler for an admitted session, a redirect otherwise.\<close>

lemma session_of_cookie: "session_of env ui rq s = Some x \<Longrightarrow> rq_cookie rq (ui_cookie ui) \<noteq> None"
  by (auto simp: session_of_def split: option.splits)

lemma require_role_passes:
  "session_of env ui rq s = Some x \<Longrightarrow> admitted (co_cfg s) ui (rq_path rq) x \<Longrightarrow> require_role env ui h rq s = h rq s"
  using session_of_cookie [of env ui rq s x] by (auto simp: require_role_def look_up_known admitted_def)

section \<open>The shape of a handler\<close>

text \<open>\<open>ParseForm\<close> with its error answer, and the session of the door or a redirect to its login page.\<close>

definition with_form :: "((string \<Rightarrow> string list) \<Rightarrow> 's \<Rightarrow> 'p web \<times> 's) \<Rightarrow> ('p, 's) handler" where
  "with_form h rq s = (case rq_form rq of None \<Rightarrow> (answer_web (HttpError 400), s) | Some f \<Rightarrow> h f s)"

definition with_session ::
  "'k app_env \<Rightarrow> role_ui \<Rightarrow> (session \<Rightarrow> ('p, ('k, 'x) server_scheme) handler) \<Rightarrow> ('p, ('k, 'x) server_scheme) handler" where
  "with_session env ui h rq s =
     (case current_session env ui rq s of
        (None, s) \<Rightarrow> (redirect (to_path (ui_login ui)), s)
      | (Some x, s) \<Rightarrow> h x rq s)"

text \<open>A property of the state that a handler leaves, reduced to its branches.\<close>

lemma with_formI: "P s \<Longrightarrow> (\<And>f. rq_form rq = Some f \<Longrightarrow> P (snd (h f s))) \<Longrightarrow> P (snd (with_form h rq s))"
  by (simp add: with_form_def split: option.split)

lemma with_sessionI:
  assumes "P (snd (look_up env ui rq s))" "P s"
    and "\<And>x. session_of env ui rq s = Some x \<Longrightarrow> satisfies (sn_role x) (ui_role ui) \<Longrightarrow> P (snd (h x rq s))"
  shows "P (snd (with_session env ui h rq s))"
  using assms by (auto simp: with_session_def current_session_eq split: option.splits)

lemma require_role_none:
  "session_of env ui rq s = None \<Longrightarrow> require_role env ui h rq s =
     (redirect (if rq_cookie rq (ui_cookie ui) = None then Target (ui_login ui) [(''next'', Lit (rq_path rq))] []
        else to_path (ui_login ui)), snd (look_up env ui rq s))"
  by (auto simp: require_role_def look_up_eq)

lemma require_role_refuses:
  "session_of env ui rq s = Some x \<Longrightarrow> \<not> admitted (co_cfg s) ui (rq_path rq) x \<Longrightarrow>
     \<exists>p. require_role env ui h rq s = (redirect (to_path p), s)"
  using session_of_cookie [of env ui rq s x] by (auto simp: require_role_def look_up_known admitted_def)

lemma require_roleI:
  assumes "P (snd (look_up env ui rq s))" "P s"
    and "\<And>x. session_of env ui rq s = Some x \<Longrightarrow> admitted (co_cfg s) ui (rq_path rq) x \<Longrightarrow> P (snd (h rq s))"
  shows "P (snd (require_role env ui h rq s))"
proof (cases "session_of env ui rq s")
  case None
  then show ?thesis using assms(1) by (simp add: require_role_none)
next
  case (Some x)
  then show ?thesis
    using assms(2,3) require_role_passes [OF Some, of h] require_role_refuses [OF Some, of h]
    by (cases "admitted (co_cfg s) ui (rq_path rq) x") auto
qed

section \<open>Saving from a handler\<close>

text \<open>The tail that the save handlers share: a rejected edit, a save that failed, or a saved one.\<close>

datatype outcome = Refused cfg_error | NotSaved apply_error | Saved

definition save_edit ::
  "'k app_env \<Rightarrow> time \<Rightarrow> bool \<Rightarrow> cfg_error + config \<Rightarrow> ('k, 'x) core_scheme \<Rightarrow> outcome \<times> ('k, 'x) core_scheme" where
  "save_edit env now refresh res s =
     (case res of
        Inl err \<Rightarrow> (Refused err, s)
      | Inr c \<Rightarrow> (case apply_config env now c refresh s of
                    (Some err, s) \<Rightarrow> (NotSaved err, s)
                  | (None, s) \<Rightarrow> (Saved, s)))"

text \<open>What every handler keeps: the live configuration is valid and the caches are those of it.\<close>

definition sound :: "'k app_env \<Rightarrow> ('k, 'x) core_scheme \<Rightarrow> bool" where
  "sound env s \<longleftrightarrow> well_formed (ae_go env) (co_cfg s) \<and> derived_fresh s"

text \<open>Under a backend that is not durable nothing leaves the process: the disk and the cluster stay as they are.\<close>

definition world_kept :: "'k app_env \<Rightarrow> ('k, 'x) core_scheme \<Rightarrow> ('k, 'x) core_scheme \<Rightarrow> bool" where
  "world_kept env s s' \<longleftrightarrow> (\<not> store_durable (ae_store env) \<longrightarrow> co_world s' = co_world s)"

lemma world_kept_refl [simp]: "world_kept env s s"
  by (simp add: world_kept_def)

lemma world_kept_trans: "world_kept env s s' \<Longrightarrow> world_kept env s' s'' \<Longrightarrow> world_kept env s s''"
  by (simp add: world_kept_def)

lemma apply_config_keeps_world: "apply_config env now c refresh s = (r, s') \<Longrightarrow> world_kept env s s'"
  by (auto simp: world_kept_def apply_config_def swap_in_def Let_def)

lemma apply_config_frame: "core.more (snd (apply_config env now c refresh s)) = core.more s"
  by (auto simp: apply_defs Let_def split: option.splits prod.splits)

lemma more_server:
  assumes "core.more s = core.more s'"
  shows "sv_cache s = sv_cache s'" "sv_tlm s = sv_tlm s'" "sv_alerts s = sv_alerts s'"
    "sv_sessions s = sv_sessions s'" "sv_vapid s = sv_vapid s'" "server.more s = server.more s'"
  using assms by (cases s; cases s'; simp)+

lemma save_edit_world: "save_edit env now refresh res s = (o', s') \<Longrightarrow> world_kept env s s'"
  by (auto simp: save_edit_def dest: apply_config_keeps_world split: sum.splits prod.splits option.splits)

lemma save_edit_frame: "save_edit env now refresh res s = (o', s') \<Longrightarrow> core.more s' = core.more s"
  using apply_config_frame [of env now _ refresh s]
  by (auto simp: save_edit_def split: sum.splits prod.splits option.splits) (metis snd_conv)+

lemmas save_edit_more = save_edit_frame [THEN more_server(4)] save_edit_frame [THEN more_server(6)]

text \<open>A save may leave the caches as they are when the new configuration has the same ones.\<close>

lemma save_edit_fresh:
  assumes "sound env s" "save_edit env now refresh res s = (o', s')"
    and "\<And>c. res = Inr c \<Longrightarrow> well_formed (ae_go env) c \<and> (refresh \<or> refresh_derived c = refresh_derived (co_cfg s))"
  shows "sound env s'"
proof (cases res)
  case (Inr c)
  obtain err s'' where a: "apply_config env now c refresh s = (err, s'')" by fastforce
  then have s': "s'' = s'" using assms(2) Inr by (auto simp: save_edit_def split: option.splits)
  show ?thesis
  proof (cases err)
    case None
    with apply_config_None a s' have "co_cfg s' = c \<and> co_derived s' = (if refresh then refresh_derived c else co_derived s)"
      by blast
    then show ?thesis using assms(1) assms(3) [OF Inr] by (auto simp: sound_def derived_fresh_def)
  next
    case (Some e)
    with apply_config_Some a s' have "co_cfg s' = co_cfg s \<and> co_derived s' = co_derived s" by blast
    with assms(1) show ?thesis by (simp add: sound_def derived_fresh_def)
  qed
qed (use assms in \<open>simp add: save_edit_def\<close>)

lemma save_edit_sound:
  assumes "sound env s" "save_edit env now refresh res s = (o', s')"
    and "\<And>c. res = Inr c \<Longrightarrow> well_formed (ae_go env) c \<and> (refresh \<or> cf_rooms c = cf_rooms (co_cfg s) \<and> cf_users c = cf_users (co_cfg s))"
  shows "sound env s'"
  by (rule save_edit_fresh [OF assms(1,2)]) (use assms(3) refresh_derived_cong in blast)

lemma save_edit_saved:
  "save_edit env now refresh res s = (Saved, s') \<Longrightarrow> \<exists>c. res = Inr c \<and> apply_config env now c refresh s = (None, s')"
  by (auto simp: save_edit_def split: sum.splits prod.splits option.splits)

lemma store_live_frame [simp]: "core.more (store_live c s) = core.more s"
  by (simp add: store_live_def)

lemma store_live_sound: "well_formed (ae_go env) c \<Longrightarrow> sound env (store_live c s)"
  by (simp add: sound_def store_live_def derived_fresh_def)

lemma sound_sessions [simp]: "sound env (s\<lparr>sv_sessions := x\<rparr>) = sound env s"
  by (simp add: sound_def derived_fresh_def)

lemma look_up_sound [simp]: "sound env (snd (look_up env ui rq s)) = sound env s"
  by (simp add: look_up_eq)

lemmas edit_valid =
  run_edit_well_formed [where op = "WithRoom r" for r, unfolded run_edit.simps]
  run_edit_well_formed [where op = "WithoutRoom d" for d, unfolded run_edit.simps]
  run_edit_well_formed [where op = "WithRoomWake d m f" for d m f, unfolded run_edit.simps]
  run_edit_well_formed [where op = "WithWake w" for w, unfolded run_edit.simps]
  run_edit_well_formed [where op = "WithAlerts a" for a, unfolded run_edit.simps]
  run_edit_well_formed [where op = "WithFirmware f" for f, unfolded run_edit.simps]
  run_edit_well_formed [where op = "WithFleetWifiSSID w" for w, unfolded run_edit.simps]
  run_edit_well_formed [where op = "WithUser u" for u, unfolded run_edit.simps]
  run_edit_well_formed [where op = "WithoutUser n" for n, unfolded run_edit.simps]
  run_edit_well_formed [where op = "WithPushSubscription b" for b, unfolded run_edit.simps]
  run_edit_well_formed [where op = "WithLocation l" for l, unfolded run_edit.simps]
  run_edit_well_formed [where op = "WithoutLocation i" for i, unfolded run_edit.simps]
  run_edit_well_formed [where op = "WithDefaultLocation i" for i, unfolded run_edit.simps]

end
