(* ===== verification/Login.thy ===== *)
theory Login
  imports Web
begin

text \<open>
  Signing in and out: \<open>internal/server/login.go\<close> and the two-factor handlers of \<open>admin.go\<close>. HMAC-SHA1 is
  a parameter, as SHA-256 is; the QR code of the setup page is left out. A failed save that is logged
  only leaves no trace in the model beyond the persistence strip. The lemmas say which requests
  make a token stand for which session.
\<close>

section \<open>Pages\<close>

datatype login_page =
    LoginPage string string string bool bool
  | ChangePasswordPage string string string strip
  | TotpVerifyPage string string bool
  | TotpSetupPage string string string bool string bool

type_synonym hmac = "byte list \<Rightarrow> byte list \<Rightarrow> byte list"

definition handle_login_page :: "role_ui \<Rightarrow> (login_page, ('k, 'x) server_scheme) handler" where
  "handle_login_page ui rq s =
     (answer_web (Page (LoginPage (ui_label ui) (ui_login ui) (rq_query rq ''next'') (rq_query rq ''error'' \<noteq> [])
        (pr_enabled (ac_password_reset (cf_auth (co_cfg s)))))), s)"

definition handle_change_password_page :: "role_ui \<Rightarrow> (login_page, ('k, 'x) server_scheme) handler" where
  "handle_change_password_page ui rq s =
     (let e = rq_query rq ''error'';
          text = (if e = [] then [] else if e = ''1'' then ''Passwords must match and can'' @ [CHR 0x27] @ ''t be blank.'' else e)
      in (answer_web (Page (ChangePasswordPage (ui_label ui) (ui_change ui) text (persist_strip (co_pstate s)))), s))"

definition handle_totp_verify_page :: "role_ui \<Rightarrow> (login_page, ('k, 'x) server_scheme) handler" where
  "handle_totp_verify_page ui rq s =
     (answer_web (Page (TotpVerifyPage (ui_label ui) (ui_totp_verify ui) (rq_query rq ''error'' \<noteq> []))), s)"

section \<open>Signing in and out\<close>

definition fresh_token :: "request \<Rightarrow> string" where "fresh_token rq = new_token (rq_random rq 0)"

definition sha_hex :: "'k app_env \<Rightarrow> string \<Rightarrow> string" where "sha_hex env p = hex_encode (ae_sha env p)"

definition start_session ::
  "'k app_env \<Rightarrow> request \<Rightarrow> string \<Rightarrow> string \<Rightarrow> session_flags \<Rightarrow> ('k, 'x) server_scheme \<Rightarrow> ('k, 'x) server_scheme" where
  "start_session env rq role username flags s =
     s\<lparr>sv_sessions := create_session (ae_sha env) (rq_now rq) (fresh_token rq) role username flags (sv_sessions s)\<rparr>"

definition end_session :: "'k app_env \<Rightarrow> request \<Rightarrow> string \<Rightarrow> ('k, 'x) server_scheme \<Rightarrow> ('k, 'x) server_scheme" where
  "end_session env rq token s = s\<lparr>sv_sessions := revoke_session (ae_sha env) (rq_now rq) token (sv_sessions s)\<rparr>"

definition handle_login_submit :: "'k app_env \<Rightarrow> role_ui \<Rightarrow> (login_page, ('k, 'x) server_scheme) handler" where
  "handle_login_submit env ui rq = with_form (\<lambda>f s.
     let username = form_get f ''username''; next = form_get f ''next'';
         deny = redirect (Target (ui_login ui)
           ((''error'', Lit ''1'') # (if next \<noteq> [] then [(''next'', Lit next)] else [])) [])
     in case verify (ae_sha env) (dv_directory (co_derived s)) username (form_get f ''password'') of
          None \<Rightarrow> (deny, s)
        | Some r \<Rightarrow>
            if \<not> satisfies (vr_role r) (ui_role ui) then (deny, s)
            else
              let s = start_session env rq (vr_role r) username
                        \<lparr>sf_must_change = vr_must_change r, sf_pending_2fa = vr_totp r\<rparr> s;
                  dest = (if vr_must_change r then SeeOther (to_path (ui_change ui))
                          else if vr_totp r then SeeOther (to_path (ui_totp_verify ui))
                          else if next \<noteq> [] then Elsewhere next
                          else SeeOther (to_path (ui_home viewer_ui)))
              in ((answer_web dest)\<lparr>wb_cookies := session_cookies (vr_role r) (fresh_token rq)\<rparr>, s)) rq"

definition handle_logout :: "'k app_env \<Rightarrow> role_ui \<Rightarrow> (login_page, ('k, 'x) server_scheme) handler" where
  "handle_logout env ui rq s =
     ((redirect (to_path (ui_login ui)))\<lparr>wb_cookies := cleared_cookies\<rparr>,
      case rq_cookie rq (ui_cookie ui) of None \<Rightarrow> s | Some t \<Rightarrow> end_session env rq t s)"

text \<open>The old token is revoked and a new session is issued with the flags given.\<close>

definition reissue_session ::
  "'k app_env \<Rightarrow> role_ui \<Rightarrow> request \<Rightarrow> session \<Rightarrow> session_flags \<Rightarrow> ('k, 'x) server_scheme \<Rightarrow> ('k, 'x) server_scheme" where
  "reissue_session env ui rq x flags s =
     start_session env rq (sn_role x) (sn_username x) flags
       (case rq_cookie rq (ui_cookie ui) of None \<Rightarrow> s | Some t \<Rightarrow> end_session env rq t s)"

text \<open>A password change whose save fails goes live all the same, so that its holder is not locked out.\<close>

definition save_or_live :: "'k app_env \<Rightarrow> time \<Rightarrow> config \<Rightarrow> ('k, 'x) core_scheme \<Rightarrow> ('k, 'x) core_scheme" where
  "save_or_live env now c s = (case apply_config env now c True s of (None, s) \<Rightarrow> s | (Some err, s) \<Rightarrow> store_live c s)"

definition handle_change_password_submit :: "'k app_env \<Rightarrow> role_ui \<Rightarrow> (login_page, ('k, 'x) server_scheme) handler" where
  "handle_change_password_submit env ui = with_session env ui (\<lambda>x rq. with_form (\<lambda>f s.
     let p = form_get f ''password'';
         again = redirect (Target (ui_change ui) [(''error'', Lit ''1'')] [])
     in if p = [] \<or> p \<noteq> form_get f ''password_confirm'' then (again, s)
        else case user_by_username (co_cfg s) (sn_username x) of
          None \<Rightarrow> (redirect (to_path (ui_login ui)), s)
        | Some u \<Rightarrow>
            (case with_user (ae_go env) (co_cfg s) (u\<lparr>us_password_sha256 := sha_hex env p, us_must_change := False\<rparr>) of
               Inl err \<Rightarrow> (again, s)
             | Inr c \<Rightarrow>
                 let pending = sf_pending_2fa (sn_flags x)
                 in ((redirect (to_path (if pending then ui_totp_verify ui else ui_home viewer_ui)))
                       \<lparr>wb_cookies := session_cookies (sn_role x) (fresh_token rq)\<rparr>,
                     reissue_session env ui rq x \<lparr>sf_must_change = False, sf_pending_2fa = pending\<rparr>
                       (save_or_live env (rq_now rq) c s)))) rq)"

definition code_accepted :: "hmac \<Rightarrow> config \<Rightarrow> string \<Rightarrow> string \<Rightarrow> time \<Rightarrow> bool" where
  "code_accepted hm cfg username code now =
     (case user_by_username cfg username of
        None \<Rightarrow> False
      | Some u \<Rightarrow> us_totp_secret u \<noteq> [] \<and> verify_totp hm (us_totp_secret u) code now)"

definition handle_totp_verify_submit :: "'k app_env \<Rightarrow> hmac \<Rightarrow> role_ui \<Rightarrow> (login_page, ('k, 'x) server_scheme) handler" where
  "handle_totp_verify_submit env hm ui = with_session env ui (\<lambda>x rq. with_form (\<lambda>f s.
     if code_accepted hm (co_cfg s) (sn_username x) (form_get f ''code'') (rq_now rq)
     then ((redirect (to_path (ui_home viewer_ui)))\<lparr>wb_cookies := session_cookies (sn_role x) (fresh_token rq)\<rparr>,
           reissue_session env ui rq x \<lparr>sf_must_change = False, sf_pending_2fa = False\<rparr> s)
     else (redirect (Target (ui_totp_verify ui) [(''error'', Lit ''1'')] []), s)) rq)"

section \<open>Setting a second factor up\<close>

definition totp_issuer :: string where "totp_issuer = ''MeetingDisplayFleet''"

definition totp_setup_view :: "config \<Rightarrow> role_ui \<Rightarrow> session \<Rightarrow> string \<Rightarrow> bool \<Rightarrow> login_page" where
  "totp_setup_view cfg ui x secret err =
     TotpSetupPage (sn_username x) secret (totp_uri totp_issuer (sn_username x) secret) err (ui_totp_enable ui)
       (two_factor_required (cf_auth cfg))"

definition handle_totp_setup_page :: "'k app_env \<Rightarrow> role_ui \<Rightarrow> (login_page, ('k, 'x) server_scheme) handler" where
  "handle_totp_setup_page env ui = with_session env ui (\<lambda>x rq s.
     (answer_web (Page (totp_setup_view (co_cfg s) ui x (new_totp_secret (rq_random rq 0)) False)), s))"

definition handle_totp_enable_submit :: "'k app_env \<Rightarrow> hmac \<Rightarrow> role_ui \<Rightarrow> (login_page, ('k, 'x) server_scheme) handler" where
  "handle_totp_enable_submit env hm ui = with_session env ui (\<lambda>x rq. with_form (\<lambda>f s.
     let secret = form_get f ''secret''
     in if \<not> verify_totp hm secret (form_get f ''code'') (rq_now rq)
        then (answer_web (Page (totp_setup_view (co_cfg s) ui x secret True)), s)
        else case user_by_username (co_cfg s) (sn_username x) of
          None \<Rightarrow> (redirect (to_path (ui_login ui)), s)
        | Some u \<Rightarrow>
            (case save_edit env (rq_now rq) True (with_user (ae_go env) (co_cfg s) (u\<lparr>us_totp_secret := secret\<rparr>)) s of
               (Refused err, s) \<Rightarrow> (redirect (Target (ui_home ui) [(''error'', ConfigMsg err)] ''security''), s)
             | (NotSaved err, s) \<Rightarrow> (redirect (Target (ui_home ui) [(''error'', SaveMsg err)] ''security''), s)
             | (Saved, s) \<Rightarrow>
                 (if ui_role ui = ui_role admin_ui
                  then redirect (Target ''/admin'' [(''saved'', Lit ''security'')] ''security'')
                  else redirect (to_path (ui_home ui)), s))) rq)"

definition security_error :: "msg \<Rightarrow> 'p web" where
  "security_error m = redirect (Target ''/admin'' [(''error'', m)] ''security'')"

definition handle_totp_disable_submit :: "'k app_env \<Rightarrow> hmac \<Rightarrow> (login_page, ('k, 'x) server_scheme) handler" where
  "handle_totp_disable_submit env hm = with_session env admin_ui (\<lambda>x rq s.
     if two_factor_required (cf_auth (co_cfg s))
     then (security_error (Lit (''2FA is required for every account, so it can'' @ [CHR 0x27] @ ''t be turned off.'')), s)
     else with_form (\<lambda>f s.
       if \<not> code_accepted hm (co_cfg s) (sn_username x) (form_get f ''code'') (rq_now rq)
       then (security_error (Lit ''incorrect code''), s)
       else case user_by_username (co_cfg s) (sn_username x) of
         None \<Rightarrow> (security_error (Lit ''incorrect code''), s)
       | Some u \<Rightarrow>
           (case save_edit env (rq_now rq) True (with_user (ae_go env) (co_cfg s) (u\<lparr>us_totp_secret := []\<rparr>)) s of
              (Refused err, s) \<Rightarrow> (security_error (ConfigMsg err), s)
            | (NotSaved err, s) \<Rightarrow> (security_error (SaveMsg err), s)
            | (Saved, s) \<Rightarrow> (redirect (Target ''/admin'' [(''saved'', Lit ''security'')] ''security''), s))) rq s)"

text \<open>Every session of an account is ended, in whatever case its name was typed.\<close>

definition revoke_user :: "time \<Rightarrow> string \<Rightarrow> ('k, 'x) server_scheme \<Rightarrow> ('k, 'x) server_scheme" where
  "revoke_user now u s = s\<lparr>sv_sessions := revoke_by_username now u (sv_sessions s)\<rparr>"

section \<open>How a session is earned\<close>

text \<open>The ways in which a request can make its fresh token stand for a session.\<close>

inductive earns :: "'k app_env \<Rightarrow> hmac \<Rightarrow> request \<Rightarrow> ('k, 'x) server_scheme \<Rightarrow> session \<Rightarrow> bool" for env hm rq s where
  by_password: "rq_form rq = Some f \<Longrightarrow>
    verify (ae_sha env) (dv_directory (co_derived s)) (form_get f ''username'') (form_get f ''password'') = Some r \<Longrightarrow>
    earns env hm rq s \<lparr>sn_role = vr_role r, sn_username = form_get f ''username'',
      sn_flags = \<lparr>sf_must_change = vr_must_change r, sf_pending_2fa = vr_totp r\<rparr>\<rparr>"
| by_new_password: "session_of env ui rq s = Some y \<Longrightarrow> satisfies (sn_role y) (ui_role ui) \<Longrightarrow>
    rq_form rq = Some f \<Longrightarrow> form_get f ''password'' \<noteq> [] \<Longrightarrow>
    earns env hm rq s (y\<lparr>sn_flags := \<lparr>sf_must_change = False, sf_pending_2fa = sf_pending_2fa (sn_flags y)\<rparr>\<rparr>)"
| by_code: "session_of env ui rq s = Some y \<Longrightarrow> satisfies (sn_role y) (ui_role ui) \<Longrightarrow>
    rq_form rq = Some f \<Longrightarrow> user_by_username (co_cfg s) (sn_username y) = Some u \<Longrightarrow> us_totp_secret u \<noteq> [] \<Longrightarrow>
    verify_totp hm (us_totp_secret u) (form_get f ''code'') (rq_now rq) \<Longrightarrow>
    earns env hm rq s (y\<lparr>sn_flags := \<lparr>sf_must_change = False, sf_pending_2fa = False\<rparr>\<rparr>)"

text \<open>What a step does to the sessions: each one was there before, or is the fresh token's and earned.\<close>

definition sessions_from ::
  "'k app_env \<Rightarrow> (session \<Rightarrow> bool) \<Rightarrow> ('k, 'x) server_scheme \<Rightarrow> ('k, 'x) server_scheme \<Rightarrow> bool" where
  "sessions_from env E s s' \<longleftrightarrow> (\<forall>later t x. alive (ae_sha env) (sv_sessions s') later t = Some x \<longrightarrow>
     alive (ae_sha env) (sv_sessions s) later t = Some x \<or> E x)"

lemma sessions_from_refl [simp]: "sessions_from env E s s"
  by (simp add: sessions_from_def)

lemma sessions_from_same: "sv_sessions s' = sv_sessions s \<Longrightarrow> sessions_from env E s s'"
  by (simp add: sessions_from_def)

lemma sessions_from_trans:
  "sessions_from env E s s' \<Longrightarrow> sessions_from env E s' s'' \<Longrightarrow> sessions_from env E s s''"
  unfolding sessions_from_def by metis

lemma sessions_from_mono: "sessions_from env E s s' \<Longrightarrow> (\<And>x. E x \<Longrightarrow> E' x) \<Longrightarrow> sessions_from env E' s s'"
  unfolding sessions_from_def by metis

lemma end_session_from [simp]: "sessions_from env E s (end_session env rq t s)"
  by (simp add: sessions_from_def end_session_def) (blast dest: revoke_alive(2))

lemma start_session_from:
  "E \<lparr>sn_role = role, sn_username = user, sn_flags = flags\<rparr> \<Longrightarrow> sessions_from env E s (start_session env rq role user flags s)"
  unfolding sessions_from_def start_session_def
  by (auto dest!: create_alive_cases split: if_splits)

lemma check_session_from: "alive sha (snd (check_session sha now t s)) later t' = Some x \<Longrightarrow> alive sha s later t' = Some x"
  by (auto simp: check_session_def dest: revoke_alive(2) split: option.splits if_splits)

lemma look_up_from [simp]: "sessions_from env E s (snd (look_up env ui rq s))"
  by (auto simp: sessions_from_def look_up_eq dest: check_session_from split: option.splits)

lemma reissue_session_from:
  assumes "E (x\<lparr>sn_flags := flags\<rparr>)"
  shows "sessions_from env E s (reissue_session env ui rq x flags s)"
proof -
  have eq: "\<lparr>sn_role = sn_role x, sn_username = sn_username x, sn_flags = flags\<rparr> = x\<lparr>sn_flags := flags\<rparr>" by (cases x) simp
  then show ?thesis
    using assms unfolding reissue_session_def
    by (intro sessions_from_trans [OF _ start_session_from]) (auto simp: eq split: option.splits)
qed

lemma session_edits_sound [simp]:
  "sound env (start_session env rq role user flags s) = sound env s" "sound env (end_session env rq t s) = sound env s"
  "sound env (reissue_session env ui rq x flags s) = sound env s"
  by (simp_all add: start_session_def end_session_def reissue_session_def split: option.split)

lemma session_edits_world [simp]:
  "co_world (start_session env rq role user flags s) = co_world s" "co_world (end_session env rq t s) = co_world s"
  "co_world (reissue_session env ui rq x flags s) = co_world s" "co_world (revoke_user now u s) = co_world s"
  "co_world (snd (look_up env ui rq s)) = co_world s"
  by (simp_all add: start_session_def end_session_def reissue_session_def revoke_user_def look_up_eq split: option.split)

section \<open>The handlers, one by one\<close>

text \<open>A step is quiet when it keeps the server sound and brings no session; it is good when it keeps the
  server sound and every session it brings is earned. Neither touches the world of a backend that is
  not durable.\<close>

definition quiet_step :: "'k app_env \<Rightarrow> ('k, 'x) server_scheme \<Rightarrow> ('k, 'x) server_scheme \<Rightarrow> bool" where
  "quiet_step env s s' \<longleftrightarrow> (sound env s \<longrightarrow> sound env s') \<and> sessions_from env (\<lambda>x. False) s s'
     \<and> world_kept env s s'"

definition good_step ::
  "'k app_env \<Rightarrow> hmac \<Rightarrow> request \<Rightarrow> ('k, 'x) server_scheme \<Rightarrow> ('k, 'x) server_scheme \<Rightarrow> bool" where
  "good_step env hm rq s s' \<longleftrightarrow> (sound env s \<longrightarrow> sound env s') \<and> sessions_from env (earns env hm rq s) s s'
     \<and> world_kept env s s'"

lemma quiet_refl [simp]: "quiet_step env s s"
  by (simp add: quiet_step_def)

lemma quiet_trans: "quiet_step env s s' \<Longrightarrow> quiet_step env s' s'' \<Longrightarrow> quiet_step env s s''"
  unfolding quiet_step_def using sessions_from_trans world_kept_trans by blast

lemma quiet_good: "quiet_step env s s' \<Longrightarrow> good_step env hm rq s s'"
  unfolding quiet_step_def good_step_def using sessions_from_mono by blast

lemma good_step_refl [simp]: "good_step env hm rq s s"
  by (simp add: good_step_def)

lemma quiet_look_up [simp]: "quiet_step env s (snd (look_up env ui rq s))"
  by (simp add: quiet_step_def world_kept_def)

lemma good_look_up [simp]: "good_step env hm rq s (snd (look_up env ui rq s))"
  by (simp add: quiet_good)

lemma quiet_save_fresh:
  assumes "\<And>c. res = Inr c \<Longrightarrow> sound env s \<Longrightarrow>
      well_formed (ae_go env) c \<and> (refresh \<or> refresh_derived c = refresh_derived (co_cfg s))"
  shows "quiet_step env s (snd (save_edit env now refresh res s))"
proof (cases "save_edit env now refresh res s")
  case (Pair o' s')
  then have "sound env s \<longrightarrow> sound env s'" using save_edit_fresh [of env s now refresh res o' s'] assms by blast
  moreover have "sv_sessions s' = sv_sessions s" using save_edit_more(1) Pair by metis
  ultimately show ?thesis using Pair save_edit_world [OF Pair] by (simp add: quiet_step_def sessions_from_same)
qed

lemma quiet_save:
  assumes "\<And>c. res = Inr c \<Longrightarrow> sound env s \<Longrightarrow>
      well_formed (ae_go env) c \<and> (refresh \<or> cf_rooms c = cf_rooms (co_cfg s) \<and> cf_users c = cf_users (co_cfg s))"
  shows "quiet_step env s (snd (save_edit env now refresh res s))"
  by (rule quiet_save_fresh) (use assms refresh_derived_cong in blast)

lemma quiet_with_form:
  "(\<And>f. rq_form rq = Some f \<Longrightarrow> quiet_step env s (snd (h f s))) \<Longrightarrow> quiet_step env s (snd (with_form h rq s))"
  by (rule with_formI) simp_all

lemma quiet_with_session:
  "(\<And>x. session_of env ui rq s = Some x \<Longrightarrow> satisfies (sn_role x) (ui_role ui) \<Longrightarrow> quiet_step env s (snd (h x rq s)))
     \<Longrightarrow> quiet_step env s (snd (with_session env ui h rq s))"
  by (rule with_sessionI) simp_all

text \<open>A saved change of one account, whatever is answered and done after it.\<close>

lemma quiet_save_user: "quiet_step env s (snd (save_edit env now True (with_user (ae_go env) cfg u) s))"
  by (rule quiet_save) (auto dest: edit_valid(8))

lemma quiet_outcome:
  assumes "quiet_step env s (snd (save_edit env now refresh res s))"
    and "\<And>s'. quiet_step env s' (snd (k s'))"
  shows "quiet_step env s (snd (case save_edit env now refresh res s of
       (Refused err, s) \<Rightarrow> (w1 err, s) | (NotSaved err, s) \<Rightarrow> (w2 err, s) | (Saved, s) \<Rightarrow> k s))"
  using assms by (auto split: prod.splits outcome.splits intro: quiet_trans)

lemma quiet_revoke [simp]: "quiet_step env s (revoke_user now u s)"
  by (simp add: quiet_step_def world_kept_def) (simp add: revoke_user_def sessions_from_def, blast dest: revoke_user_alive)

lemma good_with_form:
  "(\<And>f. rq_form rq = Some f \<Longrightarrow> good_step env hm rq s (snd (h f s))) \<Longrightarrow> good_step env hm rq s (snd (with_form h rq s))"
  by (rule with_formI) simp_all

lemma good_with_session:
  "(\<And>x. session_of env ui rq s = Some x \<Longrightarrow> satisfies (sn_role x) (ui_role ui) \<Longrightarrow> good_step env hm rq s (snd (h x rq s)))
     \<Longrightarrow> good_step env hm rq s (snd (with_session env ui h rq s))"
  by (rule with_sessionI) simp_all

lemma good_require_role:
  "(\<And>x. session_of env ui rq s = Some x \<Longrightarrow> admitted (co_cfg s) ui (rq_path rq) x \<Longrightarrow> good_step env hm rq s (snd (h rq s)))
     \<Longrightarrow> good_step env hm rq s (snd (require_role env ui h rq s))"
  by (rule require_roleI) simp_all

lemma handle_login_submit_good: "good_step env hm rq s (snd (handle_login_submit env ui rq s))"
  unfolding handle_login_submit_def
  by (rule good_with_form) (auto simp: good_step_def world_kept_def Let_def intro!: start_session_from by_password split: option.splits)

lemma handle_logout_good: "good_step env hm rq s (snd (handle_logout env ui rq s))"
  by (auto simp: handle_logout_def good_step_def world_kept_def split: option.splits)

lemma save_or_live_more: "core.more (save_or_live env now c s) = core.more s"
proof (cases "apply_config env now c True s")
  case (Pair err s')
  then show ?thesis using apply_config_frame [of env now c True s] by (cases err) (simp_all add: save_or_live_def)
qed

lemma save_or_live_world: "world_kept env s (save_or_live env now c s)"
proof (cases "apply_config env now c True s")
  case (Pair err s')
  with apply_config_keeps_world [OF this] show ?thesis
    by (cases err) (simp_all add: save_or_live_def store_live_def world_kept_def)
qed

lemma save_or_live_sound: "well_formed (ae_go env) c \<Longrightarrow> sound env (save_or_live env now c s)"
proof (cases "apply_config env now c True s")
  case (Pair err s')
  assume "well_formed (ae_go env) c"
  then show ?thesis using Pair apply_config_None [of env now c True s s'] store_live_sound [of env c s']
    by (cases err) (simp_all add: save_or_live_def sound_def derived_fresh_def)
qed

lemma good_reissue:
  assumes "sound env s \<longrightarrow> sound env s'" "core.more s' = core.more s" "world_kept env s s'" "earns env hm rq s (x\<lparr>sn_flags := flags\<rparr>)"
  shows "good_step env hm rq s (reissue_session env ui rq x flags s')"
proof -
  have "sessions_from env (earns env hm rq s) s s'" by (rule sessions_from_same) (rule more_server(4) [OF assms(2)])
  moreover have "sessions_from env (earns env hm rq s) s' (reissue_session env ui rq x flags s')"
    by (rule reissue_session_from) (rule assms(4))
  ultimately have "sessions_from env (earns env hm rq s) s (reissue_session env ui rq x flags s')"
    by (rule sessions_from_trans)
  then show ?thesis using assms(1,3) by (simp add: good_step_def world_kept_def)
qed

lemma handle_change_password_good: "good_step env hm rq s (snd (handle_change_password_submit env ui rq s))"
  unfolding handle_change_password_submit_def
proof (rule good_with_session, rule good_with_form)
  fix x f assume x: "session_of env ui rq s = Some x" "satisfies (sn_role x) (ui_role ui)" "rq_form rq = Some f"
  have e: "form_get f ''password'' \<noteq> [] \<Longrightarrow>
      earns env hm rq s (x\<lparr>sn_flags := \<lparr>sf_must_change = False, sf_pending_2fa = sf_pending_2fa (sn_flags x)\<rparr>\<rparr>)"
    using x by (rule by_new_password)
  show "good_step env hm rq s (snd (let p = form_get f ''password'';
         again = redirect (Target (ui_change ui) [(''error'', Lit ''1'')] [])
     in if p = [] \<or> p \<noteq> form_get f ''password_confirm'' then (again, s)
        else case user_by_username (co_cfg s) (sn_username x) of
          None \<Rightarrow> (redirect (to_path (ui_login ui)), s)
        | Some u \<Rightarrow>
            (case with_user (ae_go env) (co_cfg s) (u\<lparr>us_password_sha256 := sha_hex env p, us_must_change := False\<rparr>) of
               Inl err \<Rightarrow> (again, s)
             | Inr c \<Rightarrow>
                 let pending = sf_pending_2fa (sn_flags x)
                 in ((redirect (to_path (if pending then ui_totp_verify ui else ui_home viewer_ui)))
                       \<lparr>wb_cookies := session_cookies (sn_role x) (fresh_token rq)\<rparr>,
                     reissue_session env ui rq x \<lparr>sf_must_change = False, sf_pending_2fa = pending\<rparr>
                       (save_or_live env (rq_now rq) c s)))))"
    by (auto simp: Let_def save_or_live_more e intro!: good_reissue save_or_live_sound save_or_live_world dest: edit_valid(8)
        split: option.splits sum.splits)
qed

lemma handle_totp_verify_good: "good_step env hm rq s (snd (handle_totp_verify_submit env hm ui rq s))"
  unfolding handle_totp_verify_submit_def
  by (rule good_with_session, rule good_with_form)
    (auto simp: code_accepted_def intro!: good_reissue by_code split: option.splits)

lemma handle_totp_setup_quiet: "quiet_step env s (snd (handle_totp_setup_page env ui rq s))"
  unfolding handle_totp_setup_page_def by (rule quiet_with_session) simp

lemma handle_totp_enable_quiet: "quiet_step env s (snd (handle_totp_enable_submit env hm ui rq s))"
  unfolding handle_totp_enable_submit_def Let_def
  by (rule quiet_with_session, rule quiet_with_form)
    (auto intro!: quiet_outcome quiet_save_user split: option.split)

lemma handle_totp_disable_quiet: "quiet_step env s (snd (handle_totp_disable_submit env hm rq s))"
  unfolding handle_totp_disable_submit_def
  by (rule quiet_with_session)
    (auto intro!: quiet_with_form quiet_outcome quiet_save_user split: option.split)

lemmas login_good = handle_login_submit_good handle_logout_good handle_change_password_good
  handle_totp_verify_good handle_totp_setup_quiet [THEN quiet_good] handle_totp_enable_quiet [THEN quiet_good]
  handle_totp_disable_quiet [THEN quiet_good]

end
