(* ===== verification/Reset.thy ===== *)
theory Reset
  imports Login
begin

text \<open>
  Password resets: \<open>internal/server/password_reset.go\<close> (an administrator's reset, with its one-time view)
  and \<open>forgot_password.go\<close> (links by e-mail). The mail relay is a list of what was handed to it.
  The lemmas say that a link works once and in time, and how many mails a window allows.
\<close>

section \<open>State\<close>

record password_reset =
  pw_username :: string
  pw_password :: string
  pw_expires :: time

record reset_token =
  rt_username :: string
  rt_expires :: time

record rate_window =
  rw_count :: int
  rw_reset :: time

record mail =
  ml_to :: string
  ml_from :: string
  ml_username :: string
  ml_link :: string
  ml_at :: time

record 'k web_server = "'k server" +
  ws_resets :: "string \<Rightarrow> password_reset option"
  ws_reset_tokens :: "string \<Rightarrow> reset_token option"
  ws_limiter :: "string \<Rightarrow> rate_window option"
  ws_outbox :: "mail list"

definition password_reset_ttl :: duration where "password_reset_ttl = 5 * minute"
definition reset_token_ttl :: duration where "reset_token_ttl = 30 * minute"
definition rate_limit :: int where "rate_limit = 3"
definition rate_limit_window :: duration where "rate_limit_window = 15 * minute"

section \<open>The two stores\<close>

definition resets_put ::
  "time \<Rightarrow> string \<Rightarrow> password_reset \<Rightarrow> (string \<Rightarrow> password_reset option) \<Rightarrow> (string \<Rightarrow> password_reset option)" where
  "resets_put now nonce r m = (map_keep (\<lambda>v. \<not> now > pw_expires v) m)(nonce \<mapsto> r)"

definition resets_take ::
  "time \<Rightarrow> string \<Rightarrow> (string \<Rightarrow> password_reset option) \<Rightarrow> password_reset option \<times> (string \<Rightarrow> password_reset option)" where
  "resets_take now nonce m =
     (case m nonce of
        None \<Rightarrow> (None, m)
      | Some r \<Rightarrow> (if now > pw_expires r then None else Some r, m(nonce := None)))"

definition tokens_put ::
  "time \<Rightarrow> string \<Rightarrow> reset_token \<Rightarrow> (string \<Rightarrow> reset_token option) \<Rightarrow> (string \<Rightarrow> reset_token option)" where
  "tokens_put now token r m = (map_keep (\<lambda>v. \<not> now > rt_expires v) m)(token \<mapsto> r)"

definition tokens_peek :: "time \<Rightarrow> string \<Rightarrow> (string \<Rightarrow> reset_token option) \<Rightarrow> reset_token option" where
  "tokens_peek now token m =
     (case m token of None \<Rightarrow> None | Some r \<Rightarrow> if now > rt_expires r then None else Some r)"

definition tokens_take ::
  "time \<Rightarrow> string \<Rightarrow> (string \<Rightarrow> reset_token option) \<Rightarrow> reset_token option \<times> (string \<Rightarrow> reset_token option)" where
  "tokens_take now token m =
     (case m token of
        None \<Rightarrow> (None, m)
      | Some r \<Rightarrow> (if now > rt_expires r then None else Some r, m(token := None)))"

lemma tokens_take_eq: "tokens_take now token m = (tokens_peek now token m, m(token := None))"
  by (auto simp: tokens_take_def tokens_peek_def fun_eq_iff split: option.splits)

section \<open>The rate limiter\<close>

definition allow ::
  "time \<Rightarrow> string \<Rightarrow> int \<Rightarrow> duration \<Rightarrow> (string \<Rightarrow> rate_window option) \<Rightarrow> bool \<times> (string \<Rightarrow> rate_window option)" where
  "allow now key limit window m =
     (let w = (case m key of
                 None \<Rightarrow> \<lparr>rw_count = 0, rw_reset = now + window\<rparr>
               | Some w \<Rightarrow> if now > rw_reset w then \<lparr>rw_count = 0, rw_reset = now + window\<rparr> else w);
          w = w\<lparr>rw_count := rw_count w + 1\<rparr>
      in (rw_count w \<le> limit, m(key \<mapsto> w)))"

section \<open>An administrator's reset\<close>

definition access_error :: "msg \<Rightarrow> 'p web" where
  "access_error m = redirect (Target ''/admin'' [(''error'', m)] ''access'')"

definition handle_admin_reset_password :: "'k app_env \<Rightarrow> ('p, ('k, 'x) web_server_scheme) handler" where
  "handle_admin_reset_password env rq = with_form (\<lambda>f s.
     let username = form_get f ''username'' in
     case user_by_username (co_cfg s) username of
       None \<Rightarrow> (access_error (Lit (''no such user '' @ username)), s)
     | Some u \<Rightarrow>
         let password = b64url_encode (rq_random rq 0);
             nonce = b64url_encode (rq_random rq 1)
         in (case save_edit env (rq_now rq) True
                    (with_user (ae_go env) (co_cfg s) (u\<lparr>us_password_sha256 := sha_hex env password, us_must_change := True\<rparr>)) s of
               (Refused err, s) \<Rightarrow> (access_error (ConfigMsg err), s)
             | (NotSaved err, s) \<Rightarrow> (access_error (SaveMsg err), s)
             | (Saved, s) \<Rightarrow>
                 let s = revoke_user (rq_now rq) username s;
                     r = \<lparr>pw_username = username, pw_password = password, pw_expires = rq_now rq + password_reset_ttl\<rparr>
                 in (redirect (Target ''/admin'' [(''reset'', Lit nonce)] ''access''),
                     s\<lparr>ws_resets := resets_put (rq_now rq) nonce r (ws_resets s)\<rparr>))) rq"

definition handle_admin_reset_2fa :: "'k app_env \<Rightarrow> ('p, ('k, 'x) server_scheme) handler" where
  "handle_admin_reset_2fa env rq = with_form (\<lambda>f s.
     let username = form_get f ''username'';
         (me, s) = session_username env admin_ui rq s
     in if equal_fold username me
        then (access_error (Lit (''you can'' @ [CHR 0x27] @ ''t reset your own 2FA '' @ em_dash @ '' ask another admin.'')), s)
        else case user_by_username (co_cfg s) username of
          None \<Rightarrow> (access_error (Lit (''no such user '' @ username)), s)
        | Some u \<Rightarrow>
            if us_totp_secret u = [] then (access_error (Lit (username @ '' has no 2FA set up.'')), s)
            else (case save_edit env (rq_now rq) True (with_user (ae_go env) (co_cfg s) (u\<lparr>us_totp_secret := []\<rparr>)) s of
                    (Refused err, s) \<Rightarrow> (access_error (ConfigMsg err), s)
                  | (NotSaved err, s) \<Rightarrow> (access_error (SaveMsg err), s)
                  | (Saved, s) \<Rightarrow> (redirect (Target ''/admin'' [(''saved'', Lit ''access'')] []), revoke_user (rq_now rq) username s))) rq"

section \<open>Links by e-mail\<close>

datatype reset_page = ForgotPage bool | ResetPage string string

definition when_enabled :: "('p, ('k, 'x) core_scheme) handler \<Rightarrow> ('p, ('k, 'x) core_scheme) handler" where
  "when_enabled h rq s =
     (if pr_enabled (ac_password_reset (cf_auth (co_cfg s))) then h rq s else (answer_web (HttpError 404), s))"

definition handle_forgot_password_page :: "(reset_page, ('k, 'x) web_server_scheme) handler" where
  "handle_forgot_password_page = when_enabled (\<lambda>rq s. (answer_web (Page (ForgotPage (rq_query rq ''sent'' \<noteq> []))), s))"

text \<open>\<open>splitRemoteAddr\<close>: what precedes the last colon, or all of it.\<close>

definition remote_host :: "string \<Rightarrow> string" where
  "remote_host a = (if CHR '':'' \<in> set a then rev (tl (dropWhile (\<lambda>c. c \<noteq> CHR '':'') (rev a))) else a)"

definition reset_link :: "config \<Rightarrow> string \<Rightarrow> string" where
  "reset_link cfg token =
     trim_right (CHR ''/'') (pr_public_base_url (ac_password_reset (cf_auth cfg))) @ ''/reset-password?token='' @ token"

definition send_reset_email :: "request \<Rightarrow> user \<Rightarrow> ('k, 'x) web_server_scheme \<Rightarrow> ('k, 'x) web_server_scheme" where
  "send_reset_email rq u s =
     (let token = b64url_encode (rq_random rq 0);
          m = \<lparr>ml_to = us_email u, ml_from = pr_from_address (ac_password_reset (cf_auth (co_cfg s))),
               ml_username = us_username u, ml_link = reset_link (co_cfg s) token, ml_at = rq_now rq\<rparr>
      in s\<lparr>ws_reset_tokens := tokens_put (rq_now rq) token
               \<lparr>rt_username = us_username u, rt_expires = rq_now rq + reset_token_ttl\<rparr> (ws_reset_tokens s),
           ws_outbox := ws_outbox s @ [m]\<rparr>)"

definition handle_forgot_password_submit :: "(reset_page, ('k, 'x) web_server_scheme) handler" where
  "handle_forgot_password_submit = when_enabled (\<lambda>rq. with_form (\<lambda>f s.
     let username = form_get f ''username'';
         (ok_user, m) = allow (rq_now rq) (''user:'' @ to_lower username) rate_limit rate_limit_window (ws_limiter s);
         (ok_ip, m) = allow (rq_now rq) (''ip:'' @ remote_host (rq_remote rq)) rate_limit rate_limit_window m;
         s = s\<lparr>ws_limiter := m\<rparr>;
         s = (if ok_user \<and> ok_ip
              then (case user_by_username (co_cfg s) username of
                      None \<Rightarrow> s
                    | Some u \<Rightarrow> if us_email u \<noteq> [] then send_reset_email rq u s else s)
              else s)
     in (redirect (Target ''/forgot-password'' [(''sent'', Lit ''1'')] []), s)) rq)"

definition dead_link :: string where "dead_link = ''This reset link is invalid or has expired. Request a new one.''"

definition handle_reset_page :: "(reset_page, ('k, 'x) web_server_scheme) handler" where
  "handle_reset_page = when_enabled (\<lambda>rq s.
     case tokens_peek (rq_now rq) (rq_query rq ''token'') (ws_reset_tokens s) of
       None \<Rightarrow> (answer_web (Page (ResetPage [] dead_link)), s)
     | Some r \<Rightarrow> (answer_web (Page (ResetPage (rq_query rq ''token'') [])), s))"

text \<open>The error texts of a rejected and of a failed save are shown on the page; \<open>err_text\<close> renders them.\<close>

definition handle_reset_submit :: "'k app_env \<Rightarrow> (msg \<Rightarrow> string) \<Rightarrow> (reset_page, ('k, 'x) web_server_scheme) handler" where
  "handle_reset_submit env err_text = when_enabled (\<lambda>rq. with_form (\<lambda>f s.
     let token = form_get f ''token''; password = form_get f ''password'';
         (r, m) = tokens_take (rq_now rq) token (ws_reset_tokens s);
         s = s\<lparr>ws_reset_tokens := m\<rparr>
     in case r of
          None \<Rightarrow> (answer_web (Page (ResetPage [] dead_link)), s)
        | Some r \<Rightarrow>
            if length password < 8
            then (answer_web (Page (ResetPage token ''Password must be at least 8 characters.'')), s)
            else case user_by_username (co_cfg s) (rt_username r) of
              None \<Rightarrow> (redirect (to_path (ui_login viewer_ui)), s)
            | Some u \<Rightarrow>
                (case save_edit env (rq_now rq) True
                        (with_user (ae_go env) (co_cfg s) (u\<lparr>us_password_sha256 := sha_hex env password, us_must_change := False\<rparr>)) s of
                   (Refused err, s) \<Rightarrow> (answer_web (Page (ResetPage [] (err_text (ConfigMsg err)))), s)
                 | (NotSaved err, s) \<Rightarrow> (answer_web (Page (ResetPage [] (err_text (SaveMsg err)))), s)
                 | (Saved, s) \<Rightarrow> (redirect (Target (ui_login viewer_ui) [(''reset'', Lit ''1'')] []),
                                   revoke_user (rq_now rq) (rt_username r) s))) rq)"

section \<open>What the handlers keep\<close>

lemma web_fields_quiet:
  "quiet_step env s s' \<Longrightarrow> quiet_step env s (s'\<lparr>ws_resets := a\<rparr>)"
  "quiet_step env s s' \<Longrightarrow> quiet_step env s (s'\<lparr>ws_reset_tokens := b\<rparr>)"
  "quiet_step env s s' \<Longrightarrow> quiet_step env s (s'\<lparr>ws_limiter := c\<rparr>)"
  "quiet_step env s s' \<Longrightarrow> quiet_step env s (s'\<lparr>ws_outbox := d\<rparr>)"
  by (simp_all add: quiet_step_def sound_def derived_fresh_def sessions_from_def world_kept_def)

lemma send_reset_email_quiet: "quiet_step env s s' \<Longrightarrow> quiet_step env s (send_reset_email rq u s')"
  by (simp add: send_reset_email_def Let_def web_fields_quiet)

lemma revoke_user_quiet: "quiet_step env s s' \<Longrightarrow> quiet_step env s (revoke_user now u s')"
  by (rule quiet_trans [OF _ quiet_revoke])

lemmas quiet_intros = quiet_refl web_fields_quiet send_reset_email_quiet revoke_user_quiet

lemma quiet_when_enabled: "quiet_step env s (snd (h rq s)) \<Longrightarrow> quiet_step env s (snd (when_enabled h rq s))"
  by (simp add: when_enabled_def)

lemma handle_admin_reset_password_quiet: "quiet_step env s (snd (handle_admin_reset_password env rq s))"
  unfolding handle_admin_reset_password_def Let_def
  by (rule quiet_with_form) (auto intro!: quiet_outcome quiet_save_user quiet_intros split: option.split)

lemma handle_admin_reset_2fa_quiet: "quiet_step env s (snd (handle_admin_reset_2fa env rq s))"
  unfolding handle_admin_reset_2fa_def Let_def session_username_eq prod.case
  by (rule quiet_with_form)
    (auto intro!: quiet_trans [OF quiet_look_up quiet_outcome] quiet_save_user quiet_intros split: option.split)

lemma handle_forgot_password_quiet: "quiet_step env s (snd (handle_forgot_password_submit rq s))"
  unfolding handle_forgot_password_submit_def Let_def split_def
  by (intro quiet_when_enabled quiet_with_form) (auto intro!: quiet_intros split: option.split)

lemma handle_reset_submit_quiet: "quiet_step env s (snd (handle_reset_submit env et rq s))"
  unfolding handle_reset_submit_def Let_def tokens_take_eq prod.case
  by (intro quiet_when_enabled quiet_with_form)
    (auto intro!: quiet_trans [OF web_fields_quiet(2) [OF quiet_refl] quiet_outcome] quiet_save_user quiet_intros
      split: option.split)

section \<open>A link works once\<close>

lemma user_by_username_fold: "equal_fold m n \<Longrightarrow> user_by_username c m = user_by_username c n"
  by (simp add: user_by_username_def equal_fold_def)

text \<open>The saved change of one account, as the next lookups see it.\<close>

lemma saved_user:
  assumes "save_edit env now True (with_user e cfg u) s = (Saved, s')" "equal_fold (us_username u) n"
  shows "user_by_username (co_cfg s') m = (if equal_fold m n then Some u else user_by_username cfg m)"
proof -
  from save_edit_saved [OF assms(1)] obtain c where
    c: "with_user e cfg u = Inr c" "apply_config env now c True s = (None, s')" by blast
  then have s': "co_cfg s' = c" using apply_config_None by blast
  show ?thesis
  proof (cases "equal_fold m n")
    case True
    then have "equal_fold m (us_username u)" using assms(2) by (simp add: equal_fold_def)
    then show ?thesis using True s' with_user_lookup [OF c(1)] user_by_username_fold [of m "us_username u" c] by simp
  next
    case False
    then have "\<not> equal_fold (us_username u) m" using assms(2) by (simp add: equal_fold_def)
    then show ?thesis using False s' with_user_frame [OF c(1)] by simp
  qed
qed

lemma not_saved_cfg: "save_edit env now refresh res s = (o', s') \<Longrightarrow> o' \<noteq> Saved \<Longrightarrow> co_cfg s' = co_cfg s"
  by (auto simp: save_edit_def split: sum.splits prod.splits option.splits dest: apply_config_Some)

text \<open>C20. A link of a mail changes a password at most once and only in time: after a submission its token is
  dead, and when the configuration changed, the token was alive, the account it was mailed for has
  the new password, every other account is as it was, and all sessions of the account have ended.\<close>

theorem link_works_once:
  assumes "handle_reset_submit env et rq s = (w, s')" "rq_form rq = Some f"
    and "pr_enabled (ac_password_reset (cf_auth (co_cfg s)))"
  shows "tokens_peek later (form_get f ''token'') (ws_reset_tokens s') = None
    \<and> (co_cfg s' = co_cfg s \<or> (\<exists>r u. tokens_peek (rq_now rq) (form_get f ''token'') (ws_reset_tokens s) = Some r
        \<and> user_by_username (co_cfg s) (rt_username r) = Some u
        \<and> user_by_username (co_cfg s') n = (if equal_fold n (rt_username r)
            then Some (u\<lparr>us_password_sha256 := sha_hex env (form_get f ''password''), us_must_change := False\<rparr>)
            else user_by_username (co_cfg s) n)
        \<and> (alive (ae_sha env) (sv_sessions s') later t = Some x \<longrightarrow> \<not> equal_fold (sn_username x) (rt_username r))))"
proof -
  let ?t = "form_get f ''token''" and ?p = "form_get f ''password''"
  let ?s = "s\<lparr>ws_reset_tokens := (ws_reset_tokens s)(?t := None)\<rparr>"
  have dead: "tokens_peek later ?t (ws_reset_tokens x) = None" if "server.more x = server.more ?s" for x
    using that by (cases x; cases s) (simp add: tokens_peek_def)
  note h = assms(1) [unfolded handle_reset_submit_def when_enabled_def with_form_def Let_def tokens_take_eq prod.case]
  consider "s' = ?s" | r u where
      "tokens_peek (rq_now rq) ?t (ws_reset_tokens s) = Some r" "user_by_username (co_cfg s) (rt_username r) = Some u"
      "snd (case save_edit env (rq_now rq) True (with_user (ae_go env) (co_cfg s)
          (u\<lparr>us_password_sha256 := sha_hex env ?p, us_must_change := False\<rparr>)) ?s of
        (Saved, s) \<Rightarrow> (w, revoke_user (rq_now rq) (rt_username r) s) | (_, s) \<Rightarrow> (w, s)) = s'"
    using h assms(2,3) by (auto split: option.splits if_splits prod.splits outcome.splits)
  then show ?thesis
  proof cases
    case 1
    then show ?thesis by (simp add: tokens_peek_def)
  next
    case (2 r u)
    obtain out s2 where sv: "save_edit env (rq_now rq) True (with_user (ae_go env) (co_cfg s)
          (u\<lparr>us_password_sha256 := sha_hex env ?p, us_must_change := False\<rparr>)) ?s = (out, s2)" by fastforce
    have fr: "server.more s2 = server.more ?s" by (rule save_edit_more(2) [OF sv])
    show ?thesis
    proof (cases "out = Saved")
      case True
      then have s': "s' = revoke_user (rq_now rq) (rt_username r) s2" using 2(3) sv by simp
      have "equal_fold (us_username (u\<lparr>us_password_sha256 := sha_hex env ?p, us_must_change := False\<rparr>)) (rt_username r)"
        using user_by_username_SomeD [OF 2(2)] by simp
      note saved_user [OF sv [unfolded True] this, of n]
      moreover have "alive (ae_sha env) (sv_sessions s') later t = Some x \<longrightarrow> \<not> equal_fold (sn_username x) (rt_username r)"
        by (simp add: s' revoke_user_def) (blast dest: revoke_user_alive)
      moreover have "tokens_peek later ?t (ws_reset_tokens s') = None"
        by (rule dead) (use s' fr in \<open>simp add: revoke_user_def\<close>)
      ultimately show ?thesis using 2(1,2) s' by (auto simp: revoke_user_def)
    next
      case False
      then have "s' = s2" using 2(3) sv by (cases out) auto
      then show ?thesis using dead [OF fr] not_saved_cfg [OF sv False] by simp
    qed
  qed
qed

text \<open>A submission with a password of fewer than eight characters kills the link: the page comes back with
  the same link and asks for a longer password, and any submission of it is answered that the link
  is invalid.\<close>

lemma short_password_kills_link:
  assumes "pr_enabled (ac_password_reset (cf_auth (co_cfg s)))" "rq_form rq = Some f"
    and "tokens_peek (rq_now rq) (form_get f ''token'') (ws_reset_tokens s) = Some r" "length (form_get f ''password'') < 8"
    and "handle_reset_submit env et rq s = (w, s')"
    and "rq_form again = Some g" "form_get g ''token'' = form_get f ''token''"
  shows "wb_answer w = Page (ResetPage (form_get f ''token'') ''Password must be at least 8 characters.'')
    \<and> wb_answer (fst (handle_reset_submit env et again s')) = Page (ResetPage [] dead_link)"
  using assms
  by (auto simp: handle_reset_submit_def when_enabled_def with_form_def tokens_take_eq tokens_peek_def Let_def)

section \<open>How many mails\<close>

text \<open>The limiter along the calls for one key.\<close>

fun allowed :: "int \<Rightarrow> duration \<Rightarrow> string \<Rightarrow> (string \<Rightarrow> rate_window option) \<Rightarrow> time list \<Rightarrow> time list" where
  "allowed limit window key m [] = []"
| "allowed limit window key m (t # ts) =
     (let (ok, m') = allow t key limit window m
      in (if ok then [t] else []) @ allowed limit window key m' ts)"

abbreviation upto_time :: "time \<Rightarrow> time list \<Rightarrow> time list" where "upto_time hi ts \<equiv> filter (\<lambda>t. t \<le> hi) ts"

lemma allowed_later: "set (allowed limit window key m ts) \<subseteq> set ts"
  by (induction ts arbitrary: m) (auto simp: split_def Let_def)

lemma none_later: "\<forall>t \<in> set ts. hi < t \<Longrightarrow> upto_time hi (allowed limit window key m ts) = []"
  using allowed_later [of limit window key m ts] by (fastforce simp: filter_empty_conv)

text \<open>In an open window that lasts long enough, what is left of the limit.\<close>

lemma allowed_in_window:
  assumes "m key = Some w" "sorted ts" "hi \<le> rw_reset w"
  shows "int (length (upto_time hi (allowed limit window key m ts))) \<le> max 0 (limit - rw_count w)"
  using assms
proof (induction ts arbitrary: m w)
  case (Cons t ts)
  show ?case
  proof (cases "t > rw_reset w")
    case True
    then have "\<forall>x \<in> set (t # ts). hi < x" using Cons.prems by auto
    then show ?thesis using none_later [of "t # ts" hi] by simp
  next
    case False
    let ?w = "w\<lparr>rw_count := rw_count w + 1\<rparr>"
    have "int (length (upto_time hi (allowed limit window key (m(key \<mapsto> ?w)) ts))) \<le> max 0 (limit - rw_count ?w)"
      using Cons.prems by (intro Cons.IH) auto
    then show ?thesis using False Cons.prems(1) by (auto simp: allow_def Let_def)
  qed
qed simp

text \<open>With no open window, at most the limit for one window's length.\<close>

lemma allowed_fresh_window:
  assumes "case m key of None \<Rightarrow> True | Some w \<Rightarrow> \<forall>t \<in> set ts. rw_reset w < t" "sorted ts"
    and "\<forall>t \<in> set ts. lo \<le> t" "hi \<le> lo + window" "0 \<le> limit"
  shows "int (length (upto_time hi (allowed limit window key m ts))) \<le> limit"
proof (cases ts)
  case (Cons t us)
  let ?w = "\<lparr>rw_count = 1, rw_reset = t + window\<rparr>"
  have a: "allow t key limit window m = (1 \<le> limit, m(key \<mapsto> ?w))"
    using assms(1) Cons by (auto simp: allow_def split: option.splits)
  have "int (length (upto_time hi (allowed limit window key (m(key \<mapsto> ?w)) us))) \<le> max 0 (limit - rw_count ?w)"
    using assms Cons by (intro allowed_in_window) auto
  then show ?thesis using assms(5) Cons a by auto
qed (use assms in simp)

lemma allowed_two_windows:
  assumes "sorted ts" "\<forall>t \<in> set ts. lo \<le> t" "hi \<le> lo + window" "0 \<le> limit"
    and "m key = Some w" "0 \<le> rw_count w"
  shows "int (length (upto_time hi (allowed limit window key m ts))) \<le> max 0 (limit - rw_count w) + limit"
  using assms
proof (induction ts arbitrary: m w)
  case (Cons t ts)
  show ?case
  proof (cases "t > rw_reset w")
    case True
    then have "\<forall>x \<in> set (t # ts). rw_reset w < x" using Cons.prems(1) by auto
    then have "int (length (upto_time hi (allowed limit window key m (t # ts)))) \<le> limit"
      using Cons.prems by (intro allowed_fresh_window) auto
    then show ?thesis by simp
  next
    case False
    let ?w = "w\<lparr>rw_count := rw_count w + 1\<rparr>"
    have "int (length (upto_time hi (allowed limit window key (m(key \<mapsto> ?w)) ts))) \<le> max 0 (limit - rw_count ?w) + limit"
      using Cons.prems by (intro Cons.IH) auto
    then show ?thesis using False Cons.prems(5) by (auto simp: allow_def Let_def)
  qed
qed simp

text \<open>A window of the limiter is fixed, not sliding: any stretch of its length meets at most two of them.\<close>

lemma allowed_bound:
  assumes "sorted ts" "hi \<le> lo + window" "0 \<le> limit" "\<And>w. m key = Some w \<Longrightarrow> 0 \<le> rw_count w"
  shows "int (length (filter (\<lambda>t. lo \<le> t \<and> t \<le> hi) (allowed limit window key m ts))) \<le> 2 * limit"
  using assms
proof (induction ts arbitrary: m)
  case (Cons t ts)
  show ?case
  proof (cases "lo \<le> t")
    case True
    then have all: "\<forall>x \<in> set (t # ts). lo \<le> x" using Cons.prems(1) by auto
    then have "filter (\<lambda>t. lo \<le> t \<and> t \<le> hi) (allowed limit window key m (t # ts)) = upto_time hi (allowed limit window key m (t # ts))"
      using allowed_later [of limit window key m "t # ts"] by (intro filter_cong) auto
    moreover have "int (length (upto_time hi (allowed limit window key m (t # ts)))) \<le> 2 * limit"
    proof (cases "m key")
      case None
      then show ?thesis using allowed_fresh_window [OF _ Cons.prems(1) all, of m key hi window limit] Cons.prems by simp
    next
      case (Some w)
      then show ?thesis
        using allowed_two_windows [OF Cons.prems(1) all, of hi window limit m key w] Cons.prems by fastforce
    qed
    ultimately show ?thesis by simp
  next
    case False
    obtain ok m' where a: "allow t key limit window m = (ok, m')" by fastforce
    then have "0 \<le> rw_count w" if "m' key = Some w" for w
      using Cons.prems(4) that by (auto simp: allow_def Let_def split: option.splits if_splits)
    then have "int (length (filter (\<lambda>t. lo \<le> t \<and> t \<le> hi) (allowed limit window key m' ts))) \<le> 2 * limit"
      using Cons.prems by (intro Cons.IH) auto
    then show ?thesis using a False by simp
  qed
qed simp

lemma allow_cong: "m key = m' key \<Longrightarrow> fst (allow t key limit window m) = fst (allow t key limit window m')
    \<and> snd (allow t key limit window m) key = snd (allow t key limit window m') key"
  by (simp add: allow_def Let_def)

lemma allowed_cong: "m key = m' key \<Longrightarrow> allowed limit window key m ts = allowed limit window key m' ts"
proof (induction ts arbitrary: m m')
  case (Cons t ts)
  have a: "fst (allow t key limit window m) = fst (allow t key limit window m')"
    "snd (allow t key limit window m) key = snd (allow t key limit window m') key"
    using allow_cong [of m key m' t limit window] Cons.prems by simp_all
  show ?case using a(1) Cons.IH [of "snd (allow t key limit window m)" "snd (allow t key limit window m')", OF a(2)]
    by (simp add: split_def Let_def)
qed simp

lemma allow_other: "k \<noteq> key \<Longrightarrow> snd (allow t k limit window m) key = m key"
  by (simp add: allow_def Let_def)

definition forgot_run :: "request list \<Rightarrow> ('k, 'x) web_server_scheme \<Rightarrow> ('k, 'x) web_server_scheme" where
  "forgot_run rqs s = foldl (\<lambda>s rq. snd (handle_forgot_password_submit rq s)) s rqs"

definition user_key :: "string \<Rightarrow> string" where "user_key u = ''user:'' @ to_lower u"

definition asks_for :: "string \<Rightarrow> request \<Rightarrow> bool" where
  "asks_for u rq \<longleftrightarrow> (case rq_form rq of None \<Rightarrow> False | Some f \<Rightarrow> equal_fold (form_get f ''username'') u)"

definition mails_to :: "string \<Rightarrow> (time \<Rightarrow> bool) \<Rightarrow> mail list \<Rightarrow> nat" where
  "mails_to u P ms = length (filter (\<lambda>m. equal_fold (ml_username m) u \<and> P (ml_at m)) ms)"

text \<open>One request: whether it was a call for the account, it sends at most one mail, and only if allowed.\<close>

lemma forgot_step:
  assumes "pr_enabled (ac_password_reset (cf_auth (co_cfg s)))" "handle_forgot_password_submit rq s = (w, s')"
  shows "co_cfg s' = co_cfg s
    \<and> (if asks_for u rq
       then ws_limiter s' (user_key u) = snd (allow (rq_now rq) (user_key u) rate_limit rate_limit_window (ws_limiter s)) (user_key u)
         \<and> mails_to u P (ws_outbox s') \<le> mails_to u P (ws_outbox s)
             + (if fst (allow (rq_now rq) (user_key u) rate_limit rate_limit_window (ws_limiter s)) \<and> P (rq_now rq) then 1 else 0)
       else ws_limiter s' (user_key u) = ws_limiter s (user_key u) \<and> mails_to u P (ws_outbox s') = mails_to u P (ws_outbox s))"
proof (cases "rq_form rq")
  case None
  with assms show ?thesis
    by (simp add: handle_forgot_password_submit_def when_enabled_def with_form_def asks_for_def)
next
  case (Some f)
  let ?n = "form_get f ''username''"
  let ?a = "allow (rq_now rq) (''user:'' @ to_lower ?n) rate_limit rate_limit_window (ws_limiter s)"
  let ?b = "allow (rq_now rq) (''ip:'' @ remote_host (rq_remote rq)) rate_limit rate_limit_window (snd ?a)"
  let ?s = "s\<lparr>ws_limiter := snd ?b\<rparr>"
  define s2 where "s2 = (case user_by_username (co_cfg s) ?n of None \<Rightarrow> ?s
    | Some v \<Rightarrow> if us_email v \<noteq> [] then send_reset_email rq v ?s else ?s)"
  have s': "s' = (if fst ?a \<and> fst ?b then s2 else ?s)"
    using assms Some
    by (auto simp: handle_forgot_password_submit_def when_enabled_def with_form_def split_def Let_def s2_def split: option.split)
  have lim: "ws_limiter s' = snd ?b" and cfg: "co_cfg s' = co_cfg s"
    using s' by (auto simp: s2_def send_reset_email_def Let_def split: option.split)
  have same_user: "equal_fold (us_username v) ?n" if "user_by_username (co_cfg s) ?n = Some v" for v
    using user_by_username_SomeD [OF that] by simp
  have box: "mails_to u P (ws_outbox s') = mails_to u P (ws_outbox s)
    \<or> fst ?a \<and> equal_fold ?n u \<and> P (rq_now rq) \<and> mails_to u P (ws_outbox s') = Suc (mails_to u P (ws_outbox s))"
    using s' same_user
    by (auto simp: s2_def send_reset_email_def mails_to_def Let_def equal_fold_def split: option.splits)
  show ?thesis
  proof (cases "equal_fold ?n u")
    case True
    then have "user_key u = ''user:'' @ to_lower ?n" by (simp add: user_key_def equal_fold_def)
    moreover have "ws_limiter s' (''user:'' @ to_lower ?n) = snd ?a (''user:'' @ to_lower ?n)"
      using lim by (simp add: allow_other)
    ultimately show ?thesis using Some True box cfg by (auto simp: asks_for_def)
  next
    case False
    then have "snd ?b (user_key u) = ws_limiter s (user_key u)" by (simp add: user_key_def equal_fold_def allow_other)
    then show ?thesis using Some False box cfg lim by (auto simp: asks_for_def)
  qed
qed

lemma mails_allowed:
  assumes "pr_enabled (ac_password_reset (cf_auth (co_cfg s)))"
  shows "mails_to u P (ws_outbox (forgot_run rqs s)) \<le> mails_to u P (ws_outbox s)
    + length (filter P (allowed rate_limit rate_limit_window (user_key u) (ws_limiter s) (map rq_now (filter (asks_for u) rqs))))"
  using assms
proof (induction rqs arbitrary: s)
  case (Cons rq rqs)
  obtain w s1 where h: "handle_forgot_password_submit rq s = (w, s1)" by fastforce
  note st = forgot_step [OF Cons.prems h, of u P]
  let ?ts = "map rq_now (filter (asks_for u) rqs)"
  have run: "forgot_run (rq # rqs) s = forgot_run rqs s1" by (simp add: forgot_run_def h)
  have ih: "mails_to u P (ws_outbox (forgot_run rqs s1)) \<le> mails_to u P (ws_outbox s1)
      + length (filter P (allowed rate_limit rate_limit_window (user_key u) (ws_limiter s1) ?ts))"
    using Cons.prems st by (intro Cons.IH) simp
  show ?case
  proof (cases "asks_for u rq")
    case True
    let ?a = "allow (rq_now rq) (user_key u) rate_limit rate_limit_window (ws_limiter s)"
    have "allowed rate_limit rate_limit_window (user_key u) (ws_limiter s1) ?ts
        = allowed rate_limit rate_limit_window (user_key u) (snd ?a) ?ts"
      using st True by (intro allowed_cong) simp
    then show ?thesis using ih st True run by (auto simp: split_def Let_def split: if_splits)
  next
    case False
    then have "allowed rate_limit rate_limit_window (user_key u) (ws_limiter s1) ?ts
        = allowed rate_limit rate_limit_window (user_key u) (ws_limiter s) ?ts"
      using st by (intro allowed_cong) simp
    then show ?thesis using ih st False run by simp
  qed
qed (simp add: forgot_run_def)


section \<open>Examples\<close>

definition link_config :: config where
  "link_config = sample_config\<lparr>cf_auth := (cf_auth sample_config)\<lparr>ac_password_reset := \<lparr>pr_enabled = True,
     pr_smtp_host = ''relay'', pr_smtp_port = 25, pr_from_address = ''it@x.io'', pr_public_base_url = ''https://x.io''\<rparr>\<rparr>\<rparr>"

definition sample_web :: "unit web_server" where
  "sample_web = server.extend (sample_server\<lparr>co_cfg := link_config\<rparr>)
     (web_server.fields Map.empty [''tok'' \<mapsto> \<lparr>rt_username = ''ann'', rt_expires = 100\<rparr>] Map.empty [])"

definition sample_request :: "(string \<Rightarrow> string list) \<Rightarrow> time \<Rightarrow> request" where
  "sample_request f now = \<lparr>rq_path = ''/'', rq_cookie = (\<lambda>c. None), rq_query = (\<lambda>q. []), rq_form = Some f, rq_now = now,
     rq_random = (\<lambda>i. replicate 32 7), rq_remote = ''10.0.0.1:9'',
     rq_header = (\<lambda>h. []), rq_body = [], rq_param = (\<lambda>p. [])\<rparr>"

lemma sample_web_fields [simp]:
  "co_cfg sample_web = link_config" "ws_reset_tokens sample_web = [''tok'' \<mapsto> \<lparr>rt_username = ''ann'', rt_expires = 100\<rparr>]"
  "ws_limiter sample_web = Map.empty" "ws_outbox sample_web = []"
  by (simp_all add: sample_web_def sample_server_def core.extend_def server.extend_def web_server.fields_def)

lemma link_config_enabled [simp]: "pr_enabled (ac_password_reset (cf_auth link_config))"
  by (simp add: link_config_def)

lemma sample_request_fields [simp]: "rq_form (sample_request f now) = Some f" "rq_now (sample_request f now) = now"
  by (simp_all add: sample_request_def)

definition link_form :: "string \<Rightarrow> string \<Rightarrow> string list" where
  "link_form p = (\<lambda>k. [])(''token'' := [''tok''], ''password'' := [p])"

lemma link_form_fields [simp]: "form_get (link_form p) ''token'' = ''tok''" "form_get (link_form p) ''password'' = p"
  by (simp_all add: link_form_def form_get_def)

theorem link_works_once_witness:
  "tokens_peek 5 ''tok'' (ws_reset_tokens sample_web) \<noteq> None
   \<and> tokens_peek 9 ''tok'' (ws_reset_tokens (snd (handle_reset_submit (sample_app_env (\<lambda>n st. None)) (\<lambda>m. [])
       (sample_request (link_form ''a long password'') 5) sample_web))) = None"
proof -
  let ?rq = "sample_request (link_form ''a long password'') 5"
  obtain w s' where h: "handle_reset_submit (sample_app_env (\<lambda>n st. None)) (\<lambda>m. []) ?rq sample_web = (w, s')" by fastforce
  from link_works_once [OF h, of "link_form ''a long password''" 9] show ?thesis by (simp add: h tokens_peek_def)
qed


end
