(* ===== verification/Notifications.thy ===== *)
theory Notifications
  imports Reset
begin

text \<open>
  How alerts find their recipients: \<open>internal/server/notifications.go\<close>, \<open>push.go\<close> and
  \<open>admin_notifications.go\<close>. Building a channel is modelled, its network is not: a test message is
  handed to a parameter \<open>deliver\<close>, whose Lark and Web Push halves are the theories of those names.
  The JSON decoder is a parameter. The lemmas say that the live configuration is a subscription
  store in the sense of Web Push, and whose browsers get which alerts.
\<close>

section \<open>Channels\<close>

datatype 'sk channel = LarkChannel lark_app_config | SlackChannel string | PushChannel "'sk web_push"

datatype channel_error = UnknownChannel string | BadVapidKeys vapid_key_error

fun build_channels_go ::
  "('pk, 'sk) push_crypto \<Rightarrow> config \<Rightarrow> 'sk channel list \<Rightarrow> string \<Rightarrow> string list \<Rightarrow> channel_error + 'sk channel list \<times> string" where
  "build_channels_go cr c out vapid [] = Inr (out, vapid)"
| "build_channels_go cr c out vapid (ch # chs) =
     (if ch = ''lark'' then build_channels_go cr c (out @ [LarkChannel (al_lark_app (cf_alerts c))]) vapid chs
      else if ch = ''slack'' then build_channels_go cr c (out @ [SlackChannel (al_webhook_url (cf_alerts c))]) vapid chs
      else if ch = ''log'' then build_channels_go cr c out vapid chs
      else if ch = ''webpush'' then
        (let w = al_webpush (cf_alerts c)
         in case parse_vapid_keys cr (wp_public_key w) (wp_private_key w) of
              Inl err \<Rightarrow> Inl (BadVapidKeys err)
            | Inr keys \<Rightarrow> build_channels_go cr c (out @ [PushChannel (new_web_push keys (wp_subject w))]) (vapid_public_key keys) chs)
      else Inl (UnknownChannel ch))"

definition build_channels :: "('pk, 'sk) push_crypto \<Rightarrow> config \<Rightarrow> string list \<Rightarrow> channel_error + 'sk channel list \<times> string" where
  "build_channels cr c chs =
     (case build_channels_go cr c [] [] chs of
        Inl err \<Rightarrow> Inl err
      | Inr (out, vapid) \<Rightarrow> if out = [] then Inr ([], []) else Inr (out, vapid))"

text \<open>An empty list is the nil notifier: alerts are logged only.\<close>

record ('k, 'sk) alert_server = "'k web_server" +
  as_notifier :: "'sk channel list"

definition activate_channels ::
  "('pk, 'sk) push_crypto \<Rightarrow> config \<Rightarrow> ('k, 'sk, 'x) alert_server_scheme \<Rightarrow> channel_error option \<times> ('k, 'sk, 'x) alert_server_scheme" where
  "activate_channels cr c s =
     (case build_channels cr c (effective_channels (cf_alerts c)) of
        Inl err \<Rightarrow> (Some err, s)
      | Inr (n, vapid) \<Rightarrow> (None, s\<lparr>sv_vapid := vapid, as_notifier := n\<rparr>))"

section \<open>The live configuration as the store of subscriptions and routes\<close>

definition pushee_of :: "push_subscription \<Rightarrow> pushee" where
  "pushee_of p = \<lparr>pe_endpoint = ps_endpoint p, pe_p256dh = ps_p256dh p, pe_auth = ps_auth p, pe_created = ps_created p\<rparr>"

definition barred :: "config \<Rightarrow> string \<Rightarrow> push_subscription \<Rightarrow> bool" where
  "barred c location p =
     (case user_by_username c (ps_username p) of
        Some u \<Rightarrow> limited u \<and> \<not> can_see_location u location
      | None \<Rightarrow> False)"

definition live_subscriptions :: "config \<Rightarrow> string \<Rightarrow> pushee list" where
  "live_subscriptions c location =
     map pushee_of (filter (\<lambda>p. \<not> barred c location p
         \<and> (location = [] \<or> ps_location p = [] \<or> ps_location p = location)) (cf_push_subscriptions c))"

definition live_routes :: "config \<Rightarrow> lark_routes" where
  "live_routes c =
     \<lparr>lr_route = (\<lambda>l. case location_by_id c l of Some x \<Rightarrow> (lo_lark_user_email x, lo_lark_chat_id x) | None \<Rightarrow> ([], [])),
      lr_delivery = (\<lambda>l. case location_by_id c l of Some x \<Rightarrow> lo_delivery x | None \<Rightarrow> []),
      lr_fallback = al_lark_fallback (cf_alerts c)\<rparr>"

definition remove_push_subscription :: "'k app_env \<Rightarrow> time \<Rightarrow> string \<Rightarrow> ('k, 'x) core_scheme \<Rightarrow> ('k, 'x) core_scheme" where
  "remove_push_subscription env now endpoint s =
     (case without_push_subscription (co_cfg s) endpoint of
        (c, removed) \<Rightarrow> if \<not> removed then s else snd (apply_config env now c False s))"

lemma live_subscriptions_without:
  "filter (\<lambda>x. pe_endpoint x \<noteq> ep) (live_subscriptions (fst (without_push_subscription c ep)) l)
     = filter (\<lambda>x. pe_endpoint x \<noteq> ep) (live_subscriptions c l)"
  by (simp add: live_subscriptions_def without_push_subscription_def Let_def filter_map comp_def pushee_of_def
      barred_def user_by_username_def conj_commute conj_left_commute)

lemma remove_push_subscription_cfg:
  "co_cfg (remove_push_subscription env now ep s) = co_cfg s
   \<or> co_cfg (remove_push_subscription env now ep s) = fst (without_push_subscription (co_cfg s) ep)"
  using apply_config_more [of env now "fst (without_push_subscription (co_cfg s) ep)" False s]
  by (auto simp: remove_push_subscription_def split_def)

interpretation live_subs: subscription_store "\<lambda>s. live_subscriptions (co_cfg s)" "remove_push_subscription env now"
  for env :: "'k app_env" and now
proof
  fix ep l and s :: "('k, 'x) core_scheme"
  show "filter (\<lambda>x. pe_endpoint x \<noteq> ep) (live_subscriptions (co_cfg (remove_push_subscription env now ep s)) l)
    = filter (\<lambda>x. pe_endpoint x \<noteq> ep) (live_subscriptions (co_cfg s) l)"
    using remove_push_subscription_cfg [of env now ep s] by (auto simp: live_subscriptions_without)
qed

section \<open>Who is alerted\<close>

text \<open>An alert's fan-out to browsers never unsubscribes one: whatever the push services answer, a
  subscription of the live configuration that none of them reported gone, or that was still fresh
  when they did, is there afterwards, for every location.\<close>

lemma alert_keeps_subscribers:
  assumes "send_report send clock origin (\<lambda>s. live_subscriptions (co_cfg s)) (remove_push_subscription env now) loc n s = (r, n', s')"
    and "x \<in> set (live_subscriptions (co_cfg s) l)"
    and "\<And>out. out \<in> set (outcomes send clock (live_subscriptions (co_cfg s) loc) n) \<Longrightarrow> deletable out \<Longrightarrow>
      pe_endpoint (fst out) \<noteq> pe_endpoint x"
  shows "x \<in> set (live_subscriptions (co_cfg s') l)"
  using assms by (intro live_subs.report_keeps [OF assms(1,2)]) blast

text \<open>Removing an account leaves its browsers subscribed and lifts its limits: each of them gets, from then
  on, every alert of the location it chose, and of every location if it chose none.\<close>

lemma removed_account_keeps_alerts:
  assumes "without_user e c name = Inr c'" "p \<in> set (cf_push_subscriptions c)" "equal_fold (ps_username p) name"
    and "location = [] \<or> ps_location p \<in> {[], location}"
  shows "pushee_of p \<in> set (live_subscriptions c' location)"
proof -
  have c': "c' = c\<lparr>cf_users := filter (\<lambda>u. \<not> equal_fold (us_username u) name) (cf_users c)\<rparr>"
    using assms(1) by (simp add: without_user_def checked_Inr)
  have "user_by_username c' (ps_username p) = None"
    using assms(3) by (auto simp: c' user_by_username_def equal_fold_def)
  then have "\<not> barred c' location p" by (simp add: barred_def)
  then show ?thesis using assms(2,4) by (auto simp: live_subscriptions_def c')
qed

section \<open>Stale displays\<close>

text \<open>One tick of \<open>RunStaleChecks\<close>: the messages dispatched, room by room.\<close>

fun check_rooms :: "config \<Rightarrow> fleet \<Rightarrow> time \<Rightarrow> room list \<Rightarrow> alert_manager \<Rightarrow> message list \<times> alert_manager" where
  "check_rooms c tlm now [] m = ([], m)"
| "check_rooms c tlm now (r # rs) m =
     (case snapshot_of tlm (rm_device_id r) of
        None \<Rightarrow> check_rooms c tlm now rs m
      | Some snap \<Rightarrow>
          let silent = time_sub now (sn_last_seen snap);
              (ev, out, m) = evaluate_stale (Some (device_location c)) (Some (live_settings c)) m (rm_device_id r) (rm_name r)
                 (silent > stale_threshold c snap) silent now;
              (outs, m) = check_rooms c tlm now rs m
          in ((case out of Some x \<Rightarrow> [x] | None \<Rightarrow> []) @ outs, m))"

definition check_stale :: "time \<Rightarrow> ('k, 'x) server_scheme \<Rightarrow> message list \<times> ('k, 'x) server_scheme" where
  "check_stale now s =
     (let (out, m) = check_rooms (co_cfg s) (sv_tlm s) now (cf_rooms (co_cfg s)) (sv_alerts s)
      in (out, s\<lparr>sv_alerts := m\<rparr>))"

text \<open>A device that never reported is unknown, not offline.\<close>

lemma evaluate_stale_device:
  "evaluate_stale locate live m d room st si now = (ev, Some x, m') \<Longrightarrow> mg_device_id x = d"
  by (auto simp: evaluate_stale_def alert_message_def dispatched_def Let_def split: stale_event.splits prod.splits option.splits if_splits)

lemma check_rooms_reported:
  "x \<in> set (fst (check_rooms c tlm now rs m)) \<Longrightarrow>
     \<exists>r \<in> set rs. mg_device_id x = rm_device_id r \<and> snapshot_of tlm (rm_device_id r) \<noteq> None"
proof (induction rs arbitrary: m)
  case (Cons r rs)
  show ?case
  proof (cases "snapshot_of tlm (rm_device_id r)")
    case None
    then show ?thesis using Cons by auto
  next
    case (Some snap)
    let ?e = "evaluate_stale (Some (device_location c)) (Some (live_settings c)) m (rm_device_id r) (rm_name r)
      (time_sub now (sn_last_seen snap) > stale_threshold c snap) (time_sub now (sn_last_seen snap)) now"
    obtain ev out m' where e: "?e = (ev, out, m')" using prod_cases3 by blast
    show ?thesis
    proof (cases "out = Some x")
      case True
      then show ?thesis using evaluate_stale_device [OF e [unfolded True]] Some by auto
    next
      case False
      then have "x \<in> set (fst (check_rooms c tlm now rs m'))"
        using Cons.prems Some e by (auto simp: Let_def split_def split: option.splits)
      then show ?thesis using Cons.IH by auto
    qed
  qed
qed simp

section \<open>Browsers\<close>

definition max_subscribe_body :: nat where "max_subscribe_body = 4 * 1024"

record subscribe_request =
  sr_endpoint :: string
  sr_location :: string
  sr_p256dh :: string
  sr_auth :: string

type_synonym subscribe_codec = "byte list \<Rightarrow> subscribe_request option"

definition decode_subscribe :: "subscribe_codec \<Rightarrow> request \<Rightarrow> nat + subscribe_request" where
  "decode_subscribe dec rq =
     (if \<not> has_prefix (rq_header rq ''Content-Type'') ''application/json'' then Inl 415
      else case dec (take max_subscribe_body (rq_body rq)) of None \<Rightarrow> Inl 400 | Some r \<Rightarrow> Inr r)"

definition truncate_second :: "time \<Rightarrow> time" where "truncate_second t = t div second * second"

definition handle_push_subscribe ::
  "'k app_env \<Rightarrow> subscribe_codec \<Rightarrow> role_ui \<Rightarrow> ('p, ('k, 'x) server_scheme) handler" where
  "handle_push_subscribe env dec ui rq s =
     (if sv_vapid s = [] then (answer_web (HttpError 409), s)
      else case decode_subscribe dec rq of
        Inl st \<Rightarrow> (answer_web (HttpError st), s)
      | Inr r \<Rightarrow>
          let (user, s) = session_username env ui rq s;
              (acct, s) = session_account env ui rq s
          in if (case acct of None \<Rightarrow> True | Some u \<Rightarrow> limited u \<and> \<not> can_see_location u (sr_location r))
             then (answer_web (HttpError 403), s)
             else (case save_edit env (rq_now rq) False (with_push_subscription (ae_go env) (co_cfg s)
                      \<lparr>ps_username = user, ps_location = sr_location r, ps_endpoint = sr_endpoint r, ps_p256dh = sr_p256dh r,
                       ps_auth = sr_auth r, ps_created = truncate_second (rq_now rq)\<rparr>) s of
                     (Refused err, s) \<Rightarrow> (answer_web (HttpError 400), s)
                   | (NotSaved err, s) \<Rightarrow> (answer_web (HttpError 500), s)
                   | (Saved, s) \<Rightarrow> (answer_web NoContent, s)))"

definition handle_push_unsubscribe ::
  "'k app_env \<Rightarrow> subscribe_codec \<Rightarrow> role_ui \<Rightarrow> ('p, ('k, 'x) server_scheme) handler" where
  "handle_push_unsubscribe env dec ui rq s =
     (case decode_subscribe dec rq of
        Inl st \<Rightarrow> (answer_web (HttpError st), s)
      | Inr r \<Rightarrow>
          let (user, s) = session_username env ui rq s
          in if sr_endpoint r \<notin> set (map ps_endpoint (push_subscriptions_for (co_cfg s) user))
             then (answer_web NoContent, s)
             else (case apply_config env (rq_now rq) (fst (without_push_subscription (co_cfg s) (sr_endpoint r))) False s of
                     (Some err, s) \<Rightarrow> (answer_web (HttpError 500), s)
                   | (None, s) \<Rightarrow> (answer_web NoContent, s)))"

datatype browser_page = NotificationsPage string string nat "location list" bool

definition handle_notifications_page ::
  "'k app_env \<Rightarrow> role_ui \<Rightarrow> (browser_page, ('k, 'x) server_scheme) handler" where
  "handle_notifications_page env ui rq s =
     (let (acct, s) = session_account env ui rq s;
          u = (case acct of None \<Rightarrow> zero_user | Some u \<Rightarrow> u);
          (user, s) = session_username env ui rq s;
          c = co_cfg s
      in (answer_web (Page (NotificationsPage (ui_home ui) (sv_vapid s) (length (push_subscriptions_for c user))
            (filter (\<lambda>l. can_see_location u (lo_id l)) (cf_locations c)) (\<not> limited u))), s))"

definition origin_of :: "go_env \<Rightarrow> string \<Rightarrow> string" where
  "origin_of e endpoint = (case env_url e endpoint of None \<Rightarrow> [] | Some (scheme, host) \<Rightarrow> scheme @ ''://'' @ host)"

definition trim_suffix :: "string \<Rightarrow> string \<Rightarrow> string" where
  "trim_suffix s t = (if has_prefix (rev s) (rev t) then take (length s - length t) s else s)"

definition browser_family :: "string \<Rightarrow> string" where
  "browser_family ua =
     (case find_first (contains ua) [''Edg/'', ''Brave'', ''OPR/'', ''Arc/'', ''Firefox/'', ''Chrome/'', ''Safari/''] of
        Some b \<Rightarrow> trim_suffix b ''/''
      | None \<Rightarrow> ''other'')"

section \<open>The administrator's panel\<close>

record channel_status =
  cs_name :: string
  cs_label :: string
  cs_selected :: bool
  cs_secret_set :: bool
  cs_secret_var :: string

record notifications_panel =
  np_channels :: "channel_status list"
  np_mine :: nat
  np_all :: nat
  np_tested :: string

definition build_notifications_panel :: "config \<Rightarrow> string \<Rightarrow> string \<Rightarrow> notifications_panel" where
  "build_notifications_panel c username tested =
     (let selected = effective_channels (cf_alerts c);
          a = cf_alerts c; lk = al_lark_app a; wp = al_webpush a;
          row = (\<lambda>n l b v. \<lparr>cs_name = n, cs_label = l, cs_selected = (n \<in> set selected), cs_secret_set = b, cs_secret_var = v\<rparr>)
      in \<lparr>np_channels =
            [row ''lark'' (''Lark (DM to each location'' @ [CHR 0x27] @ ''s person)'') (lk_app_id lk \<noteq> [] \<and> lk_app_secret lk \<noteq> [])
               ''LARK_APP_SECRET'',
             row ''webpush'' ''Browser notifications'' (wp_public_key wp \<noteq> [] \<and> wp_private_key wp \<noteq> [] \<and> wp_subject wp \<noteq> [])
               ''WEBPUSH_VAPID_PUBLIC_KEY, WEBPUSH_VAPID_PRIVATE_KEY'']
            @ (if al_webhook_url a \<noteq> [] \<or> ''slack'' \<in> set selected
               then [row ''slack'' ''Slack (legacy)'' (al_webhook_url a \<noteq> []) ''ALERT_WEBHOOK_URL''] else []),
          np_mine = length (push_subscriptions_for c username), np_all = length (cf_push_subscriptions c), np_tested = tested\<rparr>)"

definition admin_error :: "msg \<Rightarrow> string \<Rightarrow> 'p web" where
  "admin_error m anchor = redirect (Target ''/admin'' [(''error'', m)] anchor)"

definition handle_admin_save_notifications ::
  "'k app_env \<Rightarrow> ('pk, 'sk) push_crypto \<Rightarrow> (channel_error \<Rightarrow> string) \<Rightarrow> ('p, ('k, 'sk, 'x) alert_server_scheme) handler" where
  "handle_admin_save_notifications env cr err_text rq = with_form (\<lambda>f s.
     let chosen = filter (\<lambda>ch. ch \<in> set (f ''channel'')) [''lark'', ''webpush'', ''slack''];
         channels = (if chosen = [] then [''log''] else chosen);
         c = co_cfg s
     in case with_alerts (ae_go env) c ((cf_alerts c)\<lparr>al_channels := channels\<rparr>) of
          Inl err \<Rightarrow> (admin_error (WithDetail (''Couldn'' @ [CHR 0x27] @ ''t turn that channel on: its secret isn'' @ [CHR 0x27]
                        @ ''t set on the server.'') (ConfigMsg err)) ''notifications'', s)
        | Inr c' \<Rightarrow>
            (case build_channels cr c' (effective_channels (cf_alerts c')) of
               Inl err \<Rightarrow> (admin_error (WithDetail (''That channel'' @ [CHR 0x27] @ ''s configuration doesn'' @ [CHR 0x27]
                             @ ''t work.'') (Lit (err_text err))) ''notifications'', s)
             | Inr built \<Rightarrow>
                 (case save_edit env (rq_now rq) False (Inr c') s of
                    (Refused err, s) \<Rightarrow> (admin_error (ConfigMsg err) ''notifications'', s)
                  | (NotSaved err, s) \<Rightarrow> (admin_error (SaveMsg err) ''notifications'', s)
                  | (Saved, s) \<Rightarrow> (redirect (Target ''/admin'' [(''saved'', Lit ''notifications'')] ''notifications''),
                                    snd (activate_channels cr c' s))))) rq"

text \<open>The browsers of one account, for a test message; \<open>deliver\<close> sends it on the channel built.\<close>

definition user_push_subs :: "config \<Rightarrow> string \<Rightarrow> string \<Rightarrow> pushee list" where
  "user_push_subs c username location = map pushee_of (push_subscriptions_for c username)"

type_synonym ('sk, 's) deliver = "('s \<Rightarrow> string \<Rightarrow> pushee list) \<Rightarrow> 'sk channel list \<Rightarrow> message \<Rightarrow> 's \<Rightarrow> string option \<times> 's"

definition hm_utc :: "time \<Rightarrow> string" where
  "hm_utc t = two_digits (unix t div 3600 mod 24) @ '':'' @ two_digits (unix t div 60 mod 60) @ '' UTC''"

definition bell :: string where "bell = [CHR 0xF0, CHR 0x9F, CHR 0x94, CHR 0x94]"

definition bare_message :: "string \<Rightarrow> string \<Rightarrow> message" where
  "bare_message head body = \<lparr>mg_title = head, mg_text = body, mg_device_id = [], mg_room = [], mg_location = []\<rparr>"

definition handle_admin_test_notification ::
  "'k app_env \<Rightarrow> ('pk, 'sk) push_crypto \<Rightarrow> (channel_error \<Rightarrow> string) \<Rightarrow> ('sk, ('k, 'sk, 'x) alert_server_scheme) deliver
     \<Rightarrow> ('p, ('k, 'sk, 'x) alert_server_scheme) handler" where
  "handle_admin_test_notification env cr err_text deliver rq = with_form (\<lambda>f s.
     let ch = form_get f ''test_channel'';
         (user, s) = session_username env admin_ui rq s;
         c = co_cfg s;
         panel = build_notifications_panel c user []
     in case find_first (\<lambda>r. cs_name r = ch) (np_channels panel) of
          None \<Rightarrow> (answer_web (HttpError 400), s)
        | Some row \<Rightarrow>
            if \<not> cs_secret_set row
            then (admin_error (Lit (''Can'' @ [CHR 0x27] @ ''t test '' @ cs_label row @ '': its secret ('' @ cs_secret_var row
                    @ '') isn'' @ [CHR 0x27] @ ''t set on the server.'')) ''notifications'', s)
            else if ch = ''lark'' \<and> al_lark_fallback (cf_alerts c) = []
            then (admin_error (Lit (''The Lark test here goes to the fallback group, and none is set. Use '' @ dquoted ''Send test DM''
                    @ '' on a location under Locations instead.'')) ''notifications'', s)
            else if ch = ''webpush'' \<and> np_mine panel = 0
            then (admin_error (Lit ''Turn on browser notifications for this browser first (link in this section), then test.'')
                    ''notifications'', s)
            else case build_channels cr c [ch] of
              Inl err \<Rightarrow> (admin_error (WithDetail (''That channel'' @ [CHR 0x27] @ ''s configuration doesn'' @ [CHR 0x27]
                            @ ''t work.'') (Lit (err_text err))) ''notifications'', s)
            | Inr (n, vapid) \<Rightarrow>
                let m = bare_message (bell @ '' Test notification from the meeting-display broker'')
                      (''Sent from /admin by '' @ user @ '' at '' @ hm_utc (rq_now rq) @ ''. If you can read this, ''
                        @ cs_label row @ '' alerts work.'')
                in (case deliver (\<lambda>s. user_push_subs (co_cfg s) user) n m s of
                      (Some err, s) \<Rightarrow> (admin_error (WithDetail (''The '' @ cs_label row @ '' test didn'' @ [CHR 0x27]
                                          @ ''t go through.'') (Lit err)) ''notifications'', s)
                    | (None, s) \<Rightarrow> (redirect (Target ''/admin'' [(''saved'', Lit ''notifications''), (''tested'', Lit ch)]
                                     ''notifications''), s))) rq"

section \<open>What the handlers keep\<close>

lemma alert_fields_quiet:
  "quiet_step env s s' \<Longrightarrow> quiet_step env s (s'\<lparr>sv_vapid := v\<rparr>)"
  "quiet_step env s s' \<Longrightarrow> quiet_step env s (s'\<lparr>sv_alerts := a\<rparr>)"
  "quiet_step env s s' \<Longrightarrow> quiet_step env s (s'\<lparr>sv_tlm := t\<rparr>)"
  "quiet_step env s s' \<Longrightarrow> quiet_step env s (s'\<lparr>sv_cache := c\<rparr>)"
  "quiet_step env t0 t1 \<Longrightarrow> quiet_step env t0 (t1\<lparr>as_notifier := n\<rparr>)"
  by (simp_all add: quiet_step_def sound_def derived_fresh_def sessions_from_def world_kept_def)

lemma quiet_apply:
  assumes "sound env s \<Longrightarrow> well_formed (ae_go env) c \<and> cf_rooms c = cf_rooms (co_cfg s) \<and> cf_users c = cf_users (co_cfg s)"
  shows "quiet_step env s (snd (apply_config env now c False s))"
proof -
  have eq: "snd (apply_config env now c False s) = snd (save_edit env now False (Inr c) s)"
    by (simp add: save_edit_def split: prod.split option.split)
  show ?thesis unfolding eq by (rule quiet_save) (use assms in auto)
qed

lemma without_push_subscription_frame:
  "cf_rooms (fst (without_push_subscription c ep)) = cf_rooms c" "cf_users (fst (without_push_subscription c ep)) = cf_users c"
  by (simp_all add: without_push_subscription_def Let_def)

lemma remove_push_subscription_quiet [simp]: "quiet_step env s (remove_push_subscription env now ep s)"
  by (auto simp: remove_push_subscription_def split_def without_push_subscription_frame sound_def
      intro!: quiet_apply without_push_subscription_well_formed)

lemma activate_channels_quiet: "quiet_step env s (snd (activate_channels cr c s))"
  by (auto simp: activate_channels_def intro!: quiet_intros alert_fields_quiet split: sum.split)

lemma with_push_subscription_frame:
  "with_push_subscription e c p = Inr c' \<Longrightarrow> cf_rooms c' = cf_rooms c \<and> cf_users c' = cf_users c"
  by (simp add: with_push_subscription_def checked_Inr)

lemma with_alerts_frame: "with_alerts e c a = Inr c' \<Longrightarrow> cf_rooms c' = cf_rooms c \<and> cf_users c' = cf_users c"
  by (simp add: with_alerts_def checked_Inr)

lemma quiet_look_ups [simp]:
  "quiet_step env s (snd (look_up env ui rq (snd (look_up env ui' rq' s))))"
  by (rule quiet_trans [OF quiet_look_up quiet_look_up])

lemma quiet_edit:
  assumes "quiet_step env s s'"
    and "\<And>c. res = Inr c \<Longrightarrow> sound env s' \<Longrightarrow> well_formed (ae_go env) c \<and> cf_rooms c = cf_rooms (co_cfg s') \<and> cf_users c = cf_users (co_cfg s')"
    and "\<And>s. quiet_step env s (snd (k s))"
  shows "quiet_step env s (snd (case save_edit env now False res s' of
       (Refused err, s) \<Rightarrow> (w1 err, s) | (NotSaved err, s) \<Rightarrow> (w2 err, s) | (Saved, s) \<Rightarrow> k s))"
  by (rule quiet_trans [OF assms(1) quiet_outcome]) (auto intro!: quiet_save dest: assms(2) intro: assms(3))

lemma handle_push_subscribe_quiet: "quiet_step env s (snd (handle_push_subscribe env dec ui rq s))"
  unfolding handle_push_subscribe_def Let_def session_username_eq session_account_eq prod.case
  by (auto split: sum.split option.split intro!: quiet_edit dest: edit_valid(10) with_push_subscription_frame)

lemma quiet_applied:
  assumes "quiet_step env s s'"
    and "sound env s' \<Longrightarrow> well_formed (ae_go env) c \<and> cf_rooms c = cf_rooms (co_cfg s') \<and> cf_users c = cf_users (co_cfg s')"
  shows "quiet_step env s (snd (case apply_config env now c False s' of (Some err, s) \<Rightarrow> (w1 err, s) | (None, s) \<Rightarrow> (w2, s)))"
proof (cases "apply_config env now c False s'")
  case (Pair r s'')
  then have "quiet_step env s s''" using quiet_trans [OF assms(1) quiet_apply [OF assms(2), of now]] by simp
  then show ?thesis using Pair by (simp split: option.split)
qed

lemma handle_push_unsubscribe_quiet: "quiet_step env s (snd (handle_push_unsubscribe env dec ui rq s))"
  unfolding handle_push_unsubscribe_def Let_def session_username_eq prod.case
  by (auto split: sum.split intro!: quiet_applied simp: without_push_subscription_frame sound_def
      intro: without_push_subscription_well_formed)

lemma handle_notifications_page_quiet: "quiet_step env s (snd (handle_notifications_page env ui rq s))"
  unfolding handle_notifications_page_def Let_def session_username_eq session_account_eq prod.case snd_conv
  by (rule quiet_look_ups)

lemma quiet_sum:
  "(\<And>e. x = Inl e \<Longrightarrow> quiet_step env s (snd (f e))) \<Longrightarrow> (\<And>y. x = Inr y \<Longrightarrow> quiet_step env s (snd (g y)))
     \<Longrightarrow> quiet_step env s (snd (case x of Inl e \<Rightarrow> f e | Inr y \<Rightarrow> g y))"
  by (simp split: sum.split)

lemma handle_save_notifications_quiet: "quiet_step env s (snd (handle_admin_save_notifications env cr err_text rq s))"
  unfolding handle_admin_save_notifications_def Let_def
  by (rule quiet_with_form, rule quiet_sum, simp, rule quiet_sum, simp, rule quiet_edit)
    (simp_all add: activate_channels_quiet, auto simp: sound_def dest: edit_valid(5) with_alerts_frame)

section \<open>Applied\<close>

definition sample_browser :: "string \<Rightarrow> push_subscription" where
  "sample_browser ep = \<lparr>ps_username = ''bob'', ps_location = [], ps_endpoint = ''https://push.x/'' @ ep,
     ps_p256dh = b64url_encode (replicate 65 5), ps_auth = b64url_encode (replicate 16 9), ps_created = 0\<rparr>"

definition sample_subscribed :: "unit server" where
  "sample_subscribed = sample_server\<lparr>co_cfg := sample_config\<lparr>cf_users := [], cf_push_subscriptions := [sample_browser ''old'', sample_browser ''new'']\<rparr>\<rparr>"

lemma sample_removal:
  "\<exists>c'. without_user sample_env (sample_config\<lparr>cf_users := [sample_user ''ann'' ''admin'' [], sample_user ''bob'' ''viewer'' [''ny'']],
     cf_push_subscriptions := [sample_browser ''x'']\<rparr>) ''bob'' = Inr c'"
proof -
  have "well_formed sample_env (sample_config\<lparr>cf_users := [sample_user ''ann'' ''admin'' []], cf_push_subscriptions := [sample_browser ''x'']\<rparr>)"
    unfolding well_formed_def
    by (intro conjI; simp add: sample_config_def; simp add: contract_defs sample_env_def Let_def sample_browser_def https_url_def b64_len_def)
  then show ?thesis
    by (simp add: without_user_def checked_Inr sample_config_def equal_fold_def to_lower_def char_lower_def char_of_def bit_0 bit_Suc)
qed

end
