(* ===== verification/Admin.thy ===== *)
theory Admin
  imports Notifications "HOL-Library.List_Lexorder" "HOL-Library.Char_ord"
begin

text \<open>
  The administrators' and managers' pages: \<open>internal/server/admin.go\<close> (less the two-factor handlers, which
  are in \<open>Login\<close>), \<open>admin_locations.go\<close>, \<open>manager.go\<close> and the view of \<open>internal/admin/view.go\<close>. The
  calendar that a room save probes is a parameter as in the poller, \<open>time.ParseDuration\<close> is one, and
  so is Lark's network. The lemmas say what an edit keeps of a room or an account when its form is
  silent about it, what the view shows of secrets, and what a removal does not end.
\<close>

section \<open>Form values\<close>

text \<open>\<open>strconv.ParseUint\<close> in base ten: a bad digit is a syntax error, but only before the value has passed
  the limit.\<close>

datatype num_fault = BadSyntax | OutOfRange

definition digit_val :: "char \<Rightarrow> nat option" where
  "digit_val c = (let n = of_char c in if 48 \<le> n \<and> n \<le> 57 then Some (n - 48) else None)"

fun parse_digits :: "nat \<Rightarrow> nat \<Rightarrow> string \<Rightarrow> num_fault + nat" where
  "parse_digits m n [] = Inr n"
| "parse_digits m n (c # cs) =
     (case digit_val c of
        None \<Rightarrow> Inl BadSyntax
      | Some d \<Rightarrow> if n * 10 + d > m then Inl OutOfRange else parse_digits m (n * 10 + d) cs)"

definition parse_uint :: "nat \<Rightarrow> string \<Rightarrow> num_fault + nat" where
  "parse_uint m s = (if s = [] then Inl BadSyntax else parse_digits m 0 s)"

definition atoi :: "string \<Rightarrow> int" where
  "atoi s =
     (let neg = (s \<noteq> [] \<and> hd s = CHR ''-'');
          digits = (if s \<noteq> [] \<and> hd s \<in> {CHR ''-'', CHR ''+''} then tl s else s)
      in case parse_uint (2 ^ 64 - 1) digits of
           Inl BadSyntax \<Rightarrow> 0
         | Inl OutOfRange \<Rightarrow> if neg then - (2 ^ 63) else 2 ^ 63 - 1
         | Inr n \<Rightarrow> if neg then - (min (int n) (2 ^ 63)) else min (int n) (2 ^ 63 - 1))"

definition form_int :: "(string \<Rightarrow> string list) \<Rightarrow> string \<Rightarrow> int" where
  "form_int f k = atoi (form_get f k)"

definition form_uint32 :: "(string \<Rightarrow> string list) \<Rightarrow> string \<Rightarrow> u32" where
  "form_uint32 f k =
     (case parse_uint (2 ^ 32 - 1) (form_get f k) of
        Inl BadSyntax \<Rightarrow> 0 | Inl OutOfRange \<Rightarrow> - 1 | Inr n \<Rightarrow> of_nat n)"

type_synonym duration_parser = "string \<Rightarrow> duration option"

definition form_duration :: "duration_parser \<Rightarrow> (string \<Rightarrow> string list) \<Rightarrow> string \<Rightarrow> duration" where
  "form_duration pd f k = (case pd (form_get f k) of None \<Rightarrow> 0 | Some d \<Rightarrow> d)"

definition is_sha256_hex :: "string \<Rightarrow> bool" where
  "is_sha256_hex s \<longleftrightarrow> length s = 64 \<and>
     (\<forall>c \<in> set s. let n = of_char c :: nat in (48 \<le> n \<and> n \<le> 57) \<or> (97 \<le> n \<and> n \<le> 102))"

text \<open>A parsed number is the one its digits denote, and never above the limit.\<close>

lemma parse_digits_bound: "parse_digits m n s = Inr k \<Longrightarrow> n \<le> m \<Longrightarrow> k \<le> m"
  by (induction m n s rule: parse_digits.induct) (auto split: option.splits if_splits)

lemma parse_digits_value:
  "parse_digits m n s = Inr k \<Longrightarrow> k = foldl (\<lambda>a c. a * 10 + (of_char c - 48)) n s"
  by (induction m n s rule: parse_digits.induct) (auto simp: digit_val_def Let_def split: option.splits if_splits)

lemma form_uint32_exact:
  assumes "parse_uint (2 ^ 32 - 1) (form_get f k) = Inr n"
  shows "unat (form_uint32 f k) = n"
proof -
  have "n \<le> 2 ^ 32 - 1"
    using assms by (auto simp: parse_uint_def dest: parse_digits_bound split: if_splits)
  then show ?thesis using assms by (simp add: form_uint32_def unat_of_nat)
qed

lemma atoi_range: "- (2 ^ 63) \<le> atoi s" "atoi s < 2 ^ 63"
  by (auto simp: atoi_def Let_def split: sum.split num_fault.split)

section \<open>The view\<close>

record room_view =
  rv_device_id :: string
  rv_name :: string
  rv_room :: string
  rv_label :: string
  rv_wake_mode :: string
  rv_flat_interval :: u32
  rv_token_configured :: bool
  rv_location :: string
  rv_location_name :: string

record user_view =
  uv_username :: string
  uv_role :: string
  uv_locations :: "string list"
  uv_two_factor :: bool

record fleet_view =
  fv_wifi_ssid :: string
  fv_psk_configured :: bool

record admin_view =
  av_wake :: wake_config
  av_alerts :: alert_config
  av_firmware :: firmware_config
  av_fleet :: fleet_view
  av_rooms :: "room_view list"
  av_users :: "user_view list"
  av_locations :: "location list"
  av_default_location :: string

definition build_view :: "config \<Rightarrow> admin_view" where
  "build_view c =
     \<lparr>av_wake = cf_wake c, av_alerts = cf_alerts c, av_firmware = cf_firmware c,
      av_fleet = \<lparr>fv_wifi_ssid = fl_wifi_ssid (cf_fleet c), fv_psk_configured = (fl_wifi_psk (cf_fleet c) \<noteq> [])\<rparr>,
      av_rooms = map (\<lambda>r. \<lparr>rv_device_id = rm_device_id r, rv_name = rm_name r, rv_room = rm_room r, rv_label = rm_label r,
        rv_wake_mode = (case rm_wake_mode r of None \<Rightarrow> [] | Some m \<Rightarrow> m),
        rv_flat_interval = (case rm_flat_interval r of None \<Rightarrow> 0 | Some n \<Rightarrow> n),
        rv_token_configured = (rm_token_sha256 r \<noteq> []), rv_location = rm_location r,
        rv_location_name = (case location_by_id c (location_of c r) of None \<Rightarrow> [] | Some l \<Rightarrow> lo_name l)\<rparr>) (cf_rooms c),
      av_users = map (\<lambda>u. \<lparr>uv_username = us_username u, uv_role = us_role u, uv_locations = us_locations u,
        uv_two_factor = (us_totp_secret u \<noteq> [])\<rparr>) (cf_users c),
      av_locations = cf_locations c, av_default_location = cf_default_location c\<rparr>"

text \<open>The names and addresses that the forms suggest.\<close>

fun first_seen :: "string set \<Rightarrow> string list \<Rightarrow> string list" where
  "first_seen seen [] = []"
| "first_seen seen (x # xs) =
     (if x \<noteq> [] \<and> x \<notin> seen then x # first_seen (insert x seen) xs else first_seen seen xs)"

definition known_room_suggestions :: "config \<Rightarrow> string list \<times> string list" where
  "known_room_suggestions c =
     (sort (first_seen {} (map rm_room (cf_rooms c))), sort (first_seen {} (map rm_name (cf_rooms c))))"

lemma first_seen_spec: "distinct (first_seen seen xs) \<and> set (first_seen seen xs) = set xs - {[]} - seen"
  by (induction seen xs rule: first_seen.induct) auto

lemma known_room_suggestions_spec:
  "known_room_suggestions c = (cals, names) \<Longrightarrow>
     sorted cals \<and> distinct cals \<and> set cals = rm_room ` set (cf_rooms c) - {[]}
     \<and> sorted names \<and> distinct names \<and> set names = rm_name ` set (cf_rooms c) - {[]}"
  by (auto simp: known_room_suggestions_def first_seen_spec)

section \<open>The page\<close>

record location_row =
  lw_id :: string
  lw_name :: string
  lw_email :: string
  lw_chat_id :: string
  lw_delivery :: string
  lw_default :: bool
  lw_rooms :: nat

record locations_panel =
  lp_rows :: "location_row list"
  lp_tested :: string
  lp_tested_group :: string

definition build_locations_panel :: "config \<Rightarrow> string \<Rightarrow> string \<Rightarrow> locations_panel" where
  "build_locations_panel c tested tested_group =
     \<lparr>lp_rows = map (\<lambda>l. \<lparr>lw_id = lo_id l, lw_name = lo_name l, lw_email = lo_lark_user_email l, lw_chat_id = lo_lark_chat_id l,
        lw_delivery = lo_delivery l, lw_default = (lo_id l = cf_default_location c),
        lw_rooms = length (filter (\<lambda>r. location_of c r = lo_id l) (cf_rooms c))\<rparr>) (cf_locations c),
      lp_tested = tested, lp_tested_group = tested_group\<rparr>"

fun cut :: "string \<Rightarrow> string \<Rightarrow> string \<times> string" where
  "cut sep [] = ([], [])"
| "cut sep (c # cs) =
     (if has_prefix (c # cs) sep then ([], drop (length sep) (c # cs))
      else let (before, after) = cut sep cs in (c # before, after))"

record admin_data =
  ad_view :: admin_view
  ad_error :: string
  ad_error_detail :: string
  ad_saved_section :: string
  ad_username :: string
  ad_totp_enabled :: bool
  ad_totp_required :: bool
  ad_strip :: strip
  ad_notifications :: notifications_panel
  ad_locations :: locations_panel
  ad_web_tools_url :: string
  ad_known_calendars :: "string list"
  ad_known_names :: "string list"
  ad_reset_username :: string
  ad_reset_password :: string

text \<open>A reset password is shown by the request that takes it out of the store.\<close>

definition reveal_reset ::
  "request \<Rightarrow> ('k, 'x) web_server_scheme \<Rightarrow> (string \<times> string) option \<times> ('k, 'x) web_server_scheme" where
  "reveal_reset rq s =
     (let nonce = rq_query rq ''reset''
      in if nonce = [] then (None, s)
         else let (r, m) = resets_take (rq_now rq) nonce (ws_resets s)
              in (map_option (\<lambda>r. (pw_username r, pw_password r)) r, s\<lparr>ws_resets := m\<rparr>))"

definition handle_admin_page :: "'k app_env \<Rightarrow> (admin_data, ('k, 'x) web_server_scheme) handler" where
  "handle_admin_page env rq s =
     (let c = co_cfg s;
          (plain, detail) = cut ''||'' (rq_query rq ''error'');
          (cals, names) = known_room_suggestions c;
          (x, s) = look_up env admin_ui rq s;
          user = (case x of None \<Rightarrow> [] | Some x \<Rightarrow> sn_username x);
          acct = (case x of None \<Rightarrow> None | Some x \<Rightarrow> user_by_username c (sn_username x));
          (shown, s) = reveal_reset rq s
      in ((answer_web (Page
            \<lparr>ad_view = build_view c, ad_error = plain, ad_error_detail = detail, ad_saved_section = rq_query rq ''saved'',
             ad_username = user, ad_totp_enabled = (case acct of None \<Rightarrow> False | Some u \<Rightarrow> us_totp_secret u \<noteq> []),
             ad_totp_required = (case acct of None \<Rightarrow> False | Some u \<Rightarrow> two_factor_required (cf_auth c)),
             ad_strip = persist_strip (co_pstate s),
             ad_notifications = build_notifications_panel c user (rq_query rq ''tested''),
             ad_locations = build_locations_panel c (rq_query rq ''dm'') (rq_query rq ''group''),
             ad_web_tools_url = fw_web_tools_url (cf_firmware c), ad_known_calendars = cals, ad_known_names = names,
             ad_reset_username = (case shown of None \<Rightarrow> [] | Some (u, p) \<Rightarrow> u),
             ad_reset_password = (case shown of None \<Rightarrow> [] | Some (u, p) \<Rightarrow> p)\<rparr>))\<lparr>wb_no_store := (shown \<noteq> None)\<rparr>, s))"

section \<open>Saving from the page\<close>

text \<open>The tail of the save handlers: the fragment of a refused edit, of a failed save, the section to
  flash and its fragment.\<close>

definition admin_tail :: "string \<Rightarrow> string \<Rightarrow> string \<Rightarrow> string \<Rightarrow> outcome \<times> 's \<Rightarrow> 'p web \<times> 's" where
  "admin_tail refused failed flash anchor res =
     (case res of
        (Refused err, s) \<Rightarrow> (admin_error (ConfigMsg err) refused, s)
      | (NotSaved err, s) \<Rightarrow> (admin_error (SaveMsg err) failed, s)
      | (Saved, s) \<Rightarrow> (redirect (Target ''/admin'' [(''saved'', Lit flash)] anchor), s))"

lemma snd_admin_tail [simp]: "snd (admin_tail a b c d res) = snd res"
  by (simp add: admin_tail_def split: prod.split outcome.split)

text \<open>The probe of a calendar before a room is saved; \<open>None\<close> turns it off.\<close>

definition probe_calendar :: "fetcher \<Rightarrow> time \<Rightarrow> string \<Rightarrow> msg option" where
  "probe_calendar fetch now addr =
     (case fetch addr now (now + hour) of
        Inr sched \<Rightarrow> None
      | Inl err \<Rightarrow> Some (WithDetail (''Couldn'' @ [CHR 0x27] @ ''t save: '' @ addr @ '' isn'' @ [CHR 0x27]
            @ ''t readable by the broker yet. Ask whoever manages your Google Calendar to share this room with the broker, ''
            @ ''then try again.'')
          (Lit (''could not read calendar '' @ go_quote addr @ '' ('' @ err @ ''). Either it hasn'' @ [CHR 0x27]
            @ ''t been shared with the broker'' @ [CHR 0x27] @ ''s service account as freeBusyReader, or the address is wrong, ''
            @ ''or Google Calendar is temporarily unreachable '' @ em_dash @ '' check the sharing, then retry''))))"

definition token_hash :: "'k app_env \<Rightarrow> (string \<Rightarrow> string list) \<Rightarrow> room option \<Rightarrow> string option" where
  "token_hash env f existing =
     (let hashed = form_get f ''token_sha256''; plain = form_get f ''token''
      in if hashed \<noteq> [] then (if is_sha256_hex hashed then Some hashed else None)
         else if plain \<noteq> [] then Some (sha_hex env plain)
         else Some (case existing of None \<Rightarrow> [] | Some r \<Rightarrow> rm_token_sha256 r))"

definition form_wake_mode :: "(string \<Rightarrow> string list) \<Rightarrow> room option \<Rightarrow> string option" where
  "form_wake_mode f existing =
     (let v = form_get f ''wake_mode_override''
      in if v = ''default'' then None
         else if v = ''smart'' \<or> v = ''flat'' then Some v
         else Option.bind existing rm_wake_mode)"

definition form_room :: "(string \<Rightarrow> string list) \<Rightarrow> room option \<Rightarrow> string \<Rightarrow> room" where
  "form_room f existing hash =
     \<lparr>rm_device_id = form_get f ''device_id'', rm_name = form_get f ''name'', rm_room = form_get f ''room'',
      rm_token_sha256 = hash,
      rm_location = (case existing of
          None \<Rightarrow> form_get f ''location''
        | Some r \<Rightarrow> if f ''location'' = [] then rm_location r else form_get f ''location''),
      rm_label = (case existing of
          None \<Rightarrow> form_get f ''label''
        | Some r \<Rightarrow> if form_get f ''label'' = [] then rm_label r else form_get f ''label''),
      rm_wake_mode = form_wake_mode f existing,
      rm_flat_interval = (if form_get f ''wake_flat_interval_seconds'' \<noteq> []
        then Some (form_uint32 f ''wake_flat_interval_seconds'') else Option.bind existing rm_flat_interval)\<rparr>"

definition existing_room :: "config \<Rightarrow> (string \<Rightarrow> string list) \<Rightarrow> room option" where
  "existing_room c f =
     (let original = form_get f ''original_device_id''
      in room_by_device_id c (if original \<noteq> [] then original else form_get f ''device_id''))"

definition handle_admin_save_room ::
  "'k app_env \<Rightarrow> fetcher option \<Rightarrow> (admin_data, ('k, 'x) core_scheme) handler" where
  "handle_admin_save_room env probe rq = with_form (\<lambda>f s.
     let c = co_cfg s; existing = existing_room c f
     in case token_hash env f existing of
          None \<Rightarrow> (admin_error (Lit ''token_sha256 must be 64 lowercase hex characters'') [], s)
        | Some hash \<Rightarrow>
            let r = form_room f existing hash;
                probed = (case probe of
                    None \<Rightarrow> None
                  | Some fetch \<Rightarrow>
                      if rm_room r \<noteq> [] \<and> map_option rm_room existing \<noteq> Some (rm_room r)
                      then probe_calendar fetch (rq_now rq) (rm_room r) else None)
            in (case probed of
                  Some m \<Rightarrow> (admin_error m ''rooms'', s)
                | None \<Rightarrow> admin_tail ''rooms'' ''rooms'' ''rooms'' []
                    (save_edit env (rq_now rq) True (rename_room (ae_go env) c (form_get f ''original_device_id'') r) s))) rq"

definition handle_admin_delete_room :: "'k app_env \<Rightarrow> (admin_data, ('k, 'x) core_scheme) handler" where
  "handle_admin_delete_room env rq = with_form (\<lambda>f s.
     admin_tail [] ''rooms'' ''rooms'' []
       (save_edit env (rq_now rq) True (without_room (ae_go env) (co_cfg s) (form_get f ''device_id'')) s)) rq"

definition form_wake :: "(string \<Rightarrow> string list) \<Rightarrow> wake_config \<Rightarrow> wake_config" where
  "form_wake f w = w\<lparr>
     wk_mode := form_get f ''mode'', wk_timezone := form_get f ''timezone'',
     wk_business_hours_seconds := form_uint32 f ''business_hours_seconds'',
     wk_off_hours_seconds := form_uint32 f ''off_hours_seconds'',
     wk_business_start_hour := form_int f ''business_start_hour'', wk_business_end_hour := form_int f ''business_end_hour'',
     wk_forced_refresh_hour := (if form_get f ''forced_refresh_hour'' \<noteq> [] then Some (form_int f ''forced_refresh_hour'') else None)\<rparr>"

definition handle_admin_save_wake_defaults :: "'k app_env \<Rightarrow> (admin_data, ('k, 'x) core_scheme) handler" where
  "handle_admin_save_wake_defaults env rq = with_form (\<lambda>f s.
     admin_tail [] ''wake'' ''wake'' []
       (save_edit env (rq_now rq) False (with_wake (ae_go env) (co_cfg s) (form_wake f (cf_wake (co_cfg s)))) s)) rq"

definition form_alerts :: "duration_parser \<Rightarrow> (string \<Rightarrow> string list) \<Rightarrow> alert_config \<Rightarrow> alert_config" where
  "form_alerts pd f a = a\<lparr>
     al_low_battery_pct := form_int f ''low_battery_pct'', al_clear_pct := form_int f ''clear_pct'',
     al_min_renotify := form_duration pd f ''min_renotify'', al_stale_after := form_duration pd f ''stale_after'',
     al_message_style := form_get f ''message_style''\<rparr>"

definition handle_admin_save_alerts ::
  "'k app_env \<Rightarrow> duration_parser \<Rightarrow> (admin_data, ('k, 'x) core_scheme) handler" where
  "handle_admin_save_alerts env pd rq = with_form (\<lambda>f s.
     admin_tail [] ''alerts'' ''alerts'' []
       (save_edit env (rq_now rq) False (with_alerts (ae_go env) (co_cfg s) (form_alerts pd f (cf_alerts (co_cfg s)))) s)) rq"

definition handle_admin_save_fleet_wifi :: "'k app_env \<Rightarrow> (admin_data, ('k, 'x) core_scheme) handler" where
  "handle_admin_save_fleet_wifi env rq = with_form (\<lambda>f s.
     admin_tail ''add-device'' ''add-device'' ''add-device'' ''add-device''
       (save_edit env (rq_now rq) False
          (with_fleet_wifi_ssid (ae_go env) (co_cfg s) (trim_space (form_get f ''wifi_ssid''))) s)) rq"

definition handle_admin_save_firmware :: "'k app_env \<Rightarrow> (admin_data, ('k, 'x) core_scheme) handler" where
  "handle_admin_save_firmware env rq = with_form (\<lambda>f s.
     admin_tail [] ''firmware'' ''firmware'' []
       (save_edit env (rq_now rq) False (with_firmware (ae_go env) (co_cfg s)
          \<lparr>fw_version = form_get f ''version'', fw_url = form_get f ''url'', fw_dir = form_get f ''dir'',
           fw_web_tools_url = fw_web_tools_url (cf_firmware (co_cfg s))\<rparr>) s)) rq"

section \<open>Accounts\<close>

text \<open>The password and its must-change mark: a typed one is new, a blank one keeps those of the account
  that is edited.\<close>

definition form_password :: "'k app_env \<Rightarrow> config \<Rightarrow> (string \<Rightarrow> string list) \<Rightarrow> string \<times> bool" where
  "form_password env c f =
     (let plain = form_get f ''password''; original = form_get f ''original_username''
      in if plain \<noteq> [] then (sha_hex env plain, form_get f ''force_password_change'' \<noteq> [])
         else if original \<noteq> [] then
           (case user_by_username c original of None \<Rightarrow> ([], False) | Some u \<Rightarrow> (us_password_sha256 u, us_must_change u))
         else ([], False))"

definition form_user :: "'k app_env \<Rightarrow> config \<Rightarrow> (string \<Rightarrow> string list) \<Rightarrow> user" where
  "form_user env c f =
     (let username = form_get f ''username''; original = form_get f ''original_username'';
          (hash, must) = form_password env c f;
          u = (case user_by_username c (if original \<noteq> [] then original else username) of None \<Rightarrow> zero_user | Some u \<Rightarrow> u)
      in u\<lparr>us_username := username, us_password_sha256 := hash, us_role := form_get f ''role'', us_must_change := must,
           us_locations := filter (\<lambda>i. i \<noteq> []) (map trim_space (f ''locations''))\<rparr>)"

definition user_edit :: "go_env \<Rightarrow> config \<Rightarrow> string \<Rightarrow> user \<Rightarrow> cfg_error + config" where
  "user_edit e c original u =
     (case with_user e c u of
        Inl err \<Rightarrow> Inl err
      | Inr c' \<Rightarrow> if original \<noteq> [] \<and> \<not> equal_fold original (us_username u)
                 then (case without_user e c' original of Inr c'' \<Rightarrow> Inr c'' | Inl err \<Rightarrow> Inr c')
                 else Inr c')"

definition handle_admin_save_user :: "'k app_env \<Rightarrow> (admin_data, ('k, 'x) core_scheme) handler" where
  "handle_admin_save_user env rq = with_form (\<lambda>f s.
     admin_tail ''access'' ''access'' ''access'' []
       (save_edit env (rq_now rq) True
          (user_edit (ae_go env) (co_cfg s) (form_get f ''original_username'') (form_user env (co_cfg s) f)) s)) rq"

definition handle_admin_delete_user :: "'k app_env \<Rightarrow> (admin_data, ('k, 'x) server_scheme) handler" where
  "handle_admin_delete_user env rq = with_form (\<lambda>f s.
     let username = form_get f ''username''; (x, s) = current_session env admin_ui rq s
     in if (case x of None \<Rightarrow> False | Some x \<Rightarrow> equal_fold (sn_username x) username)
        then (admin_error (Lit (''you can'' @ [CHR 0x27] @ ''t revoke your own account'')) ''access'', s)
        else admin_tail ''access'' ''access'' ''access'' []
               (save_edit env (rq_now rq) True (without_user (ae_go env) (co_cfg s) username) s)) rq"

section \<open>Locations\<close>

definition save_locations_cfg ::
  "'k app_env \<Rightarrow> request \<Rightarrow> string \<Rightarrow> cfg_error + config \<Rightarrow> ('k, 'x) core_scheme \<Rightarrow> admin_data web \<times> ('k, 'x) core_scheme" where
  "save_locations_cfg env rq what res s =
     (case save_edit env (rq_now rq) True res s of
        (Refused err, s) \<Rightarrow> (admin_error (WithDetail (''Couldn'' @ [CHR 0x27] @ ''t '' @ what @ ''.'') (ConfigMsg err)) ''locations'', s)
      | (NotSaved err, s) \<Rightarrow> (admin_error (SaveMsg err) ''locations'', s)
      | (Saved, s) \<Rightarrow> (redirect (Target ''/admin'' [(''saved'', Lit ''locations'')] ''locations''), s))"

definition handle_admin_save_location :: "'k app_env \<Rightarrow> (admin_data, ('k, 'x) core_scheme) handler" where
  "handle_admin_save_location env rq = with_form (\<lambda>f s.
     let field = (\<lambda>k. trim_space (form_get f k))
     in save_locations_cfg env rq ''save that location'' (with_location (ae_go env) (co_cfg s)
          \<lparr>lo_id = field ''id'', lo_name = field ''name'', lo_lark_user_email = field ''lark_user_email'',
           lo_lark_chat_id = field ''lark_chat_id'', lo_delivery = field ''delivery''\<rparr>) s) rq"

definition handle_admin_delete_location :: "'k app_env \<Rightarrow> (admin_data, ('k, 'x) core_scheme) handler" where
  "handle_admin_delete_location env rq = with_form (\<lambda>f s.
     save_locations_cfg env rq ''remove that location'' (without_location (ae_go env) (co_cfg s) (form_get f ''id'')) s) rq"

definition handle_admin_default_location :: "'k app_env \<Rightarrow> (admin_data, ('k, 'x) core_scheme) handler" where
  "handle_admin_default_location env rq = with_form (\<lambda>f s.
     save_locations_cfg env rq ''change the default location'' (with_default_location (ae_go env) (co_cfg s) (form_get f ''id'')) s) rq"

text \<open>A test message: Lark's answer through the parameter \<open>send\<close>, which gets the app's configuration, the
  kind of target, the target of the saved location and the message. The target never comes from the form.\<close>

type_synonym 's lark_test = "lark_app_config \<Rightarrow> string \<Rightarrow> string \<Rightarrow> message \<Rightarrow> 's \<Rightarrow> string option \<times> 's"

definition test_location ::
  "'k app_env \<Rightarrow> ('k, 'x) server_scheme lark_test \<Rightarrow> string \<Rightarrow> (location \<Rightarrow> string) \<Rightarrow> string \<Rightarrow> (location \<Rightarrow> string \<Rightarrow> string) \<Rightarrow> string
     \<Rightarrow> (location \<Rightarrow> string \<times> string) \<Rightarrow> (admin_data, ('k, 'x) server_scheme) handler" where
  "test_location env send kind target_of missing body failed done rq = with_form (\<lambda>f s.
     let c = co_cfg s; lk = al_lark_app (cf_alerts c)
     in case location_by_id c (form_get f ''id'') of
          None \<Rightarrow> (answer_web (HttpError 400), s)
        | Some l \<Rightarrow>
            if target_of l = [] then (admin_error (Lit (lo_name l @ missing)) ''locations'', s)
            else if lk_app_id lk = [] \<or> lk_app_secret lk = []
            then (admin_error (Lit (''Can'' @ [CHR 0x27] @ ''t send Lark messages yet: the Lark app secret (LARK_APP_SECRET) isn'' @ [CHR 0x27]
                    @ ''t set on the server.'')) ''locations'', s)
            else let (user, s) = session_username env admin_ui rq s
                 in case send lk kind (target_of l) (bare_message (bell @ '' Test from the meeting-display broker'') (body l user)) s of
                      (Some err, s) \<Rightarrow> (admin_error (WithDetail failed (Lit err)) ''locations'', s)
                    | (None, s) \<Rightarrow> (redirect (Target ''/admin'' [(''saved'', Lit ''locations''), (fst (done l), Lit (snd (done l)))] ''locations''), s)) rq"

definition handle_admin_test_dm ::
  "'k app_env \<Rightarrow> ('k, 'x) server_scheme lark_test \<Rightarrow> (admin_data, ('k, 'x) server_scheme) handler" where
  "handle_admin_test_dm env send rq = test_location env send ''email'' lo_lark_user_email '' has no person to message.''
     (\<lambda>l user. ''Hi '' @ em_dash @ '' you'' @ [CHR 0x27] @ ''re the contact for '' @ lo_name l @ [CHR 0x27]
        @ ''s meeting-room displays. You'' @ [CHR 0x27] @ ''ll get a message here if one runs low on battery or stops checking in. (Test sent by ''
        @ user @ '' at '' @ hm_utc (rq_now rq) @ ''.)'')
     (''The test DM didn'' @ [CHR 0x27] @ ''t go through.'') (\<lambda>l. (''dm'', lo_lark_user_email l)) rq"

definition handle_admin_test_group ::
  "'k app_env \<Rightarrow> ('k, 'x) server_scheme lark_test \<Rightarrow> (admin_data, ('k, 'x) server_scheme) handler" where
  "handle_admin_test_group env send rq = test_location env send ''chat_id'' lo_lark_chat_id '' has no group chat ID.''
     (\<lambda>l user. ''This group receives alerts for '' @ lo_name l @ [CHR 0x27]
        @ ''s meeting-room displays (low battery, offline). (Test sent by '' @ user @ '' at '' @ hm_utc (rq_now rq) @ ''.)'')
     (''The test message didn'' @ [CHR 0x27] @ ''t go through.'') (\<lambda>l. (''group'', lo_name l)) rq"

section \<open>The manager's page\<close>

record manager_row =
  mr_device :: device
  mr_wake_mode :: string
  mr_flat_interval :: u32

record manager_data =
  md_rows :: "manager_row list"
  md_saved_room :: string
  md_error :: string
  md_strip :: strip

definition manager_row_of :: "config \<Rightarrow> device \<Rightarrow> manager_row" where
  "manager_row_of c d =
     (let r = (case room_by_device_id c (dv_device_id d) of None \<Rightarrow> zero_room | Some r \<Rightarrow> r);
          fleet = (if wk_mode (cf_wake c) = [] then ''flat'' else wk_mode (cf_wake c))
      in \<lparr>mr_device = d,
          mr_wake_mode = (case rm_wake_mode r of None \<Rightarrow> fleet | Some m \<Rightarrow> if m = [] then fleet else m),
          mr_flat_interval = (case rm_flat_interval r of None \<Rightarrow> 0 | Some n \<Rightarrow> n)\<rparr>)"

definition manager_error :: "string \<Rightarrow> string \<Rightarrow> string" where
  "manager_error code m =
     (if code = ''invalid_interval'' then
        ''Enter a whole number of seconds, 60 or more, for Simple mode (or leave it blank to follow the fleet default) ''
          @ em_dash @ '' that value didn'' @ [CHR 0x27] @ ''t save.''
      else if code = ''rejected'' then
        ''That change didn'' @ [CHR 0x27] @ ''t save. Try again, or ask IT if it keeps failing.''
      else if code = ''persist'' then m else [])"

definition handle_manager_page :: "'k app_env \<Rightarrow> (manager_data, ('k, 'x) server_scheme) handler" where
  "handle_manager_page env rq s =
     (let c = co_cfg s; devices = build c (sv_tlm s) (rq_now rq);
          (acct, s) = session_account env manager_ui rq s
      in (answer_web (Page
            \<lparr>md_rows = map (manager_row_of c) (filter (\<lambda>d. room_visible (co_cfg s) acct (dv_device_id d)) devices),
             md_saved_room = rq_query rq ''saved'', md_error = manager_error (rq_query rq ''error'') (rq_query rq ''msg''),
             md_strip = persist_strip (co_pstate s)\<rparr>), s))"

text \<open>The override that the form asks for; \<open>None\<close> when its interval is no number or below a minute.\<close>

definition form_override :: "config \<Rightarrow> string \<Rightarrow> string \<Rightarrow> (string option \<times> u32 option) option" where
  "form_override c mode interval =
     (if mode \<noteq> ''flat'' then Some (Some mode, None)
      else if trim_space interval \<in> {[], ''0''}
      then Some (if wk_mode (cf_wake c) \<in> {[], ''flat''} then None else Some mode, None)
      else case parse_uint (2 ^ 32 - 1) (trim_space interval) of
             Inl e \<Rightarrow> None
           | Inr n \<Rightarrow> if n < 60 then None else Some (Some mode, Some (of_nat n)))"

definition handle_manager_save_wake :: "'k app_env \<Rightarrow> (manager_data, ('k, 'x) server_scheme) handler" where
  "handle_manager_save_wake env rq = with_form (\<lambda>f s.
     let d = form_get f ''device_id''; (acct, s) = session_account env manager_ui rq s; c = co_cfg s
     in if \<not> room_visible c acct d then (answer_web (HttpError 403), s)
        else case form_override c (form_get f ''wake_mode'') (form_get f ''interval_seconds'') of
          None \<Rightarrow> (redirect (Target ''/manager'' [(''error'', Lit ''invalid_interval'')] []), s)
        | Some (mode, interval) \<Rightarrow>
            (case save_edit env (rq_now rq) False (with_room_wake_override (ae_go env) c d mode interval) s of
               (Refused err, s) \<Rightarrow> (redirect (Target ''/manager'' [(''error'', Lit ''rejected'')] []), s)
             | (NotSaved err, s) \<Rightarrow> (redirect (Target ''/manager'' [(''error'', Lit ''persist''), (''msg'', SaveMsg err)] []), s)
             | (Saved, s) \<Rightarrow> (redirect (Target ''/manager'' [(''saved'', Lit d)] []), s))) rq"

section \<open>What the handlers keep\<close>

lemma map_upsert_same:
  assumes "find_first P xs = Some r" "f r' = f r"
  shows "map f (upsert P r' xs) = map f xs"
proof -
  from find_first_split [OF assms(1)] obtain as bs where xs: "xs = as @ r # bs" "P r" "\<forall>a \<in> set as. \<not> P a" by blast
  have "replace_first P r' (as @ r # bs) = Some (as @ r' # bs)"
    using xs(2,3) by (induction as) auto
  then show ?thesis using assms(2) by (simp add: upsert_def xs(1))
qed

text \<open>The caches read no more of a room than its identifier, its name and its token.\<close>

lemma refresh_derived_rooms:
  assumes "map (\<lambda>r. (rm_device_id r, rm_name r, rm_token_sha256 r)) (cf_rooms c)
      = map (\<lambda>r. (rm_device_id r, rm_name r, rm_token_sha256 r)) (cf_rooms c')"
    and "cf_users c = cf_users c'"
  shows "refresh_derived c = refresh_derived c'"
proof -
  let ?k = "\<lambda>r. (rm_device_id r, rm_name r, rm_token_sha256 r)"
  have names: "device_names c = foldl (\<lambda>m (d, n, t). m(d \<mapsto> n)) Map.empty (map ?k (cf_rooms c))" for c
    by (simp add: device_names_def foldl_map)
  have auth: "new_device_auth c = foldl (\<lambda>m (d, n, t). case decode_hash t of Some b \<Rightarrow> m(d \<mapsto> b) | None \<Rightarrow> m)
      Map.empty (map ?k (cf_rooms c))" for c
    by (simp add: new_device_auth_def foldl_map)
  show ?thesis unfolding refresh_derived_def names auth assms ..
qed

lemma wake_override_fresh:
  "with_room_wake_override e c d mode iv = Inr c' \<Longrightarrow> refresh_derived c' = refresh_derived c"
  by (auto simp: with_room_wake_override_def checked_Inr room_by_device_id_def split: option.splits
      intro!: refresh_derived_rooms map_upsert_same)

lemma rename_room_well_formed: "rename_room e c original r = Inr c' \<Longrightarrow> well_formed e c'"
  by (auto simp: rename_room_def with_room_def without_room_def checked_Inr split: sum.splits if_splits)

lemma user_edit_well_formed: "user_edit e c original u = Inr c' \<Longrightarrow> well_formed e c'"
  by (auto simp: user_edit_def with_user_def without_user_def checked_Inr split: sum.splits if_splits)

lemma with_edit_frames:
  "with_wake e c w = Inr c' \<Longrightarrow> cf_rooms c' = cf_rooms c \<and> cf_users c' = cf_users c"
  "with_firmware e c fw = Inr c' \<Longrightarrow> cf_rooms c' = cf_rooms c \<and> cf_users c' = cf_users c"
  "with_fleet_wifi_ssid e c ssid = Inr c' \<Longrightarrow> cf_rooms c' = cf_rooms c \<and> cf_users c' = cf_users c"
  by (simp_all add: with_wake_def with_firmware_def with_fleet_wifi_ssid_def checked_Inr)

lemma save_wake_defaults_quiet: "quiet_step env s (snd (handle_admin_save_wake_defaults env rq s))"
  unfolding handle_admin_save_wake_defaults_def
  by (rule quiet_with_form) (auto intro!: quiet_save dest: edit_valid(4) with_edit_frames simp: sound_def)

lemma save_alerts_quiet: "quiet_step env s (snd (handle_admin_save_alerts env pd rq s))"
  unfolding handle_admin_save_alerts_def
  by (rule quiet_with_form) (auto intro!: quiet_save dest: edit_valid(5) with_alerts_frame simp: sound_def)

lemma save_firmware_quiet: "quiet_step env s (snd (handle_admin_save_firmware env rq s))"
  unfolding handle_admin_save_firmware_def
  by (rule quiet_with_form) (auto intro!: quiet_save dest: edit_valid(6) with_edit_frames simp: sound_def)

lemma save_fleet_wifi_quiet: "quiet_step env s (snd (handle_admin_save_fleet_wifi env rq s))"
  unfolding handle_admin_save_fleet_wifi_def
  by (rule quiet_with_form) (auto intro!: quiet_save dest: edit_valid(7) with_edit_frames simp: sound_def)

lemma save_room_quiet: "quiet_step env s (snd (handle_admin_save_room env probe rq s))"
  unfolding handle_admin_save_room_def Let_def
  by (rule quiet_with_form) (auto intro!: quiet_save dest: rename_room_well_formed split: option.split)

lemma delete_room_quiet: "quiet_step env s (snd (handle_admin_delete_room env rq s))"
  unfolding handle_admin_delete_room_def
  by (rule quiet_with_form) (auto intro!: quiet_save dest: edit_valid(2) simp: sound_def)

lemma save_user_quiet: "quiet_step env s (snd (handle_admin_save_user env rq s))"
  unfolding handle_admin_save_user_def
  by (rule quiet_with_form) (auto intro!: quiet_save dest: user_edit_well_formed)

lemma quiet_current_session: "quiet_step env s (snd (current_session env ui rq s))"
  by (auto simp: current_session_eq split: option.split)

lemma delete_user_quiet: "quiet_step env s (snd (handle_admin_delete_user env rq s))"
  unfolding handle_admin_delete_user_def Let_def split_def
  by (rule quiet_with_form)
    (auto intro!: quiet_trans [OF quiet_current_session quiet_save] quiet_current_session dest: edit_valid(9) simp: sound_def)

lemma save_locations_quiet:
  "(\<And>c. res = Inr c \<Longrightarrow> well_formed (ae_go env) c) \<Longrightarrow> quiet_step env s (snd (save_locations_cfg env rq what res s))"
  unfolding save_locations_cfg_def by (rule quiet_outcome) (auto intro!: quiet_save)

lemma location_handlers_quiet:
  "quiet_step env s (snd (handle_admin_save_location env rq s))"
  "quiet_step env s (snd (handle_admin_delete_location env rq s))"
  "quiet_step env s (snd (handle_admin_default_location env rq s))"
  unfolding handle_admin_save_location_def handle_admin_delete_location_def handle_admin_default_location_def Let_def
  by (rule quiet_with_form; rule save_locations_quiet; auto dest: edit_valid(11,12,13))+

lemma quiet_answered:
  "quiet_step env s (snd r) \<Longrightarrow> quiet_step env s (snd (case r of (Some e, s) \<Rightarrow> (w1 e, s) | (None, s) \<Rightarrow> (w2, s)))"
  by (cases r) (auto split: option.split)

lemma test_location_quiet:
  assumes "\<And>lk k t m s. quiet_step env s (snd (send lk k t m s))"
  shows "quiet_step env s (snd (test_location env send kind tg missing body failed done rq s))"
  unfolding test_location_def Let_def session_username_eq prod.case
  by (rule quiet_with_form) (auto split: option.split intro!: quiet_answered quiet_trans [OF quiet_look_up assms])

lemma handle_test_notification_quiet:
  assumes "\<And>subs n m s. quiet_step env s (snd (deliver subs n m s))"
  shows "quiet_step env s (snd (handle_admin_test_notification env cr err_text deliver rq s))"
  unfolding handle_admin_test_notification_def Let_def session_username_eq prod.case
  by (rule quiet_with_form)
    (auto split: option.split sum.split intro!: quiet_answered quiet_trans [OF quiet_look_up assms])

lemma admin_page_quiet: "quiet_step env s (snd (handle_admin_page env rq s))"
  by (auto simp: handle_admin_page_def reveal_reset_def Let_def split_def intro!: quiet_intros web_fields_quiet)

lemma manager_page_quiet: "quiet_step env s (snd (handle_manager_page env rq s))"
  by (simp add: handle_manager_page_def session_account_eq Let_def)

lemma manager_save_quiet: "quiet_step env s (snd (handle_manager_save_wake env rq s))"
  unfolding handle_manager_save_wake_def Let_def session_account_eq prod.case
  by (rule quiet_with_form)
    (auto intro!: quiet_trans [OF quiet_look_up quiet_outcome] quiet_save_fresh dest: edit_valid(3) wake_override_fresh
      simp: sound_def split: option.split)

section \<open>What an edit keeps\<close>

lemma admin_error_not_saved [simp]:
  "admin_error m a \<noteq> redirect (Target p [(''saved'', m')] b)" "redirect (Target p [(''saved'', m')] b) \<noteq> admin_error m a"
  by (simp_all add: admin_error_def redirect_def answer_web_def)

lemma saved_admin_tail:
  assumes "admin_tail a b flash anchor (save_edit env now refresh res s) = (redirect (Target ''/admin'' [(''saved'', m)] anchor'), s')"
  obtains c where "res = Inr c" "co_cfg s' = c" "core.more s' = core.more s"
proof (cases "save_edit env now refresh res s")
  case (Pair o' s'')
  from assms Pair have o': "o' = Saved" and s': "s'' = s'"
    by (auto simp: admin_tail_def split: outcome.splits)
  from save_edit_saved [of env now refresh res s s'] Pair o' s' obtain c where
    "res = Inr c" "apply_config env now c refresh s = (None, s')" by blast
  moreover from this(2) have "co_cfg s' = c" using apply_config_None by blast
  moreover have "core.more s' = core.more s" using save_edit_frame Pair s' by blast
  ultimately show ?thesis using that by blast
qed

lemma rename_room_result:
  assumes "rename_room e c original r = Inr c'"
  shows "room_by_device_id c' (rm_device_id r) = Some r"
    and "d \<noteq> rm_device_id r \<Longrightarrow> d \<noteq> original \<Longrightarrow> room_by_device_id c' d = room_by_device_id c d"
proof -
  let ?u = "upsert (\<lambda>x. rm_device_id x = rm_device_id r) r (cf_rooms c)"
  have rooms: "cf_rooms c' = ?u \<or> original \<noteq> rm_device_id r \<and> cf_rooms c' = filter (\<lambda>x. rm_device_id x \<noteq> original) ?u"
    using assms by (auto simp: rename_room_def with_room_def without_room_def checked_Inr split: sum.splits if_splits)
  have same: "find_first (\<lambda>x. rm_device_id x = d) (filter (\<lambda>x. rm_device_id x \<noteq> original) xs)
      = find_first (\<lambda>x. rm_device_id x = d) xs" if "d \<noteq> original" for d xs
    using that by (induction xs) auto
  show "room_by_device_id c' (rm_device_id r) = Some r"
    using rooms find_first_upsert_same [of "\<lambda>x. rm_device_id x = rm_device_id r" r "cf_rooms c"]
    by (auto simp: room_by_device_id_def same)
  assume d: "d \<noteq> rm_device_id r" "d \<noteq> original"
  have "find_first (\<lambda>x. rm_device_id x = d) ?u = find_first (\<lambda>x. rm_device_id x = d) (cf_rooms c)"
    using d(1) by (intro find_first_upsert_other) auto
  then show "room_by_device_id c' d = room_by_device_id c d"
    using rooms d(2) by (auto simp: room_by_device_id_def same)
qed

text \<open>An edit of a room that says nothing of its token, wake override, label or location keeps all
  four, whether or not the device is given a new identifier; only the name and the calendar address
  are the form's, and every other panel is as it was.\<close>

lemma room_edit_keeps:
  assumes "handle_admin_save_room env probe rq s = (redirect (Target ''/admin'' [(''saved'', m)] []), s')"
    and "rq_form rq = Some f" "existing_room (co_cfg s) f = Some r"
    and "form_get f ''token'' = []" "form_get f ''token_sha256'' = []" "form_get f ''wake_mode_override'' \<notin> {''default'', ''smart'', ''flat''}"
    and "form_get f ''wake_flat_interval_seconds'' = []" "form_get f ''label'' = []" "f ''location'' = []"
  shows "room_by_device_id (co_cfg s') (form_get f ''device_id'')
      = Some (r\<lparr>rm_device_id := form_get f ''device_id'', rm_name := form_get f ''name'', rm_room := form_get f ''room''\<rparr>)
    \<and> (\<forall>d. d \<notin> {form_get f ''device_id'', form_get f ''original_device_id''} \<longrightarrow>
         room_by_device_id (co_cfg s') d = room_by_device_id (co_cfg s) d)"
proof -
  let ?r = "r\<lparr>rm_device_id := form_get f ''device_id'', rm_name := form_get f ''name'', rm_room := form_get f ''room''\<rparr>"
  have hash: "token_hash env f (Some r) = Some (rm_token_sha256 r)" using assms(4,5) by (simp add: token_hash_def)
  have room: "form_room f (Some r) (rm_token_sha256 r) = ?r"
    using assms(6-9) by (cases r) (simp add: form_room_def form_wake_mode_def)
  from assms(1-3) have "admin_tail ''rooms'' ''rooms'' ''rooms'' [] (save_edit env (rq_now rq) True
      (rename_room (ae_go env) (co_cfg s) (form_get f ''original_device_id'') ?r) s) = (redirect (Target ''/admin'' [(''saved'', m)] []) :: admin_data web, s')"
    by (auto simp: handle_admin_save_room_def with_form_def hash room Let_def
        split: option.splits if_splits)
  then obtain c where "rename_room (ae_go env) (co_cfg s) (form_get f ''original_device_id'') ?r = Inr c" "co_cfg s' = c"
    by (rule saved_admin_tail)
  then show ?thesis using rename_room_result [of "ae_go env" "co_cfg s" "form_get f ''original_device_id''" ?r c] by simp
qed

text \<open>An edit of an account keeps its second factor and its recovery address; a blank password keeps the
  password and the duty to change it.\<close>

lemma form_user_keeps:
  assumes "user_by_username c original = Some u" "form_get f ''original_username'' = original" "original \<noteq> []"
  shows "us_totp_secret (form_user env c f) = us_totp_secret u" "us_email (form_user env c f) = us_email u"
    and "form_get f ''password'' = [] \<Longrightarrow>
      us_password_sha256 (form_user env c f) = us_password_sha256 u \<and> us_must_change (form_user env c f) = us_must_change u"
  using assms by (simp_all add: form_user_def form_password_def split_def Let_def)

section \<open>Renaming the last administrator\<close>

text \<open>An edit that renames the only administrator and takes the role away reports success and leaves
  the old account as it was, administrator and password included, next to the new one: the removal
  of the old entry is refused and its error is dropped.\<close>

lemma rename_keeps_last_admin:
  assumes "well_formed (ae_go env) (co_cfg s)" "rq_form rq = Some f"
    and "user_by_username (co_cfg s) (form_get f ''original_username'') = Some u" "form_get f ''original_username'' \<noteq> []"
    and "\<forall>v \<in> set (cf_users (co_cfg s)). us_role v = ''admin'' \<longrightarrow> equal_fold (us_username v) (form_get f ''original_username'')"
    and "form_get f ''role'' \<noteq> ''admin''" "\<not> equal_fold (form_get f ''original_username'') (form_get f ''username'')"
    and "handle_admin_save_user env rq s = (redirect (Target ''/admin'' [(''saved'', m)] []), s')"
  shows "user_by_username (co_cfg s') (form_get f ''original_username'') = Some u
    \<and> user_by_username (co_cfg s') (form_get f ''username'') = Some (form_user env (co_cfg s) f)"
proof -
  let ?o = "form_get f ''original_username''" and ?n = "form_get f ''username''" and ?v = "form_user env (co_cfg s) f"
  let ?us = "upsert (\<lambda>u. equal_fold (us_username u) (us_username ?v)) ?v (cf_users (co_cfg s))"
  have v: "us_username ?v = ?n" "us_role ?v = form_get f ''role''" by (simp_all add: form_user_def split_def Let_def)
  from assms(2,8) obtain c where c: "user_edit (ae_go env) (co_cfg s) ?o ?v = Inr c" "co_cfg s' = c"
    unfolding handle_admin_save_user_def with_form_def by (auto elim: saved_admin_tail)
  from c(1) obtain c1 where c1: "with_user (ae_go env) (co_cfg s) ?v = Inr c1" by (auto simp: user_edit_def split: sum.splits)
  then have users: "cf_users c1 = ?us" "well_formed (ae_go env) c1" by (auto simp: with_user_def checked_Inr)
  have "without_user (ae_go env) c1 ?o = Inl (UserErr NoAdmin)"
  proof (rule last_admin_stays [OF users(2), of ?v])
    show "?v \<in> set (cf_users c1)" by (simp add: users upsert_mem)
    show "\<not> equal_fold (us_username ?v) ?o" using assms(7) v by (auto dest: equal_fold_sym)
    show "\<forall>w \<in> set (cf_users c1). us_role w = ''admin'' \<longrightarrow> equal_fold (us_username w) ?o"
      using upsert_sub [of "\<lambda>u. equal_fold (us_username u) (us_username ?v)" ?v "cf_users (co_cfg s)"] assms(5,6) v
      by (auto simp: users)
  qed
  then have "c = c1" using c(1) c1 assms(4,7) v by (simp add: user_edit_def)
  moreover have "user_by_username c1 ?n = Some ?v"
    using find_first_upsert_same [of "\<lambda>u. equal_fold (us_username u) ?n" ?v "cf_users (co_cfg s)"] v
    by (simp add: user_by_username_def users)
  moreover have "user_by_username c1 ?o = user_by_username (co_cfg s) ?o"
    unfolding user_by_username_def users v(1)
    by (rule find_first_upsert_other) (use assms(7) v in \<open>auto dest: equal_fold_sym equal_fold_trans\<close>)
  ultimately show ?thesis using c(2) assms(3) by simp
qed

section \<open>What a removal does not end\<close>

text \<open>C24. Removing an account ends none of its sessions: as long as the token lives, the gate of every door
  its role satisfies lets it through to every page, and asks for no second factor any more.\<close>

theorem removed_account_keeps_session:
  assumes "handle_admin_delete_user env rq s = (redirect (Target ''/admin'' [(''saved'', m)] []), s')"
    and "rq_form rq = Some f" "session_of env admin_ui rq s = Some y"
    and "rq_cookie rq' (ui_cookie ui) = Some t" "alive (ae_sha env) (sv_sessions s) (rq_now rq') t = Some x"
    and "equal_fold (sn_username x) (form_get f ''username'')" "satisfies (sn_role x) (ui_role ui)"
    and "\<not> sf_must_change (sn_flags x)" "\<not> sf_pending_2fa (sn_flags x)"
  shows "user_by_username (co_cfg s') (sn_username x) = None \<and> require_role env ui h rq' s' = h rq' s'"
proof -
  let ?n = "form_get f ''username''"
  have sess: "current_session env admin_ui rq s = (if satisfies (sn_role y) (ui_role admin_ui) then Some y else None, s)"
    using assms(3) by (simp add: current_session_eq)
  with assms(1,2) have "admin_tail ''access'' ''access'' ''access'' [] (save_edit env (rq_now rq) True
      (without_user (ae_go env) (co_cfg s) ?n) s) = (redirect (Target ''/admin'' [(''saved'', m)] []) :: admin_data web, s')"
    by (auto simp: handle_admin_delete_user_def with_form_def Let_def split: if_splits)
  then obtain c where c: "without_user (ae_go env) (co_cfg s) ?n = Inr c" "co_cfg s' = c" "core.more s' = core.more s"
    by (rule saved_admin_tail)
  have none: "user_by_username (co_cfg s') (sn_username x) = None"
  proof -
    have "\<not> equal_fold (us_username u) (sn_username x)" if "u \<in> set (cf_users c)" for u
      using that c(1) equal_fold_trans [OF _ assms(6)] by (auto simp: without_user_def checked_Inr)
    then show ?thesis by (simp add: user_by_username_def c(2))
  qed
  have "sv_sessions s' = sv_sessions s" by (rule more_server(4) [OF c(3)])
  then have "session_of env ui rq' s' = Some x" using assms(4,5) by (simp add: session_of_def)
  moreover have "admitted (co_cfg s') ui (rq_path rq') x"
    using assms(7-9) none by (simp add: admitted_def needs_2fa_enrollment_def)
  ultimately show ?thesis using none by (auto intro: require_role_passes)
qed

section \<open>What a manager can change\<close>

text \<open>A manager's save changes at most one thing: the wake override of one panel that the signed-in
  account may see; its new interval is at least a minute, as typed.\<close>

lemma manager_changes_one_override:
  "let s' = snd (handle_manager_save_wake env rq s) in co_cfg s' = co_cfg s \<or>
    (\<exists>r mode iv. room_by_device_id (co_cfg s) (rm_device_id r) = Some r
       \<and> room_visible (co_cfg s) (fst (session_account env manager_ui rq s)) (rm_device_id r)
       \<and> (case iv of None \<Rightarrow> True | Some n \<Rightarrow> 60 \<le> n)
       \<and> co_cfg s' = (co_cfg s)\<lparr>cf_rooms := upsert (\<lambda>x. rm_device_id x = rm_device_id r)
           (r\<lparr>rm_wake_mode := mode, rm_flat_interval := iv\<rparr>) (cf_rooms (co_cfg s))\<rparr>)"
proof -
  obtain w s' where h: "handle_manager_save_wake env rq s = (w, s')" by fastforce
  let ?s = "snd (look_up env manager_ui rq s)" and ?acct = "fst (session_account env manager_ui rq s)"
  have low: "60 \<le> n" if "form_override c md i = Some (mode, Some n)" for c md i mode n
  proof -
    from that obtain k where k: "parse_uint (2 ^ 32 - 1) (trim_space i) = Inr k" "60 \<le> k" "n = of_nat k"
      by (auto simp: form_override_def split: if_splits sum.splits)
    then have "k \<le> 2 ^ 32 - 1" by (auto simp: parse_uint_def dest: parse_digits_bound split: if_splits)
    then show ?thesis using k by (simp add: word_le_nat_alt unat_of_nat)
  qed
  show ?thesis
  proof (cases "co_cfg s' = co_cfg s")
    case True
    then show ?thesis by (simp add: h)
  next
    case False
    obtain f d mode iv o' where f: "rq_form rq = Some f" "d = form_get f ''device_id''"
        "room_visible (co_cfg s) ?acct d"
        "form_override (co_cfg s) (form_get f ''wake_mode'') (form_get f ''interval_seconds'') = Some (mode, iv)"
        "save_edit env (rq_now rq) False (with_room_wake_override (ae_go env) (co_cfg s) d mode iv) ?s = (o', s')"
      using h False
      by (auto simp: handle_manager_save_wake_def with_form_def Let_def session_account_eq
          split: option.splits if_splits prod.splits outcome.splits)
    have "o' = Saved"
      using f(5) False by (auto simp: save_edit_def split: sum.splits prod.splits option.splits dest: apply_config_Some)
    with save_edit_saved f(5) obtain c where
      c: "with_room_wake_override (ae_go env) (co_cfg s) d mode iv = Inr c" "apply_config env (rq_now rq) c False ?s = (None, s')"
      by blast
    from c(1) obtain r where r: "room_by_device_id (co_cfg s) d = Some r"
      "c = (co_cfg s)\<lparr>cf_rooms := upsert (\<lambda>x. rm_device_id x = d) (r\<lparr>rm_wake_mode := mode, rm_flat_interval := iv\<rparr>) (cf_rooms (co_cfg s))\<rparr>"
      by (auto simp: with_room_wake_override_def checked_Inr split: option.splits)
    have d: "rm_device_id r = d" using room_by_device_id_SomeD [OF r(1)] by simp
    have "case iv of None \<Rightarrow> True | Some n \<Rightarrow> 60 \<le> n" using low f(4) by (auto split: option.split)
    moreover have "co_cfg s' = c" using apply_config_None [OF c(2)] by simp
    ultimately show ?thesis using r f(3) unfolding h snd_conv Let_def
      by (intro disjI2 exI [of _ r] exI [of _ mode] exI [of _ iv]) (simp only: d simp_thms)
  qed
qed

section \<open>What the page shows of secrets\<close>

text \<open>The view knows of the stored hashes, second factors and the Wi-Fi key only whether they are set.\<close>

lemma view_hides_secrets:
  assumes "c' = c\<lparr>cf_rooms := map (\<lambda>r. r\<lparr>rm_token_sha256 := f (rm_token_sha256 r)\<rparr>) (cf_rooms c),
      cf_users := map (\<lambda>u. u\<lparr>us_password_sha256 := g (us_password_sha256 u), us_totp_secret := f (us_totp_secret u)\<rparr>) (cf_users c),
      cf_fleet := (cf_fleet c)\<lparr>fl_wifi_psk := f (fl_wifi_psk (cf_fleet c))\<rparr>\<rparr>"
    and "\<And>x. f x = [] \<longleftrightarrow> x = []"
  shows "build_view c' = build_view c"
  using assms by (simp add: build_view_def location_of_def location_by_id_def comp_def)

section \<open>Applied\<close>

definition page_env :: "unit app_env" where
  "page_env = (sample_app_env (\<lambda>n st. None))\<lparr>ae_store := NoneStore\<rparr>"

lemma page_env_go [simp]: "ae_go page_env = sample_env"
  by (simp add: page_env_def sample_app_env_def)

lemma page_env_saves:
  "save_edit page_env now refresh (Inr c) s = (Saved, swap_in page_env now c refresh s)"
  by (simp add: save_edit_def apply_config_def page_env_def store_durable_def swap_in_def Let_def)

lemma checked_wf: "well_formed e c \<Longrightarrow> checked e c = Inr c"
  by (simp add: checked_Inr)

lemmas fold_eval = equal_fold_def to_lower_def char_lower_def char_of_def bit_0 bit_Suc

definition page_form :: "(string \<times> string) list \<Rightarrow> string \<Rightarrow> string list" where
  "page_form kvs k = (case map_of kvs k of None \<Rightarrow> [] | Some v \<Rightarrow> [v])"

lemma form_get_page_form [simp]: "form_get (page_form kvs) k = (case map_of kvs k of None \<Rightarrow> [] | Some v \<Rightarrow> v)"
  by (simp add: form_get_def page_form_def split: option.split)

definition lobby_form :: "string \<Rightarrow> string list" where
  "lobby_form = page_form [(''device_id'', ''d3''), (''original_device_id'', ''d3''), (''name'', ''Lobby''), (''room'', ''b@x.io'')]"

lemma lobby_saved:
  "handle_admin_save_room page_env None (sample_request lobby_form 0) sample_server
     = (redirect (Target ''/admin'' [(''saved'', Lit ''rooms'')] []), swap_in page_env 0
         (sample_config\<lparr>cf_rooms := [sample_room ''d1'' ''a@x.io'' ''sf'' ''Door'', sample_room ''d2'' ''A@x.io'' ''sf'' ''Wall'',
            (sample_room ''d3'' ''b@x.io'' [] [])\<lparr>rm_name := ''Lobby''\<rparr>]\<rparr>) True sample_server)"
proof -
  let ?r = "(sample_room ''d3'' ''b@x.io'' [] [])\<lparr>rm_name := ''Lobby''\<rparr>"
  let ?c = "sample_config\<lparr>cf_rooms := [sample_room ''d1'' ''a@x.io'' ''sf'' ''Door'', sample_room ''d2'' ''A@x.io'' ''sf'' ''Wall'', ?r]\<rparr>"
  have wf: "well_formed sample_env ?c"
    unfolding well_formed_def
    by (intro conjI; simp add: sample_config_def; simp add: contract_defs sample_env_def Let_def)
  have ex: "existing_room sample_config lobby_form = Some (sample_room ''d3'' ''b@x.io'' [] [])"
    by (simp add: existing_room_def lobby_form_def room_by_device_id_def sample_config_def)
  have hash: "token_hash page_env lobby_form (Some (sample_room ''d3'' ''b@x.io'' [] [])) = Some sample_hash"
    by (simp add: token_hash_def lobby_form_def sample_room_def)
  have room: "form_room lobby_form (Some (sample_room ''d3'' ''b@x.io'' [] [])) sample_hash = ?r"
    by (simp add: form_room_def form_wake_mode_def lobby_form_def page_form_def sample_room_def zero_room_def)
  have ren: "rename_room sample_env sample_config ''d3'' ?r = Inr ?c"
    by (simp add: rename_room_def with_room_def upsert_def sample_config_def) (use wf in \<open>simp add: checked_wf sample_config_def\<close>)
  have id: "form_get lobby_form ''original_device_id'' = ''d3''" by (simp add: lobby_form_def)
  show ?thesis
    by (simp add: handle_admin_save_room_def with_form_def Let_def ex hash room id ren page_env_saves admin_tail_def del: form_get_page_form)
qed

definition eve_form :: "string \<Rightarrow> string list" where
  "eve_form = page_form [(''username'', ''eve''), (''original_username'', ''ann''), (''role'', ''viewer'')]"

lemma eve_saved:
  "\<exists>s'. handle_admin_save_user page_env (sample_request eve_form 0) sample_server
     = (redirect (Target ''/admin'' [(''saved'', Lit ''access'')] []), s')"
proof -
  let ?v = "(sample_user ''ann'' ''admin'' [])\<lparr>us_username := ''eve'', us_role := ''viewer''\<rparr>"
  let ?c = "sample_config\<lparr>cf_users := [sample_user ''ann'' ''admin'' [], sample_user ''bob'' ''manager'' [''sf''],
        sample_user ''cy'' ''viewer'' [], ?v]\<rparr>"
  have wf: "well_formed sample_env ?c"
    unfolding well_formed_def
    by (intro conjI; simp add: sample_config_def; simp add: contract_defs sample_env_def Let_def fold_eval)
  have ann: "user_by_username sample_config ''ann'' = Some (sample_user ''ann'' ''admin'' [])"
    by (simp add: user_by_username_def sample_config_def)
  have v: "form_user page_env sample_config eve_form = ?v"
    by (simp add: form_user_def form_password_def eve_form_def ann) (simp add: page_form_def sample_user_def zero_user_def)
  have added: "with_user sample_env sample_config ?v = Inr ?c"
    by (simp add: with_user_def upsert_def sample_config_def fold_eval) (use wf in \<open>simp add: checked_wf sample_config_def\<close>)
  have "\<exists>c. user_edit sample_env sample_config ''ann'' ?v = Inr c"
    by (auto simp: user_edit_def added split: sum.split)
  then obtain c where c: "user_edit sample_env sample_config ''ann'' ?v = Inr c" by blast
  have id: "form_get eve_form ''original_username'' = ''ann''" by (simp add: eve_form_def)
  show ?thesis
    by (simp add: handle_admin_save_user_def with_form_def v id c page_env_saves admin_tail_def del: form_get_page_form)
qed

definition signed_in_server :: "unit server" where
  "signed_in_server = sample_server\<lparr>sv_sessions := create_session (ae_sha page_env) 0 ''bobs'' ''manager'' ''bob''
       \<lparr>sf_must_change = False, sf_pending_2fa = False\<rparr>
     (create_session (ae_sha page_env) 0 ''a'' ''admin'' ''ann'' \<lparr>sf_must_change = False, sf_pending_2fa = False\<rparr>
       (new_session_store (12 * hour)))\<rparr>"

definition with_cookie :: "string \<Rightarrow> string \<Rightarrow> request \<Rightarrow> request" where
  "with_cookie name token rq = rq\<lparr>rq_cookie := [name \<mapsto> token]\<rparr>"

definition bob_form :: "string \<Rightarrow> string list" where
  "bob_form = page_form [(''username'', ''bob'')]"

lemma signed_in:
  "alive (ae_sha page_env) (sv_sessions signed_in_server) 5 ''a''
     = Some \<lparr>sn_role = ''admin'', sn_username = ''ann'', sn_flags = \<lparr>sf_must_change = False, sf_pending_2fa = False\<rparr>\<rparr>"
  "alive (ae_sha page_env) (sv_sessions signed_in_server) 9 ''bobs''
     = Some \<lparr>sn_role = ''manager'', sn_username = ''bob'', sn_flags = \<lparr>sf_must_change = False, sf_pending_2fa = False\<rparr>\<rparr>"
proof -
  have "hex_encode (replicate 32 (1 :: byte)) \<noteq> hex_encode (replicate 32 4)"
    by (rule notI, drule hex_encode_inj) (drule arg_cong [where f = hd], simp)
  then show
    "alive (ae_sha page_env) (sv_sessions signed_in_server) 5 ''a''
       = Some \<lparr>sn_role = ''admin'', sn_username = ''ann'', sn_flags = \<lparr>sf_must_change = False, sf_pending_2fa = False\<rparr>\<rparr>"
    "alive (ae_sha page_env) (sv_sessions signed_in_server) 9 ''bobs''
       = Some \<lparr>sn_role = ''manager'', sn_username = ''bob'', sn_flags = \<lparr>sf_must_change = False, sf_pending_2fa = False\<rparr>\<rparr>"
    by (simp_all add: signed_in_server_def alive_def create_session_def save_locked_def new_session_store_def session_key_def
        page_env_def sample_app_env_def dur_defs)
qed

lemma signed_in_cfg [simp]: "co_cfg signed_in_server = sample_config"
  by (simp add: signed_in_server_def)

lemma bob_removed:
  "\<exists>s'. handle_admin_delete_user page_env (with_cookie ''admin_session'' ''a'' (sample_request bob_form 5)) signed_in_server
     = (redirect (Target ''/admin'' [(''saved'', Lit ''access'')] []), s')"
proof -
  let ?rq = "with_cookie ''admin_session'' ''a'' (sample_request bob_form 5)"
  have sess: "session_of page_env admin_ui ?rq signed_in_server
      = Some \<lparr>sn_role = ''admin'', sn_username = ''ann'', sn_flags = \<lparr>sf_must_change = False, sf_pending_2fa = False\<rparr>\<rparr>"
    by (simp add: session_of_def with_cookie_def admin_ui_def signed_in)
  have form: "form_get bob_form ''username'' = ''bob''" "rq_form ?rq = Some bob_form" by (simp_all add: bob_form_def with_cookie_def)
  have wf: "well_formed sample_env (sample_config\<lparr>cf_users := [sample_user ''ann'' ''admin'' [], sample_user ''cy'' ''viewer'' []]\<rparr>)"
    unfolding well_formed_def
    by (intro conjI; simp add: sample_config_def; simp add: contract_defs sample_env_def Let_def fold_eval)
  have "without_user sample_env sample_config ''bob''
      = Inr (sample_config\<lparr>cf_users := [sample_user ''ann'' ''admin'' [], sample_user ''cy'' ''viewer'' []]\<rparr>)"
    by (simp add: without_user_def sample_config_def fold_eval) (use wf in \<open>simp add: checked_wf sample_config_def\<close>)
  moreover have "\<not> equal_fold ''ann'' ''bob''" by (simp add: fold_eval)
  ultimately show ?thesis
    by (simp add: handle_admin_delete_user_def with_form_def form current_session_eq sess page_env_saves admin_tail_def)
qed

theorem removed_account_keeps_session_witness:
  "\<exists>s'. handle_admin_delete_user page_env (with_cookie ''admin_session'' ''a'' (sample_request bob_form 5)) signed_in_server
       = (redirect (Target ''/admin'' [(''saved'', Lit ''access'')] []), s')
     \<and> (let rq = with_cookie ''manager_session'' ''bobs'' (sample_request bob_form 9)
        in require_role page_env manager_ui (handle_manager_page page_env) rq s' = handle_manager_page page_env rq s')"
proof -
  let ?rq = "with_cookie ''admin_session'' ''a'' (sample_request bob_form 5)"
  obtain s' where s': "handle_admin_delete_user page_env ?rq signed_in_server
      = (redirect (Target ''/admin'' [(''saved'', Lit ''access'')] []), s')" using bob_removed by blast
  have "user_by_username (co_cfg s') ''bob'' = None \<and>
      require_role page_env manager_ui (handle_manager_page page_env) (with_cookie ''manager_session'' ''bobs'' (sample_request bob_form 9)) s'
      = handle_manager_page page_env (with_cookie ''manager_session'' ''bobs'' (sample_request bob_form 9)) s'"
    using removed_account_keeps_session [OF s', of bob_form _ "with_cookie ''manager_session'' ''bobs'' (sample_request bob_form 9)"
        manager_ui "''bobs''" "\<lparr>sn_role = ''manager'', sn_username = ''bob'', sn_flags = \<lparr>sf_must_change = False, sf_pending_2fa = False\<rparr>\<rparr>"
        "handle_manager_page page_env"] signed_in
    by (simp add: with_cookie_def session_of_def door_defs bob_form_def satisfies_def role_rank_def sample_request_def)
  then show ?thesis using s' by (simp add: Let_def)
qed

end
