(* ===== verification/Nvs.thy ===== *)
theory Nvs
  imports GoBase
begin

text \<open>
  The provisioning image of \<open>internal/nvs/nvs.go\<close>: entries of 32 bytes in one page, behind a header and
  a bitmap of used slots, each sealed with a CRC. The slices that the code writes through are the
  buffer of the page. The reader is the specification: it walks the page as the format reference in
  that file describes it, by slots and spans, and checks both checksums; \<open>get_str\<close> is how the
  firmware asks for a value (\<open>firmware/main/nvs_store.cpp\<close>), with the size of the caller's buffer.
  The lemmas say that every value an image was built with is read back, and what a short buffer does.
\<close>

unbundle bit_operations_syntax

section \<open>Writing\<close>

definition page_size :: nat where "page_size = 4096"
definition entry_size :: nat where "entry_size = 32"
definition entries_per_page :: nat where "entries_per_page = 126"
definition bitmap_offset :: nat where "bitmap_offset = 32"
definition first_entry_offset :: nat where "first_entry_offset = 64"
definition max_key_len :: nat where "max_key_len = 15"

lemmas nvs_sizes = page_size_def entry_size_def entries_per_page_def bitmap_offset_def first_entry_offset_def

definition crc_nvs :: "byte list \<Rightarrow> u32" where "crc_nvs b = crc32_update 0xFFFFFFFF b"

datatype key_fault = EmptyKey | LongKey nat

datatype page_fault = PageFull nat nat

datatype nvs_fault = BadSize int | SizeTooSmall int | BadNamespace key_fault | BadKey string key_fault
  | DuplicateKey string | NotWritten string page_fault | NamespaceNotWritten page_fault

definition check_key :: "string \<Rightarrow> key_fault option" where
  "check_key k = (if k = [] then Some EmptyKey else if length k > max_key_len then Some (LongKey (length k)) else None)"

definition bytes_of :: "string \<Rightarrow> byte list" where "bytes_of s = map of_char s"

record nvs_page =
  pg_buf :: "byte list"
  pg_count :: nat

definition write_header :: "u32 \<Rightarrow> nvs_page \<Rightarrow> nvs_page" where
  "write_header seq p =
     (let b = put_at 8 [0xFE] (put_at 4 (le32 seq) (put_at 0 (le32 0xFFFFFFFE) (pg_buf p)))
      in p\<lparr>pg_buf := put_at 28 (le32 (crc_nvs (take 24 (drop 4 b)))) b\<rparr>)"

definition clear_slot :: "nat \<Rightarrow> byte list \<Rightarrow> byte list" where
  "clear_slot slot b =
     (let bit = slot * 2; i = bitmap_offset + bit div 8
      in b[i := (b ! i) AND NOT (push_bit (bit mod 8) 1)])"

definition reserve :: "nat \<Rightarrow> nvs_page \<Rightarrow> page_fault + nat \<times> nvs_page" where
  "reserve n p =
     (if pg_count p + n > entries_per_page then Inl (PageFull (pg_count p) n)
      else Inr (first_entry_offset + pg_count p * entry_size,
        p\<lparr>pg_buf := fold (\<lambda>i b. clear_slot (pg_count p + i) b) [0..<n] (pg_buf p), pg_count := pg_count p + n\<rparr>))"

definition new_entry :: "byte \<Rightarrow> string \<Rightarrow> byte list" where
  "new_entry ns key =
     (let e = (replicate entry_size 0xFF)[0 := ns, 3 := 0xFF]
      in put_at 8 (take 16 (bytes_of key)) (put_at 8 (replicate 16 0) e))"

definition seal_entry :: "byte list \<Rightarrow> byte list" where
  "seal_entry e = put_at 4 (le32 (crc_nvs (take 4 e @ drop 8 e))) e"

definition write_primitive :: "byte \<Rightarrow> string \<Rightarrow> byte \<Rightarrow> nvs_page \<Rightarrow> page_fault + nvs_page" where
  "write_primitive ns key val p =
     (let e = seal_entry ((new_entry ns key)[1 := 0x01, 2 := 1, 24 := val])
      in case reserve 1 p of Inl err \<Rightarrow> Inl err
         | Inr (off, p) \<Rightarrow> Inr (p\<lparr>pg_buf := put_at off e (pg_buf p)\<rparr>))"

definition data_entries :: "byte list \<Rightarrow> nat" where
  "data_entries d = (length d + entry_size - 1) div entry_size"

definition string_entry :: "byte \<Rightarrow> string \<Rightarrow> byte list \<Rightarrow> byte list" where
  "string_entry ns key d =
     (let e = (new_entry ns key)[1 := 0x21, 2 := of_nat (data_entries d + 1)]
      in seal_entry (put_at 28 (le32 (crc_nvs d)) (put_at 24 (le16 (of_nat (length d))) e)))"

definition write_string :: "byte \<Rightarrow> string \<Rightarrow> string \<Rightarrow> nvs_page \<Rightarrow> page_fault + nvs_page" where
  "write_string ns key v p =
     (let d = bytes_of v @ [0]; e = string_entry ns key d
      in case reserve (1 + data_entries d) p of Inl err \<Rightarrow> Inl err
         | Inr (off, p) \<Rightarrow> Inr (p\<lparr>pg_buf := put_at (off + entry_size) d (put_at off e (pg_buf p))\<rparr>))"

fun write_entries :: "string set \<Rightarrow> (string \<times> string) list \<Rightarrow> nvs_page \<Rightarrow> nvs_fault + nvs_page" where
  "write_entries seen [] p = Inr p"
| "write_entries seen ((k, v) # es) p =
     (case check_key k of Some f \<Rightarrow> Inl (BadKey k f)
      | None \<Rightarrow> if k \<in> seen then Inl (DuplicateKey k)
                else (case write_string 1 k v p of Inl f \<Rightarrow> Inl (NotWritten k f)
                      | Inr p \<Rightarrow> write_entries (insert k seen) es p))"

definition build_nvs :: "int \<Rightarrow> string \<Rightarrow> (string \<times> string) list \<Rightarrow> nvs_fault + byte list" where
  "build_nvs sz ns es =
     (if sz \<le> 0 \<or> sz mod int page_size \<noteq> 0 then Inl (BadSize sz)
      else if sz < 2 * int page_size then Inl (SizeTooSmall sz)
      else case check_key ns of Some f \<Rightarrow> Inl (BadNamespace f)
      | None \<Rightarrow>
          let img = replicate (nat sz) 0xFF;
              p = write_header 0 \<lparr>pg_buf = take page_size img, pg_count = 0\<rparr>
          in case write_primitive 0 ns 1 p of Inl f \<Rightarrow> Inl (NamespaceNotWritten f)
             | Inr p \<Rightarrow> (case write_entries {} es p of Inl f \<Rightarrow> Inl f | Inr p \<Rightarrow> Inr (pg_buf p @ drop page_size img)))"

section \<open>Reading\<close>

definition slot_written :: "byte list \<Rightarrow> nat \<Rightarrow> bool" where
  "slot_written img slot \<longleftrightarrow> \<not> bit (img ! (bitmap_offset + slot * 2 div 8)) (slot * 2 mod 8)"

text \<open>The items of a page: the header entry and the bytes of the slots it spans.\<close>

function walk :: "byte list \<Rightarrow> nat \<Rightarrow> (byte list \<times> byte list) list" where
  "walk img i =
     (if i < entries_per_page \<and> slot_written img i
      then let e = take entry_size (drop (first_entry_offset + i * entry_size) img); span = max 1 (unat (e ! 2))
           in (e, take ((span - 1) * entry_size) (drop (first_entry_offset + (i + 1) * entry_size) img)) # walk img (i + span)
      else [])"
  by pat_completeness auto
termination by (relation "measure (\<lambda>(img, i). entries_per_page - i)") auto

declare walk.simps [simp del]

definition entry_key :: "byte list \<Rightarrow> byte list" where "entry_key e = takeWhile (\<lambda>b. b \<noteq> 0) (take 16 (drop 8 e))"

definition sealed :: "byte list \<Rightarrow> bool" where
  "sealed e \<longleftrightarrow> of_le32 (take 4 (drop 4 e)) = crc_nvs (take 4 e @ drop 8 e)"

definition is_item :: "byte \<Rightarrow> byte \<Rightarrow> string \<Rightarrow> byte list \<times> byte list \<Rightarrow> bool" where
  "is_item ns ty key it \<longleftrightarrow> fst it ! 0 = ns \<and> fst it ! 1 = ty \<and> entry_key (fst it) = bytes_of key"

definition string_value :: "byte list \<times> byte list \<Rightarrow> byte list option" where
  "string_value it =
     (let (e, d) = it; d = take (unat (of_le16 (take 2 (drop 24 e)))) d
      in if sealed e \<and> of_le32 (take 4 (drop 28 e)) = crc_nvs d then Some d else None)"

definition read_nvs :: "byte list \<Rightarrow> string \<Rightarrow> string \<Rightarrow> byte list option" where
  "read_nvs img ns key =
     (let items = walk img 0
      in Option.bind (find_first (is_item 0 1 ns) items) (\<lambda>(n, u).
         Option.bind (find_first (is_item (n ! 24) 0x21 key) items) string_value))"

text \<open>A value is read into a buffer that must hold it with its terminator.\<close>

definition get_str :: "byte list \<Rightarrow> string \<Rightarrow> string \<Rightarrow> nat \<Rightarrow> byte list option" where
  "get_str img ns key cap =
     Option.bind (read_nvs img ns key) (\<lambda>d. if length d \<le> cap then Some (takeWhile (\<lambda>b. b \<noteq> 0) d) else None)"


section \<open>What a page holds\<close>

definition item_ok :: "byte list \<times> byte list \<Rightarrow> bool" where
  "item_ok it \<longleftrightarrow> length (fst it) = 32 \<and> (\<exists>k. length (snd it) = 32 * k \<and> unat (fst it ! 2) = k + 1)"

definition items_bytes :: "(byte list \<times> byte list) list \<Rightarrow> byte list" where
  "items_bytes its = concat (map (\<lambda>(e, d). e @ d) its)"

text \<open>The first \<open>n\<close> slots of the image are used, and hold the items.\<close>

definition holds :: "byte list \<Rightarrow> nat \<Rightarrow> (byte list \<times> byte list) list \<Rightarrow> byte list \<Rightarrow> bool" where
  "holds img n its rest \<longleftrightarrow> n \<le> 126 \<and> (\<forall>j < 126. slot_written img j = (j < n)) \<and> (\<forall>it \<in> set its. item_ok it)
     \<and> length (items_bytes its) = 32 * n \<and> drop 64 img = items_bytes its @ rest"

lemma items_bytes_simps [simp]:
  "items_bytes [] = []" "items_bytes (it # its) = fst it @ snd it @ items_bytes its"
  "items_bytes (its @ its') = items_bytes its @ items_bytes its'"
  by (simp_all add: items_bytes_def split_def)

lemma walk_items:
  assumes "\<forall>j < 126. slot_written img j = (j < n)" "n \<le> 126" "\<forall>it \<in> set its. item_ok it"
    and "32 * i + length (items_bytes its) = 32 * n" "drop (64 + 32 * i) img = items_bytes its @ rest"
  shows "walk img i = its"
  using assms(3-5)
proof (induction its arbitrary: i)
  case Nil
  then have "i = n" by simp
  then show ?case using assms(1,2) by (subst walk.simps) (auto simp: nvs_sizes)
next
  case (Cons it its)
  obtain e d where it: "it = (e, d)" by fastforce
  from Cons.prems(1) it obtain k where k: "length e = 32" "length d = 32 * k" "unat (e ! 2) = k + 1"
    by (auto simp: item_ok_def)
  have i: "i < n" using Cons.prems(2) it k by simp
  have body: "drop (64 + 32 * i) img = e @ d @ items_bytes its @ rest" using Cons.prems(3) it by simp
  have next_body: "drop (64 + 32 * (i + j)) img = drop (32 * j) (e @ d @ items_bytes its @ rest)" for j
    using arg_cong [OF body, of "drop (32 * j)"] by (simp add: drop_drop algebra_simps del: drop_append)
  have d: "take (k * 32) (drop (64 + (i + 1) * 32) img) = d"
    using next_body [of 1] k by (simp add: mult.commute)
  have "walk img (i + (k + 1)) = its"
    using Cons.prems(1,2) it k next_body [of "k + 1"] by (intro Cons.IH) (auto simp: algebra_simps)
  then show ?case using i assms(1,2) body k d it
    by (subst walk.simps) (simp add: nvs_sizes mult.commute Let_def)
qed

lemma holds_walk: "holds img n its rest \<Longrightarrow> walk img 0 = its"
  by (rule walk_items) (auto simp: holds_def)

section \<open>Writing into a page\<close>

lemma length_clear_slot [simp]: "length (clear_slot s b) = length b"
  by (simp add: clear_slot_def Let_def)

lemma clear_bit:
  "bit (x AND NOT (push_bit k 1)) m \<longleftrightarrow> bit x m \<and> m \<noteq> k" if "k < 8" "m < 8" for x :: byte and k m
  using that by (auto simp: bit_simps)

lemma clear_bit_at:
  assumes "i < length b" "k < 8" "m < 8"
  shows "bit (b[i := (b ! i) AND NOT (push_bit k 1)] ! l) m \<longleftrightarrow> bit (b ! l :: byte) m \<and> (l, m) \<noteq> (i, k)"
  using assms clear_bit by (cases "l = i") auto

lemma same_slot: "(32 + j * 2 div 8, j * 2 mod 8) = (32 + s * 2 div 8, s * 2 mod 8) \<longleftrightarrow> j = (s :: nat)"
  using div_mult_mod_eq [of "s * 2" 8] div_mult_mod_eq [of "j * 2" 8] by auto

lemma clear_slot_written:
  assumes "length b = 4096" "s < 126" "j < 126"
  shows "slot_written (clear_slot s b) j \<longleftrightarrow> slot_written b j \<or> j = s"
proof -
  have idx: "32 + s * 2 div 8 < length b" using assms by simp
  have "s * 2 mod 8 < 8" "j * 2 mod 8 < 8" by simp_all
  from clear_bit_at [OF idx this, of "32 + j * 2 div 8"] show ?thesis
    unfolding slot_written_def clear_slot_def Let_def bitmap_offset_def same_slot by blast
qed

lemma drop_clear_slot [simp]: "s < 126 \<Longrightarrow> drop 64 (clear_slot s b) = drop 64 b"
  by (simp add: clear_slot_def Let_def nvs_sizes)

lemma clear_slots:
  assumes "length b = 4096" "c + n \<le> 126"
  shows "length (fold (\<lambda>i b. clear_slot (c + i) b) [0..<n] b) = 4096
    \<and> drop 64 (fold (\<lambda>i b. clear_slot (c + i) b) [0..<n] b) = drop 64 b
    \<and> (\<forall>j < 126. slot_written (fold (\<lambda>i b. clear_slot (c + i) b) [0..<n] b) j = (slot_written b j \<or> c \<le> j \<and> j < c + n))"
  using assms(2)
proof (induction n)
  case 0
  then show ?case using assms(1) by auto
next
  case (Suc n)
  then show ?case by (auto simp: clear_slot_written)
qed

lemma put_at_Nil [simp]: "put_at off [] b = b"
  by (simp add: put_at_def)

lemma nth_put_at: "i < off \<Longrightarrow> off \<le> length b \<Longrightarrow> put_at off bs b ! i = b ! i"
  by (simp add: put_at_def nth_append)

lemma drop_put_at: "k \<le> off \<Longrightarrow> off \<le> length b \<Longrightarrow> drop k (put_at off bs b) = put_at (off - k) bs (drop k b)"
  by (simp add: put_at_def drop_take)

lemma put_at_replicate: "length bs \<le> m \<Longrightarrow> put_at 0 bs (replicate m x) = bs @ replicate (m - length bs) x"
  by (simp add: put_at_def)

definition page_holds :: "nvs_page \<Rightarrow> (byte list \<times> byte list) list \<Rightarrow> bool" where
  "page_holds p its \<longleftrightarrow> length (pg_buf p) = 4096
     \<and> holds (pg_buf p) (pg_count p) its (replicate (32 * (126 - pg_count p)) 0xFF)"

lemma page_write:
  assumes "page_holds p its" "reserve (Suc k) p = Inr (off, p')"
    and "length e = 32" "unat (e ! 2) = k + 1" "length d \<le> 32 * k"
  shows "page_holds (p'\<lparr>pg_buf := put_at (off + entry_size) d (put_at off e (pg_buf p'))\<rparr>)
      (its @ [(e, d @ replicate (32 * k - length d) 0xFF)])"
proof -
  let ?c = "pg_count p" and ?b' = "put_at (off + entry_size) d (put_at off e (pg_buf p'))"
  from assms(2) have c: "?c + Suc k \<le> 126" and off: "off = 64 + ?c * 32" and
    p': "p' = p\<lparr>pg_buf := fold (\<lambda>i b. clear_slot (?c + i) b) [0..<Suc k] (pg_buf p), pg_count := ?c + Suc k\<rparr>"
    by (auto simp: reserve_def nvs_sizes split: if_splits)
  from assms(1) have h: "length (pg_buf p) = 4096" "\<forall>j < 126. slot_written (pg_buf p) j = (j < ?c)"
    "\<forall>it \<in> set its. item_ok it" "length (items_bytes its) = 32 * ?c"
    "drop 64 (pg_buf p) = items_bytes its @ replicate (32 * (126 - ?c)) 0xFF" by (auto simp: page_holds_def holds_def)
  note r = clear_slots [OF h(1) c]
  have len: "length (pg_buf p') = 4096" and body: "drop 64 (pg_buf p') = items_bytes its @ replicate (32 * (126 - ?c)) 0xFF"
    and slots: "\<forall>j < 126. slot_written (pg_buf p') j = (j < ?c + Suc k)"
    using r h(2,5) by (auto simp: p')
  have len': "length ?b' = 4096" using len c assms(3,5) off by (simp add: nvs_sizes)
  have "slot_written ?b' j = slot_written (pg_buf p') j" if "j < 126" for j
    using that len c assms(3,5) off by (simp add: slot_written_def nth_put_at nvs_sizes)
  moreover have "drop 64 ?b' = items_bytes (its @ [(e, d @ replicate (32 * k - length d) 0xFF)])
      @ replicate (32 * (126 - (?c + Suc k))) 0xFF"
  proof -
    have "drop 64 ?b' = put_at (32 * ?c + 32) d (put_at (32 * ?c) e (drop 64 (pg_buf p')))"
      using len c assms(3) off by (simp add: drop_put_at nvs_sizes mult.commute add.commute)
    also have "\<dots> = items_bytes its @ put_at 32 d (put_at 0 e (replicate (32 * (126 - ?c)) 0xFF))"
      by (simp add: body h(4) put_at_append2)
    also have "put_at 0 e (replicate (32 * (126 - ?c)) 0xFF) = e @ replicate (32 * (125 - ?c)) 0xFF"
      using c assms(3) by (simp add: put_at_replicate algebra_simps)
    also have "put_at 32 d (e @ replicate (32 * (125 - ?c)) 0xFF) = e @ d @ replicate (32 * (125 - ?c) - length d) 0xFF"
      using c assms(3,5) by (simp add: put_at_append2 put_at_replicate)
    also have "replicate (32 * (125 - ?c) - length d) (0xFF :: byte)
        = replicate (32 * k - length d) 0xFF @ replicate (32 * (126 - (?c + Suc k))) 0xFF"
      using c assms(5) by (simp add: replicate_add [symmetric] algebra_simps)
    finally show ?thesis by simp
  qed
  moreover have "item_ok (e, d @ replicate (32 * k - length d) 0xFF)"
    using assms(3-5) by (auto simp: item_ok_def intro!: exI [of _ k])
  ultimately show ?thesis using slots h(3,4) c len' assms(3,5)
    by (auto simp: page_holds_def holds_def p')
qed

section \<open>The fields of an entry\<close>

lemma length_bytes_of [simp]: "length (bytes_of s) = length s"
  by (simp add: bytes_of_def)

lemma of_char_nonzero: "c \<noteq> CHR 0x00 \<Longrightarrow> of_char c \<noteq> (0 :: byte)"
proof
  assume "c \<noteq> CHR 0x00" "of_char c = (0 :: byte)"
  then have "of_char c = (0 :: nat)" using unat_of_char [of c] by simp
  then have "c = CHR 0x00" using of_char_eq_iff [where ?'a = nat, of c "CHR 0x00"] by simp
  with \<open>c \<noteq> CHR 0x00\<close> show False by simp
qed

lemma replicate8: "replicate 8 x = [x, x, x, x, x, x, x, x]"
  by (simp add: numeral_eq_Suc)

lemma replicate32: "replicate 32 x = replicate 8 x @ replicate 16 x @ replicate 8 x"
  by (simp add: replicate_add [symmetric])

lemma put_field:
  assumes "length h = 8" "length k \<le> 16"
  shows "put_at 8 k (put_at 8 (replicate 16 z) (h @ replicate 16 y @ c)) = h @ (k @ replicate (16 - length k) z) @ c"
  using assms by (simp add: put_at_append2 put_at_append1 put_at_replicate put_at_all)

lemma new_entry_eq:
  assumes "length key \<le> 15"
  shows "new_entry ns key = [ns, 0xFF, 0xFF, 0xFF, 0xFF, 0xFF, 0xFF, 0xFF]
    @ (bytes_of key @ replicate (16 - length key) 0) @ replicate 8 0xFF"
proof -
  have e: "(replicate entry_size 0xFF)[0 := ns, 3 := 0xFF] = [ns, 0xFF, 0xFF, 0xFF, 0xFF, 0xFF, 0xFF, 0xFF] @ replicate 16 0xFF @ replicate 8 0xFF"
    by (simp add: entry_size_def replicate32) (simp add: replicate8)
  show ?thesis
    using assms put_field [where h = "[ns, 0xFF, 0xFF, 0xFF, 0xFF, 0xFF, 0xFF, 0xFF]" and k = "bytes_of key" and c = "replicate 8 0xFF"]
    unfolding new_entry_def Let_def e by simp
qed

lemma le32_list: "\<exists>a b c d. le32 w = [a, b, c, d]"
  by (simp add: le32_def)

lemma le16_list: "\<exists>a b. le16 w = [a, b]"
  by (simp add: le16_def)

text \<open>An entry in one piece, and what the reader makes of it.\<close>

definition entry_bytes :: "byte \<Rightarrow> byte \<Rightarrow> byte \<Rightarrow> u32 \<Rightarrow> string \<Rightarrow> byte list \<Rightarrow> byte list" where
  "entry_bytes ns ty span c key data = [ns, ty, span, 0xFF] @ le32 c @ (bytes_of key @ replicate (16 - length key) 0) @ data"

lemma seal_entry_eq:
  assumes "length key \<le> 15" "length data = 8"
  shows "seal_entry ([ns, ty, span, 0xFF, x1, x2, x3, x4] @ (bytes_of key @ replicate (16 - length key) 0) @ data)
    = entry_bytes ns ty span (crc_nvs ([ns, ty, span, 0xFF] @ (bytes_of key @ replicate (16 - length key) 0) @ data)) key data"
  using assms by (simp add: seal_entry_def entry_bytes_def put_at_def)

lemma entry_bytes_fields:
  assumes "length key \<le> 15" "length data = 8" "CHR 0x00 \<notin> set key"
  shows "length (entry_bytes ns ty span c key data) = 32" "entry_bytes ns ty span c key data ! 0 = ns"
    "entry_bytes ns ty span c key data ! 1 = ty" "entry_bytes ns ty span c key data ! 2 = span"
    "take 4 (drop 4 (entry_bytes ns ty span c key data)) = le32 c"
    "take 4 (entry_bytes ns ty span c key data) @ drop 8 (entry_bytes ns ty span c key data)
       = [ns, ty, span, 0xFF] @ (bytes_of key @ replicate (16 - length key) 0) @ data"
    "entry_key (entry_bytes ns ty span c key data) = bytes_of key"
    "drop 24 (entry_bytes ns ty span c key data) = data"
proof -
  obtain a b c' d where w: "le32 c = [a, b, c', d]" using le32_list by blast
  show "length (entry_bytes ns ty span c key data) = 32" "entry_bytes ns ty span c key data ! 0 = ns"
    "entry_bytes ns ty span c key data ! 1 = ty" "entry_bytes ns ty span c key data ! 2 = span"
    "take 4 (drop 4 (entry_bytes ns ty span c key data)) = le32 c"
    "take 4 (entry_bytes ns ty span c key data) @ drop 8 (entry_bytes ns ty span c key data)
       = [ns, ty, span, 0xFF] @ (bytes_of key @ replicate (16 - length key) 0) @ data"
    "drop 24 (entry_bytes ns ty span c key data) = data"
    using assms(1,2) by (simp_all add: entry_bytes_def w)
  have nz: "\<forall>x \<in> set (bytes_of key). x \<noteq> 0"
  proof
    fix x assume "x \<in> set (bytes_of key)"
    then obtain ch where ch: "ch \<in> set key" "x = of_char ch" by (auto simp: bytes_of_def)
    then show "x \<noteq> 0" using assms(3) of_char_nonzero by metis
  qed
  have "entry_key (entry_bytes ns ty span c key data) = takeWhile (\<lambda>b. b \<noteq> 0) (bytes_of key @ replicate (16 - length key) 0)"
    using assms(1) by (simp add: entry_key_def entry_bytes_def w)
  also have "\<dots> = bytes_of key"
    using nz assms(1) by (simp add: takeWhile_append2 Suc_diff_le)
  finally show "entry_key (entry_bytes ns ty span c key data) = bytes_of key" .
qed

definition string_data :: "byte list \<Rightarrow> byte list" where
  "string_data d = le16 (of_nat (length d)) @ [0xFF, 0xFF] @ le32 (crc_nvs d)"

lemma length_string_data: "length (string_data d) = 8"
  by (simp add: string_data_def)

lemma string_entry_eq:
  assumes "length key \<le> 15"
  shows "\<exists>c. string_entry ns key d = entry_bytes ns 0x21 (of_nat (data_entries d + 1)) c key (string_data d)
    \<and> c = crc_nvs ([ns, 0x21, of_nat (data_entries d + 1), 0xFF] @ (bytes_of key @ replicate (16 - length key) 0) @ string_data d)"
proof -
  let ?k = "bytes_of key @ replicate (16 - length key) 0" and ?s = "of_nat (data_entries d + 1) :: byte"
  have put: "put_at 28 (le32 w) (put_at 24 (le16 v) (h @ replicate 8 0xFF)) = h @ le16 v @ [0xFF, 0xFF] @ le32 w"
    if "length h = 24" for h v w
    using that by (simp add: put_at_append2 replicate8) (simp add: put_at_def)
  have "(new_entry ns key)[1 := 0x21, 2 := ?s] = ([ns, 0x21, ?s, 0xFF, 0xFF, 0xFF, 0xFF, 0xFF] @ ?k) @ replicate 8 0xFF"
    using assms by (simp add: new_entry_eq)
  then have "string_entry ns key d = seal_entry ([ns, 0x21, ?s, 0xFF, 0xFF, 0xFF, 0xFF, 0xFF] @ ?k @ string_data d)"
    using assms put [of "[ns, 0x21, ?s, 0xFF, 0xFF, 0xFF, 0xFF, 0xFF] @ ?k"] unfolding string_entry_def Let_def
    by (simp add: string_data_def)
  then show ?thesis using seal_entry_eq [OF assms length_string_data] by simp
qed

lemma sealedI:
  assumes "length key \<le> 15" "length data = 8" "CHR 0x00 \<notin> set key"
  shows "sealed (entry_bytes ns ty span (crc_nvs ([ns, ty, span, 0xFF] @ (bytes_of key @ replicate (16 - length key) 0) @ data)) key data)"
  using entry_bytes_fields [OF assms] by (simp add: sealed_def)

definition string_item :: "string \<times> string \<Rightarrow> byte list \<times> byte list" where
  "string_item kv = (let d = bytes_of (snd kv) @ [0]
     in (string_entry 1 (fst kv) d, d @ replicate (32 * data_entries d - length d) 0xFF))"

definition plain_key :: "string \<Rightarrow> bool" where "plain_key k \<longleftrightarrow> k \<noteq> [] \<and> length k \<le> 15 \<and> CHR 0x00 \<notin> set k"

lemma data_entries_enough: "length d \<le> 32 * data_entries d"
  by (simp add: data_entries_def entry_size_def)

lemma string_item_fields:
  assumes "plain_key k" "data_entries (bytes_of v @ [0]) \<le> 125"
  shows "length (fst (string_item (k, v))) = 32" "is_item 1 0x21 k' (string_item (k, v)) \<longleftrightarrow> bytes_of k = bytes_of k'"
    "\<not> is_item 0 1 k' (string_item (k, v))" "string_value (string_item (k, v)) = Some (bytes_of v @ [0])"
    "unat (fst (string_item (k, v)) ! 2) = data_entries (bytes_of v @ [0]) + 1"
proof -
  let ?d = "bytes_of v @ [0]"
  have k: "length k \<le> 15" "CHR 0x00 \<notin> set k" using assms(1) by (auto simp: plain_key_def)
  obtain c where e: "string_entry 1 k ?d = entry_bytes 1 0x21 (of_nat (data_entries ?d + 1)) c k (string_data ?d)"
    and c: "c = crc_nvs ([1, 0x21, of_nat (data_entries ?d + 1), 0xFF] @ (bytes_of k @ replicate (16 - length k) 0) @ string_data ?d)"
    using string_entry_eq [OF k(1)] by blast
  note f = entry_bytes_fields [OF k(1) length_string_data k(2)]
  have len: "length ?d \<le> 32 * 125" using data_entries_enough [of ?d] assms(2) by linarith
  show "length (fst (string_item (k, v))) = 32" "is_item 1 0x21 k' (string_item (k, v)) \<longleftrightarrow> bytes_of k = bytes_of k'"
    "\<not> is_item 0 1 k' (string_item (k, v))"
    by (simp_all add: string_item_def Let_def e f is_item_def del: One_nat_def)
  show "unat (fst (string_item (k, v)) ! 2) = data_entries ?d + 1"
  proof -
    have "unat (of_nat m :: byte) = m" if "m \<le> 126" for m using that by (simp add: unat_of_nat)
    from this [of "data_entries ?d + 1"] have "unat (of_nat (data_entries ?d + 1) :: byte) = data_entries ?d + 1"
      using assms(2) by (simp del: of_nat_add of_nat_Suc)
    then show ?thesis by (simp only: string_item_def Let_def e f fst_conv snd_conv)
  qed
  have "unat (of_nat m :: 16 word) = m" if "m \<le> 4000" for m using that by (simp add: unat_of_nat)
  from this [of "length ?d"] have "unat (of_nat (length ?d) :: 16 word) = length ?d"
    using len by (simp del: of_nat_add of_nat_Suc length_append)
  then have "take (unat (of_le16 (le16 (of_nat (length ?d))))) (snd (string_item (k, v))) = ?d"
    by (simp add: string_item_def Let_def)
  moreover have "take 2 (drop 24 (string_entry 1 k ?d)) = le16 (of_nat (length ?d))"
    "take 4 (drop 28 (string_entry 1 k ?d)) = le32 (crc_nvs ?d)"
  proof -
    have "drop 28 (string_entry 1 k ?d) = drop 4 (drop 24 (string_entry 1 k ?d))" by simp
    then show "take 4 (drop 28 (string_entry 1 k ?d)) = le32 (crc_nvs ?d)"
      by (simp only: e f) (simp add: string_data_def)
    show "take 2 (drop 24 (string_entry 1 k ?d)) = le16 (of_nat (length ?d))"
      by (simp only: e f) (simp add: string_data_def)
  qed
  moreover have "sealed (string_entry 1 k ?d)" unfolding e c by (rule sealedI [OF k(1) length_string_data k(2)])
  ultimately show "string_value (string_item (k, v)) = Some ?d"
    by (simp add: string_value_def Let_def string_item_def)
qed


lemma string_item_ok: "plain_key k \<Longrightarrow> data_entries (bytes_of v @ [0]) \<le> 125 \<Longrightarrow> item_ok (string_item (k, v))"
  using string_item_fields(1,5) [of k v] data_entries_enough [of "bytes_of v @ [0]"]
  by (auto simp: item_ok_def string_item_def Let_def intro!: exI [of _ "data_entries (bytes_of v @ [0])"])

lemma write_string_holds:
  assumes "page_holds p its" "write_string 1 k v p = Inr p'" "plain_key k"
  shows "page_holds p' (its @ [string_item (k, v)]) \<and> data_entries (bytes_of v @ [0]) \<le> 125"
proof -
  let ?d = "bytes_of v @ [0]"
  from assms(2) obtain off q where r: "reserve (Suc (data_entries ?d)) p = Inr (off, q)"
    and p': "p' = q\<lparr>pg_buf := put_at (off + entry_size) ?d (put_at off (string_entry 1 k ?d) (pg_buf q))\<rparr>"
    by (auto simp: write_string_def Let_def split: sum.splits)
  have n: "data_entries ?d \<le> 125" using r by (auto simp: reserve_def nvs_sizes split: if_splits)
  note f = string_item_fields [OF assms(3) n]
  have "page_holds p' (its @ [(string_entry 1 k ?d, ?d @ replicate (32 * data_entries ?d - length ?d) 0xFF)])"
    unfolding p' using f(1,5) data_entries_enough [of ?d]
    by (intro page_write [OF assms(1) r]) (simp_all add: string_item_def Let_def)
  then show ?thesis using n by (simp add: string_item_def Let_def)
qed

lemma write_entries_holds:
  assumes "page_holds p its" "write_entries seen es p = Inr p'" "\<forall>(k, v) \<in> set es. CHR 0x00 \<notin> set k"
  shows "page_holds p' (its @ map string_item es) \<and> distinct (map fst es) \<and> set (map fst es) \<inter> seen = {}
    \<and> (\<forall>(k, v) \<in> set es. plain_key k \<and> data_entries (bytes_of v @ [0]) \<le> 125)"
  using assms
proof (induction seen es p arbitrary: its rule: write_entries.induct)
  case (2 seen k v es p)
  from "2.prems"(2) obtain q where q: "check_key k = None" "k \<notin> seen" "write_string 1 k v p = Inr q"
    "write_entries (insert k seen) es q = Inr p'"
    by (auto split: option.splits if_splits sum.splits)
  have k: "plain_key k" using q(1) "2.prems"(3) by (auto simp: plain_key_def check_key_def max_key_len_def split: if_splits)
  note w = write_string_holds [OF "2.prems"(1) q(3) k]
  have "page_holds p' ((its @ [string_item (k, v)]) @ map string_item es) \<and> distinct (map fst es)
      \<and> set (map fst es) \<inter> insert k seen = {} \<and> (\<forall>(k, v) \<in> set es. plain_key k \<and> data_entries (bytes_of v @ [0]) \<le> 125)"
    using q w "2.prems"(3) by (intro "2.IH") auto
  then show ?case using k w q(2) by auto
qed simp

lemma bytes_of_inj: "bytes_of a = bytes_of b \<longleftrightarrow> a = b"
proof -
  have "inj (of_char :: char \<Rightarrow> byte)" by (rule injI) (metis unat_of_char of_char_eq_iff)
  then show ?thesis by (simp add: bytes_of_def inj_map_eq_map)
qed

section \<open>Reading back\<close>

lemma find_string_item:
  assumes "distinct (map fst es)" "(k, v) \<in> set es"
    and "\<forall>(k, v) \<in> set es. plain_key k \<and> data_entries (bytes_of v @ [0]) \<le> 125"
  shows "find_first (is_item 1 0x21 k) (map string_item es) = Some (string_item (k, v))"
  using assms
proof (induction es)
  case (Cons e es)
  obtain k' v' where e: "e = (k', v')" by fastforce
  have m: "is_item 1 0x21 k (string_item (k', v')) \<longleftrightarrow> k' = k"
    using Cons.prems(3) string_item_fields(2) [of k' v' k] by (simp add: e bytes_of_inj)
  show ?case using Cons m by (cases "k' = k") (auto simp: e intro: rev_image_eqI)
qed simp

definition namespace_item :: "string \<Rightarrow> byte list \<times> byte list" where
  "namespace_item ns = (seal_entry ((new_entry 0 ns)[1 := 0x01, 2 := 1, 24 := 1]), [])"

lemma namespace_item_fields:
  assumes "plain_key ns"
  shows "length (fst (namespace_item ns)) = 32" "unat (fst (namespace_item ns) ! 2) = 1" "is_item 0 1 ns (namespace_item ns)"
    "fst (namespace_item ns) ! 24 = 1" "\<not> is_item 1 ty k (namespace_item ns)"
proof -
  have k: "length ns \<le> 15" "CHR 0x00 \<notin> set ns" using assms by (auto simp: plain_key_def)
  let ?data = "1 # replicate 7 0xFF :: byte list"
  have len: "length ?data = 8" by simp
  have "(replicate 8 0xFF)[0 := 1 :: byte] = ?data" by (simp add: numeral_eq_Suc)
  then have "(new_entry 0 ns)[1 := 0x01, 2 := 1, 24 := 1]
      = [0, 0x01, 1, 0xFF, 0xFF, 0xFF, 0xFF, 0xFF] @ (bytes_of ns @ replicate (16 - length ns) 0) @ ?data"
    using k(1) by (simp add: new_entry_eq list_update_append)
  then have e: "fst (namespace_item ns) = entry_bytes 0 1 1 (crc_nvs ([0, 1, 1, 0xFF] @ (bytes_of ns @ replicate (16 - length ns) 0) @ ?data)) ns ?data"
    using seal_entry_eq [OF k(1) len] by (simp add: namespace_item_def)
  note f = entry_bytes_fields [OF k(1) len k(2)]
  show "length (fst (namespace_item ns)) = 32" "unat (fst (namespace_item ns) ! 2) = 1" "is_item 0 1 ns (namespace_item ns)"
    "\<not> is_item 1 ty k (namespace_item ns)"
    by (simp_all add: e f is_item_def del: One_nat_def)
  have "24 < length (fst (namespace_item ns))" by (simp add: e f del: One_nat_def)
  from hd_drop_conv_nth [OF this] show "fst (namespace_item ns) ! 24 = 1" by (simp only: e f) simp
qed


lemma fresh_page_holds:
  assumes "length b = 4096" "\<forall>j. 32 \<le> j \<longrightarrow> j < 4096 \<longrightarrow> b ! j = 0xFF"
  shows "page_holds \<lparr>pg_buf = b, pg_count = 0\<rparr> []"
proof -
  have "drop 64 b = replicate 4032 0xFF"
    using assms by (intro nth_equalityI) (auto)
  moreover have "\<not> slot_written b j" if "j < 126" for j
  proof -
    have "b ! (32 + j * 2 div 8) = 0xFF" using that assms(2) by simp
    moreover have "bit (0xFF :: byte) m" if "m < 8" for m
      using that bit_mask_iff [where ?'a = "8 word", of 8 m] by (simp add: mask_eq_exp_minus_1)
    ultimately show ?thesis by (simp add: slot_written_def bitmap_offset_def)
  qed
  ultimately show ?thesis using assms(1) by (simp add: page_holds_def holds_def)
qed

lemma header_page_holds: "page_holds (write_header 0 \<lparr>pg_buf = replicate 4096 0xFF, pg_count = 0\<rparr>) []"
proof -
  have far: "put_at off bs b ! j = b ! j" if "off + length bs \<le> j" "j < length b" for off bs and b :: "byte list" and j
    using that by (auto simp: put_at_def nth_append)
  show ?thesis unfolding write_header_def Let_def
    by (simp add: far fresh_page_holds)
qed

text \<open>Every value that an image was built with is found by a reader of the partition under its key,
  terminated, with both checksums in order; the image has the size asked for.\<close>

lemma build_nvs_reads:
  assumes "build_nvs sz ns es = Inr img" "(k, v) \<in> set es"
    and "CHR 0x00 \<notin> set ns" "\<forall>(k, v) \<in> set es. CHR 0x00 \<notin> set k"
  shows "read_nvs img ns k = Some (bytes_of v @ [0]) \<and> length img = nat sz"
proof -
  let ?p0 = "write_header 0 \<lparr>pg_buf = replicate 4096 0xFF, pg_count = 0\<rparr>"
  have take: "2 * 4096 \<le> sz \<Longrightarrow> take page_size (replicate (nat sz) (0xFF :: byte)) = replicate 4096 0xFF"
    by (simp add: page_size_def)
  from assms(1) take obtain p1 p2 where sz: "2 * 4096 \<le> sz" and ns: "check_key ns = None"
    and p1: "write_primitive 0 ns 1 ?p0 = Inr p1" and p2: "write_entries {} es p1 = Inr p2"
    and img: "img = pg_buf p2 @ drop page_size (replicate (nat sz) 0xFF)"
    by (auto simp: build_nvs_def Let_def page_size_def split: option.splits if_splits sum.splits)
  have key: "plain_key ns" using ns assms(3) by (auto simp: plain_key_def check_key_def max_key_len_def split: if_splits)
  note nf = namespace_item_fields [OF key]
  from p1 obtain off q where r: "reserve (Suc 0) ?p0 = Inr (off, q)"
    and q: "p1 = q\<lparr>pg_buf := put_at off (fst (namespace_item ns)) (pg_buf q)\<rparr>"
    by (auto simp: write_primitive_def namespace_item_def Let_def split: sum.splits)
  have "page_holds (q\<lparr>pg_buf := put_at (off + entry_size) [] (put_at off (fst (namespace_item ns)) (pg_buf q))\<rparr>)
      ([] @ [(fst (namespace_item ns), [] @ replicate (32 * 0 - length ([] :: byte list)) 0xFF)])"
    by (rule page_write [OF header_page_holds r]) (use nf in simp_all)
  then have "page_holds p1 [namespace_item ns]" by (simp add: q namespace_item_def)
  from write_entries_holds [OF this p2 assms(4)] have
    p: "page_holds p2 (namespace_item ns # map string_item es)" and es: "distinct (map fst es)"
      "\<forall>(k, v) \<in> set es. plain_key k \<and> data_entries (bytes_of v @ [0]) \<le> 125" by auto
  have "holds img (pg_count p2) (namespace_item ns # map string_item es)
      (replicate (32 * (126 - pg_count p2)) 0xFF @ drop page_size (replicate (nat sz) 0xFF))"
    using p by (auto simp: page_holds_def holds_def img slot_written_def nth_append bitmap_offset_def)
  then have w: "walk img 0 = namespace_item ns # map string_item es" by (rule holds_walk)
  have "string_value (string_item (k, v)) = Some (bytes_of v @ [0])"
    using es(2) assms(2) string_item_fields(4) by blast
  then have "read_nvs img ns k = Some (bytes_of v @ [0])"
    using nf find_string_item [OF es(1) assms(2) es(2)] by (simp add: read_nvs_def w split_def)
  moreover have "length img = nat sz" using p sz by (simp add: page_holds_def img page_size_def)
  ultimately show ?thesis ..
qed

section \<open>When an image can be built\<close>

definition entry_slots :: "string \<times> string \<Rightarrow> nat" where
  "entry_slots kv = 1 + data_entries (bytes_of (snd kv) @ [0])"

lemma write_string_fits:
  "write_string ns k v p = (if pg_count p + entry_slots (k, v) \<le> 126
     then Inr (projr (write_string ns k v p)) else Inl (PageFull (pg_count p) (entry_slots (k, v))))"
  "write_string ns k v p = Inr q \<Longrightarrow> pg_count q = pg_count p + entry_slots (k, v)"
  by (auto simp: write_string_def reserve_def nvs_sizes entry_slots_def Let_def split: if_splits)

lemma write_entries_fits:
  assumes "\<forall>k \<in> set (map fst es). check_key k = None" "distinct (map fst es)" "set (map fst es) \<inter> seen = {}"
    and "pg_count p + sum_list (map entry_slots es) \<le> 126"
  shows "\<exists>q. write_entries seen es p = Inr q"
  using assms
proof (induction seen es p rule: write_entries.induct)
  case (2 seen k v es p)
  then have "pg_count p + entry_slots (k, v) \<le> 126" by simp
  with write_string_fits(1) [of 1 k v p] obtain q where q: "write_string 1 k v p = Inr q" by metis
  from write_string_fits(2) [OF q] "2.prems" have "\<exists>r. write_entries (insert k seen) es q = Inr r"
    by (intro "2.IH" [OF _ _ q]) auto
  then show ?case using q "2.prems" by auto
qed simp

lemma build_nvs_succeeds:
  assumes "0 < sz" "sz mod 4096 = 0" "8192 \<le> sz" "check_key ns = None"
    and "\<forall>k \<in> set (map fst es). check_key k = None" "distinct (map fst es)" "sum_list (map entry_slots es) \<le> 125"
  shows "\<exists>img. build_nvs sz ns es = Inr img"
proof -
  let ?p0 = "write_header 0 \<lparr>pg_buf = take page_size (replicate (nat sz) 0xFF), pg_count = 0\<rparr>"
  obtain p1 where p1: "write_primitive 0 ns 1 ?p0 = Inr p1" "pg_count p1 = 1"
    by (simp add: write_primitive_def reserve_def write_header_def nvs_sizes Let_def)
  obtain p2 where "write_entries {} es p1 = Inr p2"
    using write_entries_fits [OF assms(5,6), of "{}" p1] assms(7) p1(2) by auto
  then show ?thesis using p1 assms(1-4) by (simp add: build_nvs_def page_size_def Let_def)
qed

end
