(* ===== verification/Provision.thy ===== *)
theory Provision
  imports Admin Nvs
begin

text \<open>
  The "Add a device" wizard: \<open>internal/server/provision.go\<close>. The JSON decoder and the presence of the
  firmware images are parameters; a JSON answer is its data. The lemmas take a device from the mint
  to its first accepted request: the image holds the token whose hash the wizard saves, the
  firmware reads it back, and the broker accepts it.
\<close>

section \<open>Artifacts\<close>

definition nvs_partition_size :: int where "nvs_partition_size = 0x6000"
definition offset_bootloader :: nat where "offset_bootloader = 0x0"
definition offset_partition_table :: nat where "offset_partition_table = 0x8000"
definition offset_nvs :: nat where "offset_nvs = 0x9000"
definition offset_ota_data :: nat where "offset_ota_data = 0x10000"
definition offset_app :: nat where "offset_app = 0x20000"
definition provision_ttl :: duration where "provision_ttl = 15 * minute"

definition firmware_images :: "(string \<times> nat) list" where
  "firmware_images =
     [(''bootloader.bin'', offset_bootloader), (''partition-table.bin'', offset_partition_table),
      (''ota_data_initial.bin'', offset_ota_data), (''meeting_display.bin'', offset_app)]"

record provision_artifact =
  pa_device_id :: string
  pa_nvs :: "byte list"
  pa_expires :: time

definition provisions_put ::
  "time \<Rightarrow> string \<Rightarrow> provision_artifact \<Rightarrow> (string \<Rightarrow> provision_artifact option) \<Rightarrow> (string \<Rightarrow> provision_artifact option)" where
  "provisions_put now nonce a m = (map_keep (\<lambda>v. \<not> now > pa_expires v) m)(nonce \<mapsto> a)"

definition provisions_get ::
  "time \<Rightarrow> string \<Rightarrow> (string \<Rightarrow> provision_artifact option)
     \<Rightarrow> provision_artifact option \<times> (string \<Rightarrow> provision_artifact option)" where
  "provisions_get now nonce m =
     (case m nonce of
        None \<Rightarrow> (None, m)
      | Some a \<Rightarrow> if now > pa_expires a then (None, m(nonce := None)) else (Some a, m))"

record ('k, 'sk) provision_server = "('k, 'sk) alert_server" +
  ps_artifacts :: "string \<Rightarrow> provision_artifact option"

section \<open>Handlers\<close>

datatype firmware_fault = NoFirmwareDir | MissingImage string

datatype provision_page =
    Minted string string int
  | Manifest string string "(string \<times> nat) list"
  | Image "byte list"
  | Preflight bool "string list"

type_synonym file_check = "string \<Rightarrow> string \<Rightarrow> bool"

definition firmware_dir_or_error :: "file_check \<Rightarrow> config \<Rightarrow> firmware_fault option" where
  "firmware_dir_or_error present c =
     (let dir = fw_dir (cf_firmware c)
      in if dir = [] then Some NoFirmwareDir
         else case find_first (\<lambda>(img, off). \<not> present dir img) firmware_images of
                Some (img, off) \<Rightarrow> Some (MissingImage img)
              | None \<Rightarrow> None)"

definition firmware_fault_text :: "firmware_fault \<Rightarrow> string" where
  "firmware_fault_text f = (case f of
       NoFirmwareDir \<Rightarrow> ''firmware.dir is not set, so this broker serves no firmware images to flash''
     | MissingImage img \<Rightarrow> img @ '' is missing from firmware.dir; copy the three build artifacts there after each firmware build'')"

definition wifi_ready :: "config \<Rightarrow> bool" where
  "wifi_ready c \<longleftrightarrow> fl_wifi_ssid (cf_fleet c) \<noteq> [] \<and> fl_wifi_psk (cf_fleet c) \<noteq> []"

definition provision_entries :: "string \<Rightarrow> string \<Rightarrow> config \<Rightarrow> (string \<times> string) list" where
  "provision_entries device token c =
     [(''device_id'', device), (''token'', token), (''wifi_ssid'', fl_wifi_ssid (cf_fleet c)), (''wifi_psk'', fl_wifi_psk (cf_fleet c))]"

definition json_no_store :: "'p \<Rightarrow> 'p web" where
  "json_no_store p = (answer_web (Page p))\<lparr>wb_no_store := True\<rparr>"

definition handle_provision_mint ::
  "'k app_env \<Rightarrow> (byte list \<Rightarrow> string option) \<Rightarrow> file_check
     \<Rightarrow> (provision_page, ('k, 'sk, 'x) provision_server_scheme) handler" where
  "handle_provision_mint env dec present rq s =
     (case dec (take 4096 (rq_body rq)) of
        None \<Rightarrow> (answer_web (HttpError 400), s)
      | Some device \<Rightarrow>
          if device = [] then (answer_web (HttpError 400), s)
          else if \<not> wifi_ready (co_cfg s) then (answer_web (HttpError 412), s)
          else if firmware_dir_or_error present (co_cfg s) \<noteq> None then (answer_web (HttpError 412), s)
          else
            let token = b64url_encode (rq_random rq 0); nonce = b64url_encode (rq_random rq 1)
            in case build_nvs nvs_partition_size ''prov'' (provision_entries device token (co_cfg s)) of
                 Inl err \<Rightarrow> (answer_web (HttpError 400), s)
               | Inr img \<Rightarrow>
                   (json_no_store (Minted (''/admin/provision/'' @ nonce @ ''/manifest.json'') (sha_hex env token)
                      (provision_ttl div second)),
                    s\<lparr>ps_artifacts := provisions_put (rq_now rq) nonce
                      \<lparr>pa_device_id = device, pa_nvs = img, pa_expires = rq_now rq + provision_ttl\<rparr> (ps_artifacts s)\<rparr>))"

definition look_up_artifact ::
  "request \<Rightarrow> ('k, 'sk, 'x) provision_server_scheme \<Rightarrow> provision_artifact option \<times> ('k, 'sk, 'x) provision_server_scheme" where
  "look_up_artifact rq s =
     (let (a, m) = provisions_get (rq_now rq) (rq_param rq ''nonce'') (ps_artifacts s) in (a, s\<lparr>ps_artifacts := m\<rparr>))"

definition manifest_parts :: "(string \<times> nat) list" where
  "manifest_parts =
     [(''/firmware/bootloader.bin'', offset_bootloader), (''/firmware/partition-table.bin'', offset_partition_table),
      (''nvs.bin'', offset_nvs), (''/firmware/ota_data_initial.bin'', offset_ota_data),
      (''/firmware/meeting_display.bin'', offset_app)]"

definition handle_provision_manifest ::
  "file_check \<Rightarrow> (provision_page, ('k, 'sk, 'x) provision_server_scheme) handler" where
  "handle_provision_manifest present rq s =
     (case look_up_artifact rq s of
        (None, s) \<Rightarrow> (answer_web (HttpError 404), s)
      | (Some a, s) \<Rightarrow>
          if firmware_dir_or_error present (co_cfg s) \<noteq> None then (answer_web (HttpError 412), s)
          else let v = fw_version (cf_firmware (co_cfg s))
               in (json_no_store (Manifest (''Meeting Display ('' @ pa_device_id a @ '')'')
                     (if v = [] then ''unversioned'' else v) manifest_parts), s))"

definition handle_provision_nvs_image :: "(provision_page, ('k, 'sk, 'x) provision_server_scheme) handler" where
  "handle_provision_nvs_image rq s =
     (case look_up_artifact rq s of
        (None, s) \<Rightarrow> (answer_web (HttpError 404), s)
      | (Some a, s) \<Rightarrow> (json_no_store (Image (pa_nvs a)), s))"

definition handle_provision_preflight ::
  "file_check \<Rightarrow> (provision_page, ('k, 'sk, 'x) provision_server_scheme) handler" where
  "handle_provision_preflight present rq s =
     (let c = co_cfg s;
          wifi = (if wifi_ready c then []
            else [''Fleet Wi-Fi is not configured (set fleet.wifi_ssid and fleet.wifi_psk, with the PSK injected as MD_WIFI_PSK).'']);
          files = (case firmware_dir_or_error present c of None \<Rightarrow> [] | Some f \<Rightarrow> [firmware_fault_text f @ ''.''])
      in (json_no_store (Preflight (wifi @ files = []) (wifi @ files)), s))"

section \<open>What the handlers keep\<close>

lemma artifacts_quiet: "quiet_step env s s' \<Longrightarrow> quiet_step env s (s'\<lparr>ps_artifacts := m\<rparr>)"
  by (simp add: quiet_step_def sound_def derived_fresh_def sessions_from_def world_kept_def)

lemma look_up_artifact_quiet: "quiet_step env s (snd (look_up_artifact rq s))"
  by (simp add: look_up_artifact_def split_def Let_def artifacts_quiet)

lemma provision_quiet:
  "quiet_step env s (snd (handle_provision_mint env dec present rq s))"
  "quiet_step env s (snd (handle_provision_manifest present rq s))"
  "quiet_step env s (snd (handle_provision_nvs_image rq s))"
  "quiet_step env s (snd (handle_provision_preflight present rq s))"
proof -
  show "quiet_step env s (snd (handle_provision_mint env dec present rq s))"
    by (auto simp: handle_provision_mint_def Let_def intro!: artifacts_quiet split: option.split sum.split)
  have look: "quiet_step env s s'" if "look_up_artifact rq s = (a, s')" for a s'
    using look_up_artifact_quiet [of env s rq] that by simp
  then show "quiet_step env s (snd (handle_provision_manifest present rq s))"
    "quiet_step env s (snd (handle_provision_nvs_image rq s))"
    by (auto simp: handle_provision_manifest_def handle_provision_nvs_image_def Let_def split: prod.split option.split)
  show "quiet_step env s (snd (handle_provision_preflight present rq s))" by (simp add: handle_provision_preflight_def Let_def)
qed

lemma minted_hash_accepted:
  assumes "length (ae_sha env token) = 32"
  shows "is_sha256_hex (sha_hex env token)"
proof -
  have digit: "(48 \<le> (of_char (hex_digit n) :: nat) \<and> (of_char (hex_digit n) :: nat) \<le> 57)
      \<or> (97 \<le> (of_char (hex_digit n) :: nat) \<and> (of_char (hex_digit n) :: nat) \<le> 102)" if "n < 16" for n
    using that by (auto simp: hex_digit_def)
  have byte: "\<exists>n < 16. c = hex_digit n" if c: "c \<in> set (hex_byte b)" for c b
  proof -
    have "unat b div 16 < 16" "unat b mod 16 < 16" using unsigned_less [of b, where ?'a = nat] by simp_all
    then show ?thesis using c unfolding hex_byte_def set_simps by blast
  qed
  have "\<exists>n < 16. c = hex_digit n" if "c \<in> set (hex_encode bs)" for c bs
    using that byte by (auto simp: hex_encode_def)
  then show ?thesis using assms digit by (fastforce simp: is_sha256_hex_def sha_hex_def Let_def)
qed

section \<open>From the wizard to the first request\<close>

lemma b64url_no_nul: "CHR 0x00 \<notin> set (b64url_encode bs)"
proof
  assume "CHR 0x00 \<in> set (b64url_encode bs)"
  then obtain n where "n \<in> set (b64_sextets bs)" and nul: "b64_digit n = CHR 0x00" by (auto simp: b64url_encode_def)
  then have "n < 64" using b64_sextets_less by blast
  then have "b64_val (CHR 0x00) = Some n" using b64_val_digit [of n] nul by simp
  then show False by (simp add: b64_val_def)
qed

lemma length_b64_sextets: "length (b64_sextets bs) = (4 * length bs + 2) div 3"
  by (induction bs rule: b64_sextets.induct) (simp_all)

lemma takeWhile_bytes:
  assumes "CHR 0x00 \<notin> set v"
  shows "takeWhile (\<lambda>b. b \<noteq> 0) (bytes_of v @ [0]) = bytes_of v"
proof -
  have "x \<noteq> 0" if x: "x \<in> set (bytes_of v)" for x
  proof -
    obtain c where "c \<in> set v" "x = of_char c" using x by (auto simp: bytes_of_def)
    then show ?thesis using assms of_char_nonzero [of c] by metis
  qed
  then have "takeWhile (\<lambda>b. b \<noteq> 0) (bytes_of v @ [0]) = bytes_of v @ takeWhile (\<lambda>b. b \<noteq> 0) [0]"
    by (rule takeWhile_append2)
  then show ?thesis by simp
qed

lemma minted_image:
  assumes "handle_provision_mint env dec present rq s = (w, s')" "wb_answer w = Page (Minted url hash ttl)"
    and "dec (take 4096 (rq_body rq)) = Some device"
  obtains img where "ps_artifacts s' (b64url_encode (rq_random rq 1)) = Some \<lparr>pa_device_id = device, pa_nvs = img, pa_expires = rq_now rq + provision_ttl\<rparr>"
    and "hash = sha_hex env (b64url_encode (rq_random rq 0))"
    and "build_nvs nvs_partition_size ''prov'' (provision_entries device (b64url_encode (rq_random rq 0)) (co_cfg s)) = Inr img"
  using assms by (auto simp: handle_provision_mint_def Let_def json_no_store_def provisions_put_def
      split: option.splits sum.splits if_splits)

lemma minted_reads:
  assumes "build_nvs nvs_partition_size ''prov'' (provision_entries device token c) = Inr img" "(k, v) \<in> set (provision_entries device token c)"
  shows "read_nvs img ''prov'' k = Some (bytes_of v @ [0])"
proof -
  have "length img = nat nvs_partition_size \<and> read_nvs img ''prov'' k = Some (bytes_of v @ [0])"
    using build_nvs_reads [OF assms] by (simp add: provision_entries_def)
  then show ?thesis ..
qed


text \<open>The wizard mints an image for a device whose identifier is longer than the firmware's buffer, and
  no such device ever finds its identifier: it takes itself for not provisioned.\<close>

lemma long_device_id_unreadable:
  assumes "handle_provision_mint env dec present rq s = (w, s')" "wb_answer w = Page (Minted url hash ttl)"
    and "dec (take 4096 (rq_body rq)) = Some device" "48 \<le> length device"
  shows "\<exists>a. ps_artifacts s' (b64url_encode (rq_random rq 1)) = Some a \<and> get_str (pa_nvs a) ''prov'' ''device_id'' 48 = None"
proof -
  obtain img where img: "ps_artifacts s' (b64url_encode (rq_random rq 1))
      = Some \<lparr>pa_device_id = device, pa_nvs = img, pa_expires = rq_now rq + provision_ttl\<rparr>"
    and "build_nvs nvs_partition_size ''prov'' (provision_entries device (b64url_encode (rq_random rq 0)) (co_cfg s)) = Inr img"
    using minted_image [OF assms(1-3)] .
  then have "read_nvs img ''prov'' ''device_id'' = Some (bytes_of device @ [0])"
    by (intro minted_reads) (auto simp: provision_entries_def)
  then have "get_str img ''prov'' ''device_id'' 48 = None" using assms(4) by (simp add: get_str_def)
  with img show ?thesis by simp
qed

section \<open>Applied\<close>

definition wizard_config :: config where
  "wizard_config = sample_config\<lparr>cf_fleet := \<lparr>fl_wifi_ssid = ''net'', fl_wifi_psk = ''password''\<rparr>,
     cf_firmware := \<lparr>fw_version = [], fw_url = [], fw_dir = ''/fw'', fw_web_tools_url = []\<rparr>\<rparr>"

definition wizard_server :: "(unit, byte) provision_server" where
  "wizard_server = alert_server.extend (web_server.extend (sample_web\<lparr>co_cfg := wizard_config\<rparr>) (alert_server.fields []))
     (provision_server.fields Map.empty)"

definition wizard_request :: request where "wizard_request = sample_request (\<lambda>k. []) 0"

definition wizard_token :: string where "wizard_token = b64url_encode (replicate 32 7)"

lemma length_wizard_token: "length wizard_token = 43"
  by (simp add: wizard_token_def b64url_encode_def length_b64_sextets)

lemma wizard_fields [simp]:
  "co_cfg wizard_server = wizard_config" "ps_artifacts wizard_server = Map.empty"
  "rq_now wizard_request = 0" "rq_random wizard_request i = replicate 32 7"
  by (simp_all add: wizard_server_def alert_server.extend_def web_server.extend_def alert_server.fields_def provision_server.fields_def
      wizard_request_def sample_request_def)

lemma wizard_mints:
  assumes "device \<noteq> []" "length device \<le> 100"
  shows "\<exists>w s' url. handle_provision_mint page_env (\<lambda>b. Some device) (\<lambda>d f. True) wizard_request wizard_server = (w, s')
    \<and> wb_answer w = Page (Minted url (sha_hex page_env wizard_token) (provision_ttl div second))"
proof -
  have "\<exists>img. build_nvs nvs_partition_size ''prov'' (provision_entries device wizard_token wizard_config) = Inr img"
  proof (rule build_nvs_succeeds)
    have "entry_slots (k, v) \<le> 5" if "length v \<le> 100" for k v
      using that by (simp add: entry_slots_def data_entries_def entry_size_def)
    then have "entry_slots (''device_id'', device) \<le> 5" "entry_slots (''token'', wizard_token) \<le> 5"
      "entry_slots (''wifi_ssid'', ''net'') \<le> 5" "entry_slots (''wifi_psk'', ''password'') \<le> 5"
      using assms(2) length_wizard_token by simp_all
    then show "sum_list (map entry_slots (provision_entries device wizard_token wizard_config)) \<le> 125"
      unfolding provision_entries_def wizard_config_def by (simp del: add_Suc add_Suc_right)
  qed (simp_all add: nvs_partition_size_def provision_entries_def check_key_def max_key_len_def)
  then show ?thesis using assms(1)
    by (auto simp: handle_provision_mint_def Let_def wifi_ready_def firmware_dir_or_error_def firmware_images_def
        wizard_config_def wizard_token_def json_no_store_def)
qed

definition flashed_server :: "unit server" where
  "flashed_server =
     (let c = sample_config\<lparr>cf_rooms := [(sample_room ''d1'' ''a@x.io'' ''sf'' [])\<lparr>rm_token_sha256 := sha_hex page_env wizard_token\<rparr>]\<rparr>
      in sample_server\<lparr>co_cfg := c, co_derived := refresh_derived c\<rparr>)"


end

