(* ===== verification/Dashboard.thy ===== *)
theory Dashboard
  imports Provision
begin

text \<open>
  The viewers' pages: \<open>internal/server/dashboard.go\<close> and the status endpoints of \<open>status.go\<close>. A preview
  is the bytes that the poller cached. A wake that cannot be computed, because the zone is unknown, is a
  panic that \<open>recover\<close> answers with an error. The lemmas say which panels a limited account is shown.
\<close>

section \<open>Rows\<close>

record dashboard_row =
  dr_device :: device
  dr_battery_bar :: string
  dr_battery_text :: string
  dr_status_label :: string
  dr_last_seen_text :: string
  dr_next_check_in :: string

text \<open>\<open>batteryGauge\<close> of \<open>theme.go\<close>, the only markup that is computed: its width stays within the outline.\<close>

definition gauge_width :: "int \<Rightarrow> int" where
  "gauge_width pct = (let pct = (if pct < 0 then 0 else pct) in if pct > 100 then 100 else pct)"

definition in_quotes :: "string \<Rightarrow> string" where "in_quotes s = CHR 0x22 # s @ [CHR 0x22]"

definition battery_gauge :: "int \<Rightarrow> string" where
  "battery_gauge pct =
     ''<span class='' @ in_quotes ''battgauge'' @ ''><span class='' @ in_quotes ''battgauge-fill'' @ '' style=''
     @ in_quotes (''width:'' @ show_int (gauge_width pct) @ ''%'') @ ''></span></span>''"

lemma gauge_width_bounds: "0 \<le> gauge_width pct \<and> gauge_width pct \<le> 100 \<and> (0 \<le> pct \<and> pct \<le> 100 \<longrightarrow> gauge_width pct = pct)"
  by (simp add: gauge_width_def Let_def)

definition friendly_status_label :: "string \<Rightarrow> string" where
  "friendly_status_label st =
     (if st = ''unreported'' then ''waiting'' else if st = ''stale'' then ''overdue''
      else if st = ''low_battery'' then ''low battery'' else ''ok'')"

definition humanize_ago :: "int \<Rightarrow> string" where
  "humanize_ago secs =
     (if secs < 60 then ''just now'' else if secs < 3600 then show_int (secs div 60) @ ''m ago''
      else if secs < 86400 then show_int (secs div 3600) @ ''h ago'' else show_int (secs div 86400) @ ''d ago'')"

definition check_in_text :: "zone \<Rightarrow> time \<Rightarrow> string" where
  "check_in_text z t = weekday_abbrev z t @ '' ~'' @ clock12 z t"

definition next_check_in :: "go_env \<Rightarrow> config \<Rightarrow> cache \<Rightarrow> time \<Rightarrow> string \<Rightarrow> string option" where
  "next_check_in e c cch now d =
     (case room_by_device_id c d of
        None \<Rightarrow> Some []
      | Some r \<Rightarrow>
          let cached = cache_get cch d
          in (case (next_wake_duration e c r (Option.bind cached ce_cur) (Option.bind cached ce_next) now,
                    env_zone e (wk_timezone (cf_wake c))) of
                (Some secs, Some z) \<Rightarrow> Some (check_in_text z (now + uint secs * second))
              | _ \<Rightarrow> None))"

definition dashboard_row_of :: "go_env \<Rightarrow> config \<Rightarrow> cache \<Rightarrow> time \<Rightarrow> device \<Rightarrow> dashboard_row option" where
  "dashboard_row_of e c cch now d =
     map_option (\<lambda>t. \<lparr>dr_device = d, dr_battery_bar = battery_gauge (dv_battery_pct d),
        dr_battery_text = (if dv_status d = ''unreported'' then ''unknown'' else show_int (dv_battery_pct d) @ ''%''),
        dr_status_label = friendly_status_label (dv_status d),
        dr_last_seen_text = (if dv_status d = ''unreported'' then ''unknown'' else humanize_ago (dv_last_seen_seconds d)),
        dr_next_check_in = t\<rparr>) (next_check_in e c cch now (dv_device_id d))"

fun all_rows :: "('a \<Rightarrow> 'b option) \<Rightarrow> 'a list \<Rightarrow> 'b list option" where
  "all_rows f [] = Some []"
| "all_rows f (x # xs) =
     (case f x of None \<Rightarrow> None | Some y \<Rightarrow> (case all_rows f xs of None \<Rightarrow> None | Some ys \<Rightarrow> Some (y # ys)))"

definition row_key :: "dashboard_row \<Rightarrow> string list" where
  "row_key r = [dv_name (dr_device r), dv_label (dr_device r), dv_device_id (dr_device r)]"

record dashboard_data =
  dd_rows :: "dashboard_row list"
  dd_show_manager :: bool
  dd_show_admin :: bool

datatype viewer_page = DashboardPage dashboard_data | PreviewPng "byte list"

definition handle_dashboard_page :: "'k app_env \<Rightarrow> (viewer_page, ('k, 'x) server_scheme) handler" where
  "handle_dashboard_page env rq s =
     (let c = co_cfg s; devices = build c (sv_tlm s) (rq_now rq); (acct, s) = session_account env viewer_ui rq s
      in case all_rows (dashboard_row_of (ae_go env) c (sv_cache s) (rq_now rq))
                (filter (\<lambda>d. room_visible (co_cfg s) acct (dv_device_id d)) devices) of
           None \<Rightarrow> (answer_web (HttpError 500), s)
         | Some rows \<Rightarrow>
             let (x, s) = look_up env viewer_ui rq s;
                 grants = (\<lambda>ui. case x of None \<Rightarrow> False | Some x \<Rightarrow> satisfies (sn_role x) (ui_role ui))
             in (answer_web (Page (DashboardPage
                   \<lparr>dd_rows = sort_key row_key rows, dd_show_manager = grants manager_ui, dd_show_admin = grants admin_ui\<rparr>)), s))"

definition handle_dashboard_preview :: "'k app_env \<Rightarrow> (viewer_page, ('k, 'x) server_scheme) handler" where
  "handle_dashboard_preview env rq s =
     (let d = rq_param rq ''device_id''; (acct, s) = session_account env viewer_ui rq s
      in if \<not> room_visible (co_cfg s) acct d then (answer_web (HttpError 404), s)
         else case cache_get (sv_cache s) d of
                None \<Rightarrow> (answer_web (HttpError 404), s)
              | Some e \<Rightarrow> if ce_preview e = [] then (answer_web (HttpError 404), s)
                          else (answer_web (Page (PreviewPng (ce_preview e))), s))"

text \<open>\<open>/api/v1/status\<close> and \<open>/status\<close> show the same rows, the latter as a table unless JSON is asked for.\<close>

datatype status_answer = StatusJson "device list" | StatusTable "device list"

definition handle_status :: "request \<Rightarrow> ('k, 'x) server_scheme \<Rightarrow> device list" where
  "handle_status rq s = build (co_cfg s) (sv_tlm s) (rq_now rq)"

definition handle_status_json :: "request \<Rightarrow> ('k, 'x) server_scheme \<Rightarrow> status_answer" where
  "handle_status_json rq s = StatusJson (handle_status rq s)"

definition handle_status_page :: "request \<Rightarrow> ('k, 'x) server_scheme \<Rightarrow> status_answer" where
  "handle_status_page rq s =
     (if rq_query rq ''format'' = ''json'' then handle_status_json rq s else StatusTable (handle_status rq s))"

section \<open>What the pages keep and show\<close>

lemma all_rows_mem: "all_rows f xs = Some ys \<Longrightarrow> y \<in> set ys \<Longrightarrow> \<exists>x \<in> set xs. f x = Some y"
  by (induction xs arbitrary: ys) (fastforce split: option.splits)+

lemma dashboard_quiet:
  "quiet_step env s (snd (handle_dashboard_page env rq s))" "quiet_step env s (snd (handle_dashboard_preview env rq s))"
  by (auto simp: handle_dashboard_page_def handle_dashboard_preview_def Let_def session_account_eq split_def split: option.split)

lemma room_visible_limited:
  assumes "room_visible c (Some u) d" "limited u"
  shows "\<exists>r \<in> set (cf_rooms c). rm_device_id r = d \<and> location_of c r \<in> set (us_locations u)"
proof (cases "room_by_device_id c d")
  case (Some r)
  then have "can_see_room c u r" using assms(1) by (simp add: room_visible_def)
  then show ?thesis using room_by_device_id_SomeD [OF Some] assms(2) by (auto simp: can_see_room_def can_see_location_def)
qed (use assms in \<open>simp add: room_visible_def\<close>)

text \<open>The panels that an answer shows, by device.\<close>

definition dashboard_devices :: "viewer_page web \<Rightarrow> string set" where
  "dashboard_devices w = (case wb_answer w of
     Page (DashboardPage d) \<Rightarrow> (\<lambda>r. dv_device_id (dr_device r)) ` set (dd_rows d) | _ \<Rightarrow> {})"

definition manager_devices :: "manager_data web \<Rightarrow> string set" where
  "manager_devices w = (case wb_answer w of Page d \<Rightarrow> (\<lambda>r. dv_device_id (mr_device r)) ` set (md_rows d) | _ \<Rightarrow> {})"

lemma dashboard_devices_visible:
  "dashboard_devices (fst (handle_dashboard_page env rq s))
     \<subseteq> {d. room_visible (co_cfg s) (fst (session_account env viewer_ui rq s)) d}"
proof -
  have dev: "dr_device r = d" if "dashboard_row_of e c cch now d = Some r" for e c cch now d r
    using that by (auto simp: dashboard_row_of_def)
  let ?s = "snd (look_up env viewer_ui rq s)" and ?acct = "fst (session_account env viewer_ui rq s)"
  let ?ds = "filter (\<lambda>d. room_visible (co_cfg s) ?acct (dv_device_id d)) (build (co_cfg s) (sv_tlm s) (rq_now rq))"
  let ?rows = "all_rows (dashboard_row_of (ae_go env) (co_cfg s) (sv_cache ?s) (rq_now rq)) ?ds"
  have page: "\<exists>m a. fst (handle_dashboard_page env rq s) = (case ?rows of None \<Rightarrow> answer_web (HttpError 500)
      | Some rows \<Rightarrow> answer_web (Page (DashboardPage \<lparr>dd_rows = sort_key row_key rows, dd_show_manager = m, dd_show_admin = a\<rparr>)))"
    by (cases ?rows) (auto simp: handle_dashboard_page_def Let_def session_account_eq split_def)
  show ?thesis
  proof (cases ?rows)
    case None
    then show ?thesis using page by (auto simp: dashboard_devices_def)
  next
    case (Some rows)
    then have "dashboard_devices (fst (handle_dashboard_page env rq s)) = (\<lambda>r. dv_device_id (dr_device r)) ` set rows"
      using page by (auto simp: dashboard_devices_def)
    then show ?thesis using all_rows_mem [OF Some] dev by fastforce
  qed
qed

lemma manager_devices_visible:
  "manager_devices (fst (handle_manager_page env rq s))
     \<subseteq> {d. room_visible (co_cfg s) (fst (session_account env manager_ui rq s)) d}"
  by (auto simp: handle_manager_page_def manager_devices_def manager_row_of_def session_account_eq Let_def)




end
