(* ===== verification/Routes.thy ===== *)
theory Routes
  imports Dashboard
begin

text \<open>
  The whole HTTP interface: \<open>Handler\<close> of \<open>internal/server/server.go\<close> and \<open>registerPushRoutes\<close> of
  \<open>push.go\<close>, with every handler of the other theories behind its path and its door. A path is the
  list of its segments; the patterns are \<open>ServeMux\<close>'s, exact ones before the subtrees, which is the
  order in which it prefers them. What lies outside the server (cryptography, mail, chat, JSON, files)
  is one record of parameters. A redirect is kept without its status. The lemmas say what holds after any
  sequence of requests.
\<close>

section \<open>Pages and parameters\<close>

record persistence_report =
  pp_mode :: string
  pp_target :: string
  pp_durable :: bool
  pp_last_error :: "apply_error option"
  pp_last_error_at :: "time option"
  pp_last_ok_at :: "time option"

text \<open>A zero time is the empty string, which the encoder omits.\<close>

definition format_time_or_empty :: "time \<Rightarrow> time option" where
  "format_time_or_empty t = (if is_zero_time t then None else Some t)"

definition handle_config_persistence :: "('k, 'x) core_scheme \<Rightarrow> persistence_report" where
  "handle_config_persistence s =
     (let v = co_pstate s
      in \<lparr>pp_mode = pt_mode v, pp_target = pt_target v, pp_durable = pt_durable v, pp_last_error = pt_last_err v,
          pp_last_error_at = format_time_or_empty (pt_last_err_at v), pp_last_ok_at = format_time_or_empty (pt_last_ok_at v)\<rparr>)"

datatype site_page =
    LoginPg login_page
  | ResetPg reset_page
  | AdminPg admin_data
  | ManagerPg manager_data
  | BrowserPg browser_page
  | ProvisionPg provision_page
  | ViewerPg viewer_page
  | DevicePg response
  | MetricsPg "metric list"
  | StatusPg status_answer
  | PersistencePg persistence_report
  | FilePg string
  | HealthPg

fun map_answer :: "('p \<Rightarrow> 'q) \<Rightarrow> 'p answer \<Rightarrow> 'q answer" where
  "map_answer f (Page p) = Page (f p)"
| "map_answer f (SeeOther t) = SeeOther t"
| "map_answer f (Elsewhere d) = Elsewhere d"
| "map_answer f (HttpError n) = HttpError n"
| "map_answer f NoContent = NoContent"

definition as_page :: "('p \<Rightarrow> 'q) \<Rightarrow> ('p, 's) handler \<Rightarrow> ('q, 's) handler" where
  "as_page f h rq s =
     (let (w, s) = h rq s
      in (\<lparr>wb_answer = map_answer f (wb_answer w), wb_cookies = wb_cookies w, wb_no_store = wb_no_store w\<rparr>, s))"

text \<open>What the server is given. \<open>ou_devices\<close> lists the keys of the telemetry map, \<open>ou_sink\<close> are the
  counters of the queue, \<open>ou_firmware_dir\<close> is the directory that was configured at the start.\<close>

record ('k, 'sk, 'pk) outside =
  ou_env :: "'k app_env"
  ou_hmac :: hmac
  ou_err_text :: "msg \<Rightarrow> string"
  ou_channel_text :: "channel_error \<Rightarrow> string"
  ou_crypto :: "('pk, 'sk) push_crypto"
  ou_probe :: "fetcher option"
  ou_durations :: duration_parser
  ou_deliver :: "('sk, ('k, 'sk) provision_server) deliver"
  ou_lark :: "('k, 'sk) provision_server lark_test"
  ou_subscribe :: subscribe_codec
  ou_mint :: "byte list \<Rightarrow> string option"
  ou_files :: file_check
  ou_report :: "byte list \<Rightarrow> report option"
  ou_devices :: "fleet \<Rightarrow> string list"
  ou_sink :: "(nat \<times> nat) option"
  ou_firmware_dir :: string

section \<open>Patterns\<close>

datatype meth = Get | Post | OtherMethod

text \<open>\<open>Wild n\<close> is \<open>{n}\<close>, one segment that is not empty; \<open>Subtree\<close> is a trailing slash.\<close>

datatype seg = Seg string | Wild string | Subtree

fun match_path :: "seg list \<Rightarrow> string list \<Rightarrow> (string \<times> string) list option" where
  "match_path [] [] = Some []"
| "match_path [Subtree] (x # xs) = Some []"
| "match_path (Seg a # ps) (x # xs) = (if a = x then match_path ps xs else None)"
| "match_path (Wild n # ps) (x # xs) = (if x = [] then None else map_option ((#) (n, x)) (match_path ps xs))"
| "match_path _ _ = None"

text \<open>The segments after the leading slash: \<open>/a/b\<close> has two, \<open>/a/\<close> has a last empty one.\<close>

fun split_at :: "char \<Rightarrow> string \<Rightarrow> string \<Rightarrow> string list" where
  "split_at c acc [] = [rev acc]"
| "split_at c acc (x # xs) = (if x = c then rev acc # split_at c [] xs else split_at c (x # acc) xs)"

definition segments :: "string \<Rightarrow> string list" where
  "segments p = (case p of [] \<Rightarrow> [] | x # xs \<Rightarrow> split_at (CHR ''/'') [] xs)"

definition path_pattern :: "string \<Rightarrow> seg list" where "path_pattern p = map Seg (segments p)"

record ('k, 'sk) route =
  ro_method :: meth
  ro_pattern :: "seg list"
  ro_door :: "role_ui option"
  ro_handler :: "(site_page, ('k, 'sk) provision_server) handler"

definition open_route :: "meth \<Rightarrow> seg list \<Rightarrow> (site_page, ('k, 'sk) provision_server) handler \<Rightarrow> ('k, 'sk) route" where
  "open_route m p h = \<lparr>ro_method = m, ro_pattern = p, ro_door = None, ro_handler = h\<rparr>"

definition gated_route :: "meth \<Rightarrow> role_ui \<Rightarrow> seg list \<Rightarrow> (site_page, ('k, 'sk) provision_server) handler \<Rightarrow> ('k, 'sk) route" where
  "gated_route m ui p h = \<lparr>ro_method = m, ro_pattern = p, ro_door = Some ui, ro_handler = h\<rparr>"

definition go_to :: "string \<Rightarrow> (site_page, 's) handler" where
  "go_to p rq s = (redirect (to_path p), s)"

definition static_file :: "string \<Rightarrow> (site_page, 's) handler" where
  "static_file p rq s = (answer_web (Page (FilePg (p @ rq_path rq))), s)"

text \<open>A handler that only reads.\<close>

definition showing :: "(request \<Rightarrow> 's \<Rightarrow> site_page) \<Rightarrow> (site_page, 's) handler" where
  "showing f rq s = (answer_web (Page (f rq s)), s)"

definition display_handler :: "('k, 'sk, 'pk) outside \<Rightarrow> (site_page, ('k, 'sk) provision_server) handler" where
  "display_handler ou rq s =
     (let (r, s) = handle_display (ou_env ou) (rq_now rq) (rq_param rq ''device'') (rq_header rq ''Authorization'')
                     (rq_header rq ''If-None-Match'') s
      in (answer_web (Page (DevicePg r)), s))"

definition telemetry_handler :: "('k, 'sk, 'pk) outside \<Rightarrow> (site_page, ('k, 'sk) provision_server) handler" where
  "telemetry_handler ou rq s =
     (let (r, ms, rec, s) = handle_telemetry (ou_env ou) (ou_report ou) (rq_now rq) (rq_param rq ''device'')
                              (rq_header rq ''Authorization'') (rq_body rq) s
      in (answer_web (Page (DevicePg r)), s))"

section \<open>The table\<close>

type_synonym ('k, 'sk) routes = "('k, 'sk) route list"

text \<open>Signing in, alike at every door.\<close>

definition door_routes :: "('k, 'sk, 'pk) outside \<Rightarrow> role_ui \<Rightarrow> ('k, 'sk) routes" where
  "door_routes ou ui =
     (let env = ou_env ou; hm = ou_hmac ou; pg = as_page LoginPg; pt = (\<lambda>p. path_pattern p)
      in [open_route Get (pt (ui_login ui)) (pg (handle_login_page ui)),
          open_route Post (pt (ui_login ui)) (pg (handle_login_submit env ui)),
          open_route Post (pt (ui_home ui @ ''/logout'')) (pg (handle_logout env ui)),
          gated_route Get ui (pt (ui_change ui)) (pg (handle_change_password_page ui)),
          gated_route Post ui (pt (ui_change ui)) (pg (handle_change_password_submit env ui)),
          gated_route Get ui (pt (ui_totp_verify ui)) (pg (handle_totp_verify_page ui)),
          gated_route Post ui (pt (ui_totp_verify ui)) (pg (handle_totp_verify_submit env hm ui)),
          gated_route Get ui (pt (ui_totp_setup ui)) (pg (handle_totp_setup_page env ui)),
          gated_route Post ui (pt (ui_totp_enable ui)) (pg (handle_totp_enable_submit env hm ui))])"

definition push_routes :: "('k, 'sk, 'pk) outside \<Rightarrow> role_ui \<Rightarrow> ('k, 'sk) routes" where
  "push_routes ou ui =
     (let pt = (\<lambda>p. path_pattern (ui_home ui @ p))
      in [open_route Get (pt ''/push-sw.js'') (static_file []),
          gated_route Get ui (pt ''/notifications'') (as_page BrowserPg (handle_notifications_page (ou_env ou) ui)),
          gated_route Post ui (pt ''/api/push/subscribe'') (handle_push_subscribe (ou_env ou) (ou_subscribe ou) ui),
          gated_route Post ui (pt ''/api/push/unsubscribe'') (handle_push_unsubscribe (ou_env ou) (ou_subscribe ou) ui)])"

definition machine_routes :: "('k, 'sk, 'pk) outside \<Rightarrow> ('k, 'sk) routes" where
  "machine_routes ou =
     [open_route Get [Seg ''api'', Seg ''v1'', Seg ''display'', Wild ''device''] (display_handler ou),
      open_route Post [Seg ''api'', Seg ''v1'', Seg ''telemetry'', Wild ''device''] (telemetry_handler ou),
      open_route Get [Seg ''metrics'']
        (showing (\<lambda>rq s. MetricsPg (write_metrics (ou_devices ou (sv_tlm s)) (sv_tlm s) (ou_sink ou) (rq_now rq)))),
      open_route Get (path_pattern ''/api/v1/status'') (showing (\<lambda>rq s. StatusPg (handle_status_json rq s))),
      open_route Get (path_pattern ''/api/v1/config-persistence'') (showing (\<lambda>rq s. PersistencePg (handle_config_persistence s))),
      open_route Get [Seg ''status''] (showing (\<lambda>rq s. StatusPg (handle_status_page rq s))),
      open_route Get [Seg ''healthz''] (showing (\<lambda>rq s. HealthPg))]"

definition admin_routes :: "('k, 'sk, 'pk) outside \<Rightarrow> ('k, 'sk) routes" where
  "admin_routes ou =
     (let env = ou_env ou; get = gated_route Get admin_ui; post = (\<lambda>p. gated_route Post admin_ui (path_pattern p));
          pg = as_page AdminPg; pv = as_page ProvisionPg
      in [post ''/admin/access/reset-2fa'' (handle_admin_reset_2fa env),
          post ''/admin/2fa/disable'' (as_page LoginPg (handle_totp_disable_submit env (ou_hmac ou))),
          get (path_pattern ''/admin'') (pg (handle_admin_page env)),
          post ''/admin/rooms/save'' (pg (handle_admin_save_room env (ou_probe ou))),
          post ''/admin/rooms/delete'' (pg (handle_admin_delete_room env)),
          post ''/admin/wake/save'' (pg (handle_admin_save_wake_defaults env)),
          post ''/admin/alerts/save'' (pg (handle_admin_save_alerts env (ou_durations ou))),
          post ''/admin/notifications/save'' (handle_admin_save_notifications env (ou_crypto ou) (ou_channel_text ou)),
          post ''/admin/notifications/test'' (handle_admin_test_notification env (ou_crypto ou) (ou_channel_text ou) (ou_deliver ou)),
          post ''/admin/locations/save'' (pg (handle_admin_save_location env)),
          post ''/admin/locations/delete'' (pg (handle_admin_delete_location env)),
          post ''/admin/locations/default'' (pg (handle_admin_default_location env)),
          post ''/admin/locations/test-dm'' (pg (handle_admin_test_dm env (ou_lark ou))),
          post ''/admin/locations/test-group'' (pg (handle_admin_test_group env (ou_lark ou))),
          post ''/admin/firmware/save'' (pg (handle_admin_save_firmware env)),
          post ''/admin/fleet/save'' (pg (handle_admin_save_fleet_wifi env)),
          post ''/admin/access/save'' (pg (handle_admin_save_user env)),
          post ''/admin/access/delete'' (pg (handle_admin_delete_user env)),
          post ''/admin/access/reset-password'' (handle_admin_reset_password env),
          get (path_pattern ''/admin/api/provision-preflight'') (pv (handle_provision_preflight (ou_files ou))),
          post ''/admin/api/provision-nvs'' (pv (handle_provision_mint env (ou_mint ou) (ou_files ou))),
          get [Seg ''admin'', Seg ''provision'', Wild ''nonce'', Seg ''manifest.json''] (pv (handle_provision_manifest (ou_files ou))),
          get [Seg ''admin'', Seg ''provision'', Wild ''nonce'', Seg ''nvs.bin''] (pv handle_provision_nvs_image)])"

definition open_routes :: "('k, 'sk, 'pk) outside \<Rightarrow> ('k, 'sk) routes" where
  "open_routes ou =
     [open_route Get (path_pattern ''/forgot-password'') (as_page ResetPg handle_forgot_password_page),
      open_route Post (path_pattern ''/forgot-password'') (as_page ResetPg handle_forgot_password_submit),
      open_route Get (path_pattern ''/reset-password'') (as_page ResetPg handle_reset_page),
      open_route Post (path_pattern ''/reset-password'') (as_page ResetPg (handle_reset_submit (ou_env ou) (ou_err_text ou)))]"

definition subtree_routes :: "('k, 'sk, 'pk) outside \<Rightarrow> ('k, 'sk) routes" where
  "subtree_routes ou =
     [open_route Get [Seg []] (go_to (ui_home viewer_ui)),
      open_route Get [Seg ''admin'', Subtree] (go_to (ui_home admin_ui)),
      open_route Get [Seg ''manager'', Subtree] (go_to (ui_home manager_ui)),
      open_route Get [Seg ''dashboard'', Subtree] (go_to (ui_home viewer_ui)),
      open_route Get [Seg ''assets'', Seg ''fonts'', Subtree] (static_file [])]
     @ (if ou_firmware_dir ou = [] then []
        else [open_route Get [Seg ''firmware'', Subtree] (static_file (ou_firmware_dir ou))])"

definition route_table :: "('k, 'sk, 'pk) outside \<Rightarrow> ('k, 'sk) routes" where
  "route_table ou =
     machine_routes ou
     @ push_routes ou admin_ui @ push_routes ou manager_ui
     @ door_routes ou admin_ui @ admin_routes ou
     @ door_routes ou manager_ui
     @ [gated_route Get manager_ui (path_pattern ''/manager'') (as_page ManagerPg (handle_manager_page (ou_env ou))),
        gated_route Post manager_ui (path_pattern ''/manager/wake/save'') (as_page ManagerPg (handle_manager_save_wake (ou_env ou)))]
     @ door_routes ou viewer_ui @ open_routes ou
     @ [gated_route Get viewer_ui (path_pattern ''/dashboard'') (as_page ViewerPg (handle_dashboard_page (ou_env ou))),
        gated_route Get viewer_ui [Seg ''dashboard'', Seg ''preview'', Wild ''device_id'']
          (as_page ViewerPg (handle_dashboard_preview (ou_env ou)))]
     @ subtree_routes ou"

section \<open>Serving a request\<close>

definition run_route :: "'k app_env \<Rightarrow> ('k, 'sk) route \<Rightarrow> (site_page, ('k, 'sk) provision_server) handler" where
  "run_route env ro = (case ro_door ro of None \<Rightarrow> ro_handler ro | Some ui \<Rightarrow> require_role env ui (ro_handler ro))"

definition matches :: "request \<Rightarrow> ('k, 'sk) route \<Rightarrow> bool" where
  "matches rq ro \<longleftrightarrow> match_path (ro_pattern ro) (segments (rq_path rq)) \<noteq> None"

definition bind_params :: "('k, 'sk) route \<Rightarrow> request \<Rightarrow> request" where
  "bind_params ro rq =
     (case match_path (ro_pattern ro) (segments (rq_path rq)) of
        None \<Rightarrow> rq
      | Some bs \<Rightarrow> rq\<lparr>rq_param := (\<lambda>n. case map_of bs n of None \<Rightarrow> [] | Some v \<Rightarrow> v)\<rparr>)"

text \<open>The name of a subtree without its slash is redirected to it; a path that only other methods know is
  answered 405.\<close>

definition with_slash :: "request \<Rightarrow> request" where
  "with_slash rq = rq\<lparr>rq_path := rq_path rq @ ''/''\<rparr>"

definition serve :: "('k, 'sk, 'pk) outside \<Rightarrow> meth \<Rightarrow> (site_page, ('k, 'sk) provision_server) handler" where
  "serve ou m rq s =
     (case find_first (\<lambda>ro. ro_method ro = m \<and> matches rq ro) (route_table ou) of
        Some ro \<Rightarrow> run_route (ou_env ou) ro (bind_params ro rq) s
      | None \<Rightarrow>
          if \<exists>ro \<in> set (route_table ou). ro_method ro = m \<and> matches (with_slash rq) ro
          then (redirect (to_path (rq_path rq @ ''/'')), s)
          else if \<exists>ro \<in> set (route_table ou). matches rq ro \<or> matches (with_slash rq) ro
          then (answer_web (HttpError 405), s)
          else (answer_web (HttpError 404), s))"

fun serve_all :: "('k, 'sk, 'pk) outside \<Rightarrow> (meth \<times> request) list \<Rightarrow> ('k, 'sk) provision_server \<Rightarrow> ('k, 'sk) provision_server" where
  "serve_all ou [] s = s"
| "serve_all ou ((m, rq) # rqs) s = serve_all ou rqs (snd (serve ou m rq s))"

section \<open>Every route keeps the server sound\<close>

text \<open>What is asked of the parameters that are handed the state: telling somebody something changes no
  configuration except to a valid one, and brings no session.\<close>

definition outside_quiet :: "('k, 'sk, 'pk) outside \<Rightarrow> bool" where
  "outside_quiet ou \<longleftrightarrow>
     (\<forall>subs n m s. quiet_step (ou_env ou) s (snd (ou_deliver ou subs n m s)))
     \<and> (\<forall>lk k t m s. quiet_step (ou_env ou) s (snd (ou_lark ou lk k t m s)))"

lemma snd_as_page [simp]: "snd (as_page f h rq s) = snd (h rq s)"
  by (simp add: as_page_def split_def Let_def)

lemma display_quiet: "quiet_step env s (snd (handle_display env now d authz inm s))"
proof -
  have upd: "quiet_step env s (s\<lparr>sv_tlm := t, sv_cache := c\<rparr>)" for t c
    by (simp add: quiet_step_def sound_def derived_fresh_def sessions_from_def world_kept_def)
  show ?thesis by (auto simp: handle_display_def Let_def upd split: option.split prod.split)
qed

lemma telemetry_quiet: "quiet_step env s (snd (snd (snd (handle_telemetry env dec now d authz body s))))"
proof -
  have upd: "quiet_step env s (s\<lparr>sv_tlm := t, sv_alerts := a\<rparr>)" for t a
    by (simp add: quiet_step_def sound_def derived_fresh_def sessions_from_def world_kept_def)
  show ?thesis by (auto simp: handle_telemetry_def Let_def upd split: option.split prod.split)
qed

lemma reading_routes_keep [simp]:
  "snd (showing f rq s) = s" "snd (go_to p rq s) = s" "snd (static_file p rq s) = s"
  "snd (handle_login_page ui rq s) = s" "snd (handle_change_password_page ui rq s) = s"
  "snd (handle_totp_verify_page ui rq s) = s"
  by (simp_all add: showing_def go_to_def static_file_def handle_login_page_def handle_change_password_page_def
      handle_totp_verify_page_def Let_def)

lemma reset_pages_keep [simp]: "snd (handle_forgot_password_page rq s) = s" "snd (handle_reset_page rq s) = s"
  by (simp_all add: handle_forgot_password_page_def handle_reset_page_def when_enabled_def split: option.split)

abbreviation good_table :: "('k, 'sk, 'pk) outside \<Rightarrow> ('k, 'sk) routes \<Rightarrow> bool" where
  "good_table ou \<equiv> list_all (\<lambda>ro. \<forall>rq s. good_step (ou_env ou) (ou_hmac ou) rq s (snd (ro_handler ro rq s)))"

lemmas route_defs = open_route_def gated_route_def Let_def

lemma machine_routes_good: "good_table ou (machine_routes ou)"
  using quiet_good [OF display_quiet] quiet_good [OF telemetry_quiet]
  by (auto simp: machine_routes_def route_defs display_handler_def telemetry_handler_def split_def)

lemma door_routes_good: "good_table ou (door_routes ou ui)"
  by (simp add: door_routes_def route_defs login_good)

lemma push_routes_good: "good_table ou (push_routes ou ui)"
  by (simp add: push_routes_def route_defs quiet_good handle_notifications_page_quiet handle_push_subscribe_quiet
      handle_push_unsubscribe_quiet)

lemma admin_routes_good:
  assumes "outside_quiet ou"
  shows "good_table ou (admin_routes ou)"
proof -
  have "quiet_step (ou_env ou) s (snd (handle_admin_test_notification (ou_env ou) (ou_crypto ou) (ou_channel_text ou) (ou_deliver ou) rq s :: site_page web \<times> _))"
    "quiet_step (ou_env ou) s (snd (handle_admin_test_dm (ou_env ou) (ou_lark ou) rq s))"
    "quiet_step (ou_env ou) s (snd (handle_admin_test_group (ou_env ou) (ou_lark ou) rq s))" for rq s
    using assms
    by (auto simp: outside_quiet_def handle_admin_test_dm_def handle_admin_test_group_def
        intro: handle_test_notification_quiet test_location_quiet)
  then show ?thesis
    by (simp add: admin_routes_def route_defs quiet_good handle_totp_disable_quiet handle_admin_reset_2fa_quiet
        admin_page_quiet save_room_quiet delete_room_quiet save_wake_defaults_quiet save_alerts_quiet
        handle_save_notifications_quiet location_handlers_quiet save_firmware_quiet save_fleet_wifi_quiet
        save_user_quiet delete_user_quiet handle_admin_reset_password_quiet provision_quiet)
qed

lemma open_routes_good: "good_table ou (open_routes ou)"
  by (simp add: open_routes_def route_defs quiet_good handle_forgot_password_quiet handle_reset_submit_quiet)

lemma subtree_routes_good: "good_table ou (subtree_routes ou)"
  by (simp add: subtree_routes_def route_defs)

lemma route_table_good:
  assumes "outside_quiet ou" "ro \<in> set (route_table ou)"
  shows "good_step (ou_env ou) (ou_hmac ou) rq s (snd (ro_handler ro rq s))"
proof -
  have "good_table ou (route_table ou)"
    using admin_routes_good [OF assms(1)]
    by (simp add: route_table_def machine_routes_good door_routes_good push_routes_good open_routes_good
        subtree_routes_good route_defs quiet_good manager_page_quiet manager_save_quiet dashboard_quiet)
  then show ?thesis using assms(2) by (simp add: list_all_iff)
qed

text \<open>Binding the wildcards changes nothing that the gate or a login reads.\<close>

lemma session_of_param [simp]: "session_of env ui (rq\<lparr>rq_param := p\<rparr>) s = session_of env ui rq s"
  by (simp add: session_of_def split: option.split)

lemma earns_param [simp]: "earns env hm (rq\<lparr>rq_param := p\<rparr>) s x = earns env hm rq s x"
  by (subst (1 2) earns.simps) simp

lemma bind_params_form: "\<exists>p. bind_params ro rq = rq\<lparr>rq_param := p\<rparr>"
  by (auto simp: bind_params_def split: option.split intro: exI [of _ "rq_param rq"])

lemma good_step_bind [simp]: "good_step env hm (bind_params ro rq) s s' = good_step env hm rq s s'"
proof -
  obtain p where p: "bind_params ro rq = rq\<lparr>rq_param := p\<rparr>" using bind_params_form by blast
  show ?thesis unfolding p good_step_def sessions_from_def earns_param by (rule refl)
qed

lemma serve_cases:
  obtains ro where "ro \<in> set (route_table ou)" "ro_method ro = m" "matches rq ro"
      "serve ou m rq s = run_route (ou_env ou) ro (bind_params ro rq) s"
  | t where "serve ou m rq s = (redirect (to_path t), s)"
  | n where "serve ou m rq s = (answer_web (HttpError n), s)"
proof (cases "find_first (\<lambda>ro. ro_method ro = m \<and> matches rq ro) (route_table ou)")
  case None
  show ?thesis
  proof (cases "\<exists>ro \<in> set (route_table ou). ro_method ro = m \<and> matches (with_slash rq) ro")
    case True
    then show ?thesis by (intro that(2)) (simp add: serve_def None)
  next
    case False
    then have "\<exists>n. serve ou m rq s = (answer_web (HttpError n), s)" by (auto simp: serve_def None)
    then show ?thesis using that(3) by blast
  qed
next
  case (Some ro)
  then show ?thesis using that(1) [of ro] find_first_Some [OF Some] by (simp add: serve_def)
qed

lemma serve_good:
  assumes "outside_quiet ou"
  shows "good_step (ou_env ou) (ou_hmac ou) rq s (snd (serve ou m rq s))"
proof (cases rule: serve_cases [of ou m rq s])
  case (1 ro)
  let ?rq = "bind_params ro rq"
  have h: "good_step (ou_env ou) (ou_hmac ou) ?rq s (snd (ro_handler ro ?rq s))"
    by (rule route_table_good [OF assms 1(1)])
  then have "good_step (ou_env ou) (ou_hmac ou) ?rq s (snd (run_route (ou_env ou) ro ?rq s))"
    by (cases "ro_door ro") (simp_all add: run_route_def good_require_role del: good_step_bind)
  then show ?thesis using 1(4) by simp
qed simp_all

section \<open>Any sequence of requests\<close>

lemma serve_all_snoc: "serve_all ou (rqs @ [(m, rq)]) s = snd (serve ou m rq (serve_all ou rqs s))"
  by (induction rqs arbitrary: s) auto

lemma serve_all_sound:
  assumes "outside_quiet ou" "sound (ou_env ou) s"
  shows "sound (ou_env ou) (serve_all ou rqs s)"
proof (induction rqs rule: rev_induct)
  case (snoc r rqs)
  then show ?case
    using serve_good [OF assms(1), of "snd r" "serve_all ou rqs s" "fst r"] serve_all_snoc [of ou rqs "fst r" "snd r" s]
    by (simp add: good_step_def)
qed (simp add: assms)

text \<open>Whatever requests arrive in whatever order, by whomever, the live configuration stays valid and the
  device tokens, names and logins that requests are checked against stay those of that
  configuration.\<close>

lemma site_stays_sound:
  assumes "outside_quiet ou" "well_formed (ae_go (ou_env ou)) (co_cfg s)" "derived_fresh s"
  shows "well_formed (ae_go (ou_env ou)) (co_cfg (serve_all ou rqs s)) \<and> derived_fresh (serve_all ou rqs s)"
  using serve_all_sound [OF assms(1), of s rqs] assms(2,3) by (simp add: sound_def)

text \<open>The request that a session without a pending second factor goes back to: a password of an account that
  has none, or a code that the account's secret accepts.\<close>

definition proves_factor :: "'k app_env \<Rightarrow> hmac \<Rightarrow> request \<Rightarrow> ('k, 'x) server_scheme \<Rightarrow> session \<Rightarrow> bool" where
  "proves_factor env hm rq s x \<longleftrightarrow> (\<exists>f. rq_form rq = Some f
     \<and> (form_get f ''username'' = sn_username x
          \<and> (\<exists>r. verify (ae_sha env) (dv_directory (co_derived s)) (form_get f ''username'') (form_get f ''password'') = Some r
                \<and> \<not> vr_totp r \<and> vr_role r = sn_role x)
        \<or> (\<exists>u. user_by_username (co_cfg s) (sn_username x) = Some u \<and> us_totp_secret u \<noteq> []
              \<and> verify_totp hm (us_totp_secret u) (form_get f ''code'') (rq_now rq))))"

lemma earns_factor:
  assumes "earns env hm rq s x" "\<not> sf_pending_2fa (sn_flags x)"
  obtains "proves_factor env hm rq s x"
  | ui y where "session_of env ui rq s = Some y" "\<not> sf_pending_2fa (sn_flags y)"
      "sn_role y = sn_role x" "sn_username y = sn_username x"
  using assms by (cases rule: earns.cases) (auto simp: proves_factor_def)

lemma factor_traced:
  assumes "outside_quiet ou" "\<And>later t. alive (ae_sha (ou_env ou)) (sv_sessions s) later t = None"
    and "alive (ae_sha (ou_env ou)) (sv_sessions (serve_all ou rqs s)) later t = Some x" "\<not> sf_pending_2fa (sn_flags x)"
  shows "\<exists>i < length rqs. proves_factor (ou_env ou) (ou_hmac ou) (snd (rqs ! i)) (serve_all ou (take i rqs) s) x"
  using assms(3,4)
proof (induction rqs arbitrary: later t x rule: rev_induct)
  case (snoc r rqs)
  let ?s = "serve_all ou rqs s" and ?P = "\<lambda>rqs x. \<exists>i < length rqs.
      proves_factor (ou_env ou) (ou_hmac ou) (snd (rqs ! i)) (serve_all ou (take i rqs) s) x"
  have later: "?P (rqs @ [r]) x" if "?P rqs x" for x
    using that by (auto simp: nth_append intro: less_SucI)
  have same: "?P rqs x" if "?P rqs y" "sn_role y = sn_role x" "sn_username y = sn_username x" for x y
    using that by (simp add: proves_factor_def)
  have "alive (ae_sha (ou_env ou)) (sv_sessions ?s) later t = Some x \<or> earns (ou_env ou) (ou_hmac ou) (snd r) ?s x"
    using serve_good [OF assms(1), of "snd r" ?s "fst r"] snoc.prems(1) serve_all_snoc [of ou rqs "fst r" "snd r" s]
    by (auto simp: good_step_def sessions_from_def)
  then show ?case
  proof
    assume "alive (ae_sha (ou_env ou)) (sv_sessions ?s) later t = Some x"
    then show ?case using snoc.IH snoc.prems(2) later by blast
  next
    assume e: "earns (ou_env ou) (ou_hmac ou) (snd r) ?s x"
    show ?case
    proof (cases rule: earns_factor [OF e snoc.prems(2)])
      case 1
      then show ?thesis by (intro exI [of _ "length rqs"]) simp
    next
      case (2 ui y)
      then obtain u where "alive (ae_sha (ou_env ou)) (sv_sessions ?s) (rq_now (snd r)) u = Some y"
        by (auto simp: session_of_def split: option.splits)
      then have "?P rqs y" using snoc.IH 2(2) by blast
      then show ?thesis using same [OF _ 2(3,4)] later by blast
    qed
  qed
qed (use assms(2) in simp)

text \<open>C26. A second factor cannot be skipped: on a server that started without sessions, a session that is not
  waiting for a code goes back to a request that proved it, by a correct password when the account
  had no second factor, or by a code that the account's secret accepts at that time.\<close>

theorem second_factor_not_skipped:
  assumes "outside_quiet ou" "\<And>later t. alive (ae_sha (ou_env ou)) (sv_sessions s) later t = None"
    and "alive (ae_sha (ou_env ou)) (sv_sessions (serve_all ou rqs s)) later t = Some x" "\<not> sf_pending_2fa (sn_flags x)"
  shows "\<exists>i < length rqs. \<exists>f. rq_form (snd (rqs ! i)) = Some f
    \<and> (form_get f ''username'' = sn_username x
        \<and> (\<exists>r. verify (ae_sha (ou_env ou)) (dv_directory (co_derived (serve_all ou (take i rqs) s)))
                (form_get f ''username'') (form_get f ''password'') = Some r \<and> \<not> vr_totp r \<and> vr_role r = sn_role x)
      \<or> (\<exists>u. user_by_username (co_cfg (serve_all ou (take i rqs) s)) (sn_username x) = Some u \<and> us_totp_secret u \<noteq> []
            \<and> verify_totp (ou_hmac ou) (us_totp_secret u) (form_get f ''code'') (rq_now (snd (rqs ! i)))))"
  using factor_traced [OF assms] unfolding proves_factor_def .

section \<open>Nothing is shown or saved without a session\<close>

text \<open>What anybody may see behind a door: its login page and the service worker.\<close>

definition public_answer :: "site_page answer \<Rightarrow> bool" where
  "public_answer a \<longleftrightarrow> (case a of
     Page p \<Rightarrow> (case p of LoginPg l \<Rightarrow> (case l of LoginPage _ _ _ _ _ \<Rightarrow> True | _ \<Rightarrow> False) | FilePg _ \<Rightarrow> True | _ \<Rightarrow> False)
   | _ \<Rightarrow> True)"

lemma public_simps [simp]:
  "public_answer (SeeOther t)" "public_answer (Elsewhere d)" "public_answer (HttpError n)" "public_answer NoContent"
  "public_answer (Page (FilePg p))" "public_answer (Page (LoginPg (LoginPage label action nxt err forgot)))"
  by (simp_all add: public_answer_def)

definition harmless :: "('k, 'sk) route \<Rightarrow> bool" where
  "harmless ro \<longleftrightarrow> (\<forall>rq s. co_cfg (snd (ro_handler ro rq s)) = co_cfg s \<and> public_answer (wb_answer (fst (ro_handler ro rq s))))"

text \<open>Every pattern below a door's home is gated by that door, or harmless.\<close>

definition home_seg :: "role_ui \<Rightarrow> string" where "home_seg ui = hd (segments (ui_home ui))"

definition covered :: "role_ui \<Rightarrow> ('k, 'sk) route \<Rightarrow> bool" where
  "covered ui ro \<longleftrightarrow> (case ro_pattern ro of
     Seg a # ps \<Rightarrow> a \<noteq> home_seg ui \<or> ro_door ro = Some ui \<or> harmless ro
   | _ \<Rightarrow> False)"

lemma fst_as_page: "wb_answer (fst (as_page f h rq s)) = map_answer f (wb_answer (fst (h rq s)))"
  by (simp add: as_page_def split_def Let_def)

lemma login_harmless:
  "harmless (open_route m p (as_page LoginPg (handle_login_page ui)))"
  "harmless (open_route m p (as_page LoginPg (handle_login_submit env ui)))"
  "harmless (open_route m p (as_page LoginPg (handle_logout env ui)))"
  "harmless (open_route m p (go_to t))" "harmless (open_route m p (static_file f))"
  by (auto simp: harmless_def open_route_def fst_as_page handle_login_page_def handle_login_submit_def with_form_def
      handle_logout_def start_session_def end_session_def go_to_def static_file_def Let_def split: option.split)

lemma home_segs: "home_seg admin_ui = ''admin''" "home_seg manager_ui = ''manager''" "home_seg viewer_ui = ''dashboard''"
  by (simp_all add: home_seg_def door_defs segments_def)

lemma covered_open:
  "covered ui (open_route m p h) \<longleftrightarrow>
     (case p of Seg a # ps \<Rightarrow> a \<noteq> home_seg ui \<or> harmless (open_route m p h) | _ \<Rightarrow> False)"
  "covered ui (gated_route m ui' p h) \<longleftrightarrow>
     (case p of Seg a # ps \<Rightarrow> a \<noteq> home_seg ui \<or> ui' = ui \<or> harmless (gated_route m ui' p h) | _ \<Rightarrow> False)"
  by (simp_all add: covered_def open_route_def gated_route_def split: list.split seg.split)

lemmas path_eval = path_pattern_def segments_def

lemma door_fields:
  "ui_home admin_ui = ''/admin''" "ui_home manager_ui = ''/manager''" "ui_home viewer_ui = ''/dashboard''"
  "ui_login admin_ui = ''/admin/login''" "ui_login manager_ui = ''/manager/login''" "ui_login viewer_ui = ''/dashboard/login''"
  "ui_change admin_ui = ''/admin/change-password''" "ui_change manager_ui = ''/manager/change-password''"
  "ui_change viewer_ui = ''/dashboard/change-password''"
  "ui_totp_verify admin_ui = ''/admin/verify-2fa''" "ui_totp_verify manager_ui = ''/manager/verify-2fa''"
  "ui_totp_verify viewer_ui = ''/dashboard/verify-2fa''"
  "ui_totp_setup admin_ui = ''/admin/2fa/setup''" "ui_totp_setup manager_ui = ''/manager/2fa/setup''"
  "ui_totp_setup viewer_ui = ''/dashboard/2fa/setup''"
  "ui_totp_enable admin_ui = ''/admin/2fa/enable''" "ui_totp_enable manager_ui = ''/manager/2fa/enable''"
  "ui_totp_enable viewer_ui = ''/dashboard/2fa/enable''"
  by (simp_all add: door_defs)

lemma door_cases: "ui \<in> doors \<Longrightarrow> (P viewer_ui \<Longrightarrow> P manager_ui \<Longrightarrow> P admin_ui \<Longrightarrow> P ui)"
  by (auto simp: doors_def)

lemmas table_eval = covered_open login_harmless home_segs path_eval door_fields Let_def

text \<open>The first segments of the patterns, which the gate's table is read by.\<close>

lemma door_heads:
  assumes "ui \<in> doors"
  shows "path_pattern (ui_login ui) = [Seg (home_seg ui), Seg ''login'']"
    "path_pattern (ui_home ui @ ''/logout'') = [Seg (home_seg ui), Seg ''logout'']"
    "path_pattern (ui_change ui) = [Seg (home_seg ui), Seg ''change-password'']"
    "path_pattern (ui_totp_verify ui) = [Seg (home_seg ui), Seg ''verify-2fa'']"
    "path_pattern (ui_totp_setup ui) = [Seg (home_seg ui), Seg ''2fa'', Seg ''setup'']"
    "path_pattern (ui_totp_enable ui) = [Seg (home_seg ui), Seg ''2fa'', Seg ''enable'']"
    "path_pattern (ui_home ui @ ''/push-sw.js'') = [Seg (home_seg ui), Seg ''push-sw.js'']"
    "path_pattern (ui_home ui @ ''/notifications'') = [Seg (home_seg ui), Seg ''notifications'']"
    "path_pattern (ui_home ui @ ''/api/push/subscribe'') = [Seg (home_seg ui), Seg ''api'', Seg ''push'', Seg ''subscribe'']"
    "path_pattern (ui_home ui @ ''/api/push/unsubscribe'') = [Seg (home_seg ui), Seg ''api'', Seg ''push'', Seg ''unsubscribe'']"
  using assms by (auto simp: doors_def home_segs path_eval door_fields)

lemma home_seg_inj: "ui \<in> doors \<Longrightarrow> ui' \<in> doors \<Longrightarrow> home_seg ui' = home_seg ui \<longleftrightarrow> ui' = ui"
  by (auto simp: doors_def home_segs)

lemma door_table_covered:
  assumes "ui \<in> doors" "ui' \<in> doors"
  shows "list_all (covered ui) (door_routes ou ui')" "list_all (covered ui) (push_routes ou ui')"
  using home_seg_inj [OF assms]
  by (simp_all add: door_routes_def push_routes_def Let_def covered_open login_harmless door_heads [OF assms(2)])

lemma other_tables_covered:
  assumes "ui \<in> doors"
  shows "list_all (covered ui) (machine_routes ou)" "list_all (covered ui) (open_routes ou)"
    "list_all (covered ui) (subtree_routes ou)"
  by (rule door_cases [OF assms]; simp add: machine_routes_def open_routes_def subtree_routes_def table_eval)+

lemma admin_table_covered:
  assumes "ui \<in> doors"
  shows "list_all (covered ui) (admin_routes ou)"
  using assms by (rule door_cases; simp add: admin_routes_def table_eval)

lemma route_table_covered:
  fixes ou :: "('k, 'sk, 'pk) outside"
  assumes "ui \<in> doors"
  shows "list_all (covered ui) (route_table ou)"
proof -
  have d: "viewer_ui \<in> doors" "manager_ui \<in> doors" "admin_ui \<in> doors" by (simp_all add: doors_def)
  have "list_all (covered ui)
      ([gated_route Get manager_ui (path_pattern ''/manager'') (as_page ManagerPg (handle_manager_page (ou_env ou))),
       gated_route Post manager_ui (path_pattern ''/manager/wake/save'') (as_page ManagerPg (handle_manager_save_wake (ou_env ou))),
       gated_route Get viewer_ui (path_pattern ''/dashboard'') (as_page ViewerPg (handle_dashboard_page (ou_env ou))),
       gated_route Get viewer_ui [Seg ''dashboard'', Seg ''preview'', Wild ''device_id'']
         (as_page ViewerPg (handle_dashboard_preview (ou_env ou)))] :: ('k, 'sk) routes)"
    using assms by (rule door_cases; simp add: table_eval)
  then show ?thesis
    by (simp add: route_table_def door_table_covered [OF assms d(1)] door_table_covered [OF assms d(2)]
        door_table_covered [OF assms d(3)] other_tables_covered [OF assms] admin_table_covered [OF assms])
qed

lemma refused_harmless:
  assumes "\<And>x. session_of env ui rq s = Some x \<Longrightarrow> \<not> admitted (co_cfg s) ui (rq_path rq) x"
  shows "co_cfg (snd (require_role env ui h rq s)) = co_cfg s \<and> public_answer (wb_answer (fst (require_role env ui h rq s)))"
proof (cases "session_of env ui rq s")
  case None
  then show ?thesis by (simp add: require_role_none)
next
  case (Some x)
  then show ?thesis using require_role_refuses [OF Some assms [OF Some], of h] by auto
qed

lemma match_path_Cons: "match_path (Seg a # ps) xs = Some b \<Longrightarrow> xs \<noteq> [] \<and> hd xs = a"
  by (cases xs) (auto split: if_splits)

lemma bind_params_read [simp]:
  "session_of env ui (bind_params ro rq) s = session_of env ui rq s" "rq_path (bind_params ro rq) = rq_path rq"
  using bind_params_form [of ro rq] by auto

text \<open>C25. Behind each of the three doors nothing is shown and nothing is saved without a session that the gate
  admits: whatever is asked for below the door's path, with whatever method, the answer is a
  redirect, an error, the login page or the static service worker, and the configuration stays.\<close>

theorem pages_are_gated:
  assumes "ui \<in> doors" "segments (rq_path rq) = home_seg ui # ps"
    and "\<And>x. session_of (ou_env ou) ui rq s = Some x \<Longrightarrow> \<not> admitted (co_cfg s) ui (rq_path rq) x"
  shows "co_cfg (snd (serve ou m rq s)) = co_cfg s \<and> public_answer (wb_answer (fst (serve ou m rq s)))"
proof (cases rule: serve_cases [of ou m rq s])
  case (1 ro)
  let ?rq = "bind_params ro rq"
  have "covered ui ro" using route_table_covered [OF assms(1), of ou] 1(1) by (simp add: list_all_iff)
  then obtain a qs where a: "ro_pattern ro = Seg a # qs" "a \<noteq> home_seg ui \<or> ro_door ro = Some ui \<or> harmless ro"
    by (auto simp: covered_def split: list.splits seg.splits)
  then have "a = home_seg ui" using 1(3) assms(2) match_path_Cons by (fastforce simp: matches_def)
  with a consider "ro_door ro = Some ui" | "ro_door ro = None" "harmless ro" | ui' where "ro_door ro = Some ui'" "harmless ro"
    by (cases "ro_door ro") auto
  then have "co_cfg (snd (run_route (ou_env ou) ro ?rq s)) = co_cfg s \<and> public_answer (wb_answer (fst (run_route (ou_env ou) ro ?rq s)))"
  proof cases
    case 1
    show ?thesis unfolding run_route_def 1 option.case by (rule refused_harmless) (use assms(3) in simp)
  next
    case 2
    then show ?thesis by (simp add: run_route_def harmless_def)
  next
    case (3 ui')
    show ?thesis
    proof (cases "\<exists>x. session_of (ou_env ou) ui' ?rq s = Some x \<and> admitted (co_cfg s) ui' (rq_path ?rq) x")
      case True
      then show ?thesis using 3 by (auto simp: run_route_def harmless_def require_role_passes)
    next
      case False
      then show ?thesis unfolding run_route_def 3(1) option.case by (intro refused_harmless) auto
    qed
  qed
  with 1(4) show ?thesis by simp
qed simp_all

end
