(* ===== verification/Site.thy ===== *)
theory Site
  imports Routes
begin

text \<open>
  What somebody meets who opens the site: a browser that follows the redirects of
  \<open>internal/server/login.go\<close>'s gate from page to page. The loop may run forever, so it is a partial
  function whose value is \<open>None\<close> then; the lemmas say exactly when it ends. The theory also applies
  the theorems about the whole site to a concrete one.
\<close>

section \<open>Following redirects\<close>

definition redirect_of :: "'p answer \<Rightarrow> (string \<times> (string \<times> msg) list) option" where
  "redirect_of a = (case a of SeeOther t \<Rightarrow> (case t of Target p q frag \<Rightarrow> Some (p, q)) | _ \<Rightarrow> None)"

definition follow_to :: "('k, 'sk, 'pk) outside \<Rightarrow> request \<Rightarrow> string \<times> (string \<times> msg) list \<Rightarrow> request" where
  "follow_to ou rq t =
     rq\<lparr>rq_path := fst t, rq_query := (\<lambda>k. case map_of (snd t) k of None \<Rightarrow> [] | Some m \<Rightarrow> ou_err_text ou m)\<rparr>"

partial_function (option) browse ::
  "('k, 'sk, 'pk) outside \<Rightarrow> request \<Rightarrow> ('k, 'sk) provision_server \<Rightarrow> site_page answer option" where
  "browse ou rq s =
     (case redirect_of (wb_answer (fst (serve ou Get rq s))) of
        None \<Rightarrow> Some (wb_answer (fst (serve ou Get rq s)))
      | Some t \<Rightarrow> browse ou (follow_to ou rq t) (snd (serve ou Get rq s)))"

section \<open>The pages behind a door\<close>

lemmas route_eval = route_table_def machine_routes_def push_routes_def door_routes_def admin_routes_def open_routes_def
  subtree_routes_def matches_def path_eval door_fields open_route_def gated_route_def Let_def

abbreviation get_route :: "('k, 'sk, 'pk) outside \<Rightarrow> string \<Rightarrow> ('k, 'sk) route option" where
  "get_route ou p \<equiv> find_first (\<lambda>ro. ro_method ro = Get \<and> match_path (ro_pattern ro) (segments p) \<noteq> None) (route_table ou)"

lemma home_routes:
  fixes ou :: "('k, 'sk, 'pk) outside"
  shows "get_route ou ''/admin'' = Some (gated_route Get admin_ui (path_pattern ''/admin'') (as_page AdminPg (handle_admin_page (ou_env ou))))"
    "get_route ou ''/manager'' = Some (gated_route Get manager_ui (path_pattern ''/manager'') (as_page ManagerPg (handle_manager_page (ou_env ou))))"
    "get_route ou ''/dashboard'' = Some (gated_route Get viewer_ui (path_pattern ''/dashboard'') (as_page ViewerPg (handle_dashboard_page (ou_env ou))))"
  by (simp_all add: route_eval)

lemma verify_routes:
  fixes ou :: "('k, 'sk, 'pk) outside"
  shows "ui \<in> doors \<Longrightarrow> get_route ou (ui_totp_verify ui)
    = Some (gated_route Get ui (path_pattern (ui_totp_verify ui)) (as_page LoginPg (handle_totp_verify_page ui)))"
  by (erule door_cases; simp add: route_eval)

lemma setup_routes:
  fixes ou :: "('k, 'sk, 'pk) outside"
  shows "ui \<in> doors \<Longrightarrow> get_route ou (ui_totp_setup ui)
    = Some (gated_route Get ui (path_pattern (ui_totp_setup ui)) (as_page LoginPg (handle_totp_setup_page (ou_env ou) ui)))"
  by (erule door_cases; simp add: route_eval)

lemma change_routes:
  fixes ou :: "('k, 'sk, 'pk) outside"
  shows "ui \<in> doors \<Longrightarrow> get_route ou (ui_change ui)
    = Some (gated_route Get ui (path_pattern (ui_change ui)) (as_page LoginPg (handle_change_password_page ui)))"
  by (erule door_cases; simp add: route_eval)

section \<open>When a visit ends\<close>

lemma redirect_of_simps [simp]:
  "redirect_of (SeeOther (Target p q frag)) = Some (p, q)" "redirect_of (Page d) = None" "redirect_of (HttpError n) = None"
  by (simp_all add: redirect_of_def)

text \<open>The gate on a page of its own that is asked for with a live session.\<close>

definition settled :: "(site_page, 's) handler \<Rightarrow> request \<Rightarrow> 's \<Rightarrow> bool" where
  "settled h rq s \<longleftrightarrow> redirect_of (wb_answer (fst (h rq s))) = None"

lemma pages_settled:
  "settled (as_page AdminPg (handle_admin_page env)) rq s"
  "settled (as_page ManagerPg (handle_manager_page env)) rq s"
  "settled (as_page ViewerPg (handle_dashboard_page env)) rq s"
  "settled (as_page LoginPg (handle_totp_verify_page ui)) rq s"
  "settled (as_page LoginPg (handle_change_password_page ui)) rq s"
  by (auto simp: settled_def fst_as_page handle_admin_page_def handle_manager_page_def handle_dashboard_page_def
      handle_totp_verify_page_def handle_change_password_page_def session_account_eq Let_def split_def split: option.split)

lemma setup_settled:
  "session_of env ui rq s = Some x \<Longrightarrow> satisfies (sn_role x) (ui_role ui)
    \<Longrightarrow> settled (as_page LoginPg (handle_totp_setup_page env ui)) rq s"
  by (simp add: settled_def fst_as_page handle_totp_setup_page_def with_session_def current_session_eq)

text \<open>Where the gate sends a session that it does not admit.\<close>

definition sent_to :: "role_ui \<Rightarrow> string \<Rightarrow> session \<Rightarrow> string" where
  "sent_to ui path x =
     (if sf_must_change (sn_flags x) then ui_change ui
      else if sf_pending_2fa (sn_flags x) \<and> path \<noteq> ui_totp_verify ui then ui_totp_verify ui else ui_totp_setup ui)"

lemma gate_step:
  assumes "session_of env ui rq s = Some x" "satisfies (sn_role x) (ui_role ui)"
  shows "require_role env ui h rq s =
    (if admitted (co_cfg s) ui (rq_path rq) x then h rq s else (redirect (to_path (sent_to ui (rq_path rq) x)), s))"
  using assms session_of_cookie [OF assms(1)] by (auto simp: require_role_def look_up_known admitted_def sent_to_def)

lemma get_gated:
  assumes "get_route ou (rq_path rq) = Some (gated_route Get ui p h)"
  shows "serve ou Get rq s = require_role (ou_env ou) ui h (bind_params (gated_route Get ui p h) rq) s"
  using assms by (simp add: serve_def matches_def run_route_def gated_route_def)

definition door_pages :: "role_ui \<Rightarrow> string set" where
  "door_pages ui = {ui_home ui, ui_change ui, ui_totp_verify ui, ui_totp_setup ui}"

lemma door_page_route:
  fixes ou :: "('k, 'sk, 'pk) outside"
  assumes "ui \<in> doors" "p \<in> door_pages ui"
  obtains pat and h :: "(site_page, ('k, 'sk) provision_server) handler"
    where "get_route ou p = Some (gated_route Get ui pat h)"
      "\<And>rq s x. session_of (ou_env ou) ui rq s = Some x \<Longrightarrow> satisfies (sn_role x) (ui_role ui) \<Longrightarrow> settled h rq s"
proof -
  note that' = that [OF trans [OF arg_cong [where f = "get_route ou"]]]
  have home: thesis if "p = ui_home ui"
  proof -
    consider "ui = viewer_ui" | "ui = manager_ui" | "ui = admin_ui" using assms(1) by (auto simp: doors_def)
    then show ?thesis
    proof cases
      case 1
      show ?thesis by (rule that'(1)) (use 1 that in \<open>simp add: door_fields\<close>, rule home_routes(3) [folded 1], rule pages_settled(3))
    next
      case 2
      show ?thesis by (rule that'(1)) (use 2 that in \<open>simp add: door_fields\<close>, rule home_routes(2) [folded 2], rule pages_settled(2))
    next
      case 3
      show ?thesis by (rule that'(1)) (use 3 that in \<open>simp add: door_fields\<close>, rule home_routes(1) [folded 3], rule pages_settled(1))
    qed
  qed
  consider "p = ui_home ui" | "p = ui_change ui" | "p = ui_totp_verify ui" | "p = ui_totp_setup ui"
    using assms(2) by (auto simp: door_pages_def)
  then show ?thesis
  proof cases
    case 1
    then show ?thesis by (rule home)
  next
    case 2
    show ?thesis by (rule that' [OF 2 change_routes [OF assms(1)]]) (rule pages_settled(5))
  next
    case 3
    show ?thesis by (rule that' [OF 3 verify_routes [OF assms(1)]]) (rule pages_settled(4))
  next
    case 4
    show ?thesis by (rule that' [OF 4 setup_routes [OF assms(1)]]) (rule setup_settled)
  qed
qed

lemma sent_to_page: "sent_to ui path x \<in> door_pages ui"
  by (simp add: sent_to_def door_pages_def)

text \<open>One step of the visit: the page, or on to the page where the gate sends the session.\<close>

lemma serve_page:
  assumes "ui \<in> doors" "session_of (ou_env ou) ui rq s = Some x" "satisfies (sn_role x) (ui_role ui)" "rq_path rq \<in> door_pages ui"
  shows "if admitted (co_cfg s) ui (rq_path rq) x then redirect_of (wb_answer (fst (serve ou Get rq s))) = None
    else serve ou Get rq s = (redirect (to_path (sent_to ui (rq_path rq) x)), s)"
proof (rule door_page_route [OF assms(1,4), of ou])
  fix pat h assume h: "get_route ou (rq_path rq) = Some (gated_route Get ui pat h)"
      "\<And>rq s x. session_of (ou_env ou) ui rq s = Some x \<Longrightarrow> satisfies (sn_role x) (ui_role ui) \<Longrightarrow> settled h rq s"
  let ?rq = "bind_params (gated_route Get ui pat h) rq"
  have "session_of (ou_env ou) ui ?rq s = Some x" using assms(2) by simp
  then show ?thesis
    using get_gated [OF h(1), of s] gate_step [of "ou_env ou" ui ?rq s x h] h(2) [of ?rq s x] assms(3)
    by (simp add: settled_def)
qed

lemma follow_to_fields [simp]:
  "rq_path (follow_to ou rq t) = fst t" "session_of env ui (follow_to ou rq t) s = session_of env ui rq s"
  by (simp_all add: follow_to_def session_of_def split: option.split)

lemma browse_page:
  assumes "ui \<in> doors" "session_of (ou_env ou) ui rq s = Some x" "satisfies (sn_role x) (ui_role ui)" "rq_path rq \<in> door_pages ui"
  shows "admitted (co_cfg s) ui (rq_path rq) x \<Longrightarrow> browse ou rq s \<noteq> None"
    and "\<not> admitted (co_cfg s) ui (rq_path rq) x \<Longrightarrow>
      browse ou rq s = browse ou (follow_to ou rq (sent_to ui (rq_path rq) x, [])) s"
  using serve_page [OF assms] by (subst browse.simps, simp)+

text \<open>A session that waits for a code of a secret that is gone and has to be set up again.\<close>

definition torn :: "config \<Rightarrow> session \<Rightarrow> bool" where
  "torn cfg x \<longleftrightarrow> \<not> sf_must_change (sn_flags x) \<and> sf_pending_2fa (sn_flags x) \<and> needs_2fa_enrollment cfg x"

lemma door_pages_distinct:
  "ui \<in> doors \<Longrightarrow> distinct [ui_home ui, ui_change ui, ui_totp_verify ui, ui_totp_setup ui, ui_totp_enable ui]"
  by (erule door_cases; simp add: door_fields)

lemma torn_never_admitted:
  "ui \<in> doors \<Longrightarrow> torn cfg x \<Longrightarrow> \<not> admitted cfg ui p x"
  using door_pages_distinct [of ui] by (auto simp: torn_def admitted_def)

definition bears :: "('k, 'sk, 'pk) outside \<Rightarrow> role_ui \<Rightarrow> session \<Rightarrow> request \<Rightarrow> ('k, 'sk) provision_server \<Rightarrow> bool" where
  "bears ou ui x rq s \<longleftrightarrow> ui \<in> doors \<and> session_of (ou_env ou) ui rq s = Some x \<and> satisfies (sn_role x) (ui_role ui)
     \<and> rq_path rq \<in> door_pages ui"

lemma torn_loops: "browse ou rq s = Some a \<Longrightarrow> bears ou ui x rq s \<longrightarrow> \<not> torn (co_cfg s) x"
proof (rule browse.raw_induct [where P = "\<lambda>ou rq s a. bears ou ui x rq s \<longrightarrow> \<not> torn (co_cfg s) x"], intro impI notI)
  fix browse' ou rq s a
  assume ih: "\<And>rq s b y. browse' rq s b = Some y \<Longrightarrow> bears rq ui x s b \<longrightarrow> \<not> torn (co_cfg b) x"
    and body: "(case redirect_of (wb_answer (fst (serve ou Get rq s))) of
        None \<Rightarrow> Some (wb_answer (fst (serve ou Get rq s)))
      | Some t \<Rightarrow> browse' ou (follow_to ou rq t) (snd (serve ou Get rq s))) = Some a"
    and b: "bears ou ui x rq s" and t: "torn (co_cfg s) x"
  then have v: "ui \<in> doors" "session_of (ou_env ou) ui rq s = Some x" "satisfies (sn_role x) (ui_role ui)" "rq_path rq \<in> door_pages ui"
    by (simp_all add: bears_def)
  have "serve ou Get rq s = (redirect (to_path (sent_to ui (rq_path rq) x)), s)"
    using serve_page [OF v] torn_never_admitted [OF v(1) t] by simp
  then have "browse' ou (follow_to ou rq (sent_to ui (rq_path rq) x, [])) s = Some a" using body by simp
  from ih [OF this] t v show False by (simp add: sent_to_page bears_def)
qed

text \<open>C27. The gate's redirects end, for every signed-in session at every page of a door, except when the session
  waits for a code although the account's second factor is gone and two-factor is required of
  everybody: then the verification page and the set-up page redirect to each other for ever.\<close>

theorem visit_ends_iff:
  assumes "ui \<in> doors" "session_of (ou_env ou) ui rq s = Some x" "satisfies (sn_role x) (ui_role ui)" "rq_path rq \<in> door_pages ui"
  shows "browse ou rq s \<noteq> None \<longleftrightarrow>
    \<not> (\<not> sf_must_change (sn_flags x) \<and> sf_pending_2fa (sn_flags x) \<and> needs_2fa_enrollment (co_cfg s) x)"
proof
  assume "browse ou rq s \<noteq> None"
  then show "\<not> (\<not> sf_must_change (sn_flags x) \<and> sf_pending_2fa (sn_flags x) \<and> needs_2fa_enrollment (co_cfg s) x)"
    using torn_loops [of ou rq s _ ui x] assms by (auto simp: torn_def bears_def)
next
  assume n: "\<not> (\<not> sf_must_change (sn_flags x) \<and> sf_pending_2fa (sn_flags x) \<and> needs_2fa_enrollment (co_cfg s) x)"
  show "browse ou rq s \<noteq> None"
  proof (cases "admitted (co_cfg s) ui (rq_path rq) x")
    case True
    then show ?thesis by (rule browse_page(1) [OF assms])
  next
    case False
    let ?rq = "follow_to ou rq (sent_to ui (rq_path rq) x, [])"
    have "admitted (co_cfg s) ui (sent_to ui (rq_path rq) x) x"
      using n False assms(3) door_pages_distinct [OF assms(1)] by (auto simp: admitted_def sent_to_def)
    then have "browse ou ?rq s \<noteq> None"
      using browse_page(1) [of ui ou ?rq s x] assms sent_to_page by simp
    then show ?thesis using browse_page(2) [OF assms False] by simp
  qed
qed

section \<open>A concrete site\<close>

definition sample_outside :: "(unit, byte, byte) outside" where
  "sample_outside = \<lparr>ou_env = page_env, ou_hmac = (\<lambda>k m. replicate 20 0), ou_err_text = (\<lambda>m. []), ou_channel_text = (\<lambda>e. []),
     ou_crypto = sample_crypto, ou_probe = None, ou_durations = (\<lambda>s. None), ou_deliver = (\<lambda>subs n m s. (None, s)),
     ou_lark = (\<lambda>lk k t m s. (None, s)), ou_subscribe = (\<lambda>b. None), ou_mint = (\<lambda>b. None), ou_files = (\<lambda>d f. True),
     ou_report = (\<lambda>b. None), ou_devices = (\<lambda>m. []), ou_sink = None, ou_firmware_dir = []\<rparr>"

definition site_server :: "(unit, byte) provision_server" where
  "site_server = wizard_server\<lparr>co_cfg := sample_config, co_derived := refresh_derived sample_config,
     sv_sessions := new_session_store (12 * hour)\<rparr>"

lemma sample_outside_quiet: "outside_quiet sample_outside"
  by (simp add: outside_quiet_def sample_outside_def)

lemma sample_outside_fields [simp]: "ou_env sample_outside = page_env"
  by (simp add: sample_outside_def)

lemma site_fields [simp]:
  "co_cfg site_server = sample_config" "co_derived site_server = refresh_derived sample_config"
  "sv_sessions site_server = new_session_store (12 * hour)"
  by (simp_all add: site_server_def)

theorem pages_are_gated_witness:
  "let rq = (sample_request lobby_form 5)\<lparr>rq_path := ''/admin/rooms/save''\<rparr>
   in co_cfg (snd (serve sample_outside Post rq site_server)) = sample_config"
  using pages_are_gated [of admin_ui "(sample_request lobby_form 5)\<lparr>rq_path := ''/admin/rooms/save''\<rparr>" "[''rooms'', ''save'']" sample_outside site_server Post]
  by (simp add: doors_def home_segs segments_def session_of_def sample_request_def)

theorem visit_ends_iff_witness:
  "browse sample_outside ((with_cookie ''manager_session'' ''bobs'' (sample_request bob_form 9))\<lparr>rq_path := ''/manager''\<rparr>)
     (site_server\<lparr>sv_sessions := sv_sessions signed_in_server\<rparr>) \<noteq> None"
proof -
  let ?rq = "(with_cookie ''manager_session'' ''bobs'' (sample_request bob_form 9))\<lparr>rq_path := ''/manager''\<rparr>"
  let ?s = "site_server\<lparr>sv_sessions := sv_sessions signed_in_server\<rparr>"
  have "session_of page_env manager_ui ?rq ?s
      = Some \<lparr>sn_role = ''manager'', sn_username = ''bob'', sn_flags = \<lparr>sf_must_change = False, sf_pending_2fa = False\<rparr>\<rparr>"
    using signed_in(2) by (simp add: session_of_def with_cookie_def manager_ui_def sample_request_def)
  then show ?thesis
    using visit_ends_iff [of manager_ui sample_outside ?rq ?s]
    by (simp add: doors_def door_pages_def door_fields satisfies_def role_rank_def manager_ui_def)
qed

text \<open>Ann signs in at the administrators' door.\<close>

definition ann_login :: request where
  "ann_login = (sample_request (page_form [(''username'', ''ann'')]) 0)\<lparr>rq_path := ''/admin/login''\<rparr>"

lemma login_route:
  fixes ou :: "('k, 'sk, 'pk) outside"
  shows "find_first (\<lambda>ro. ro_method ro = Post \<and> matches ann_login ro) (route_table ou)
    = Some (open_route Post (path_pattern ''/admin/login'') (as_page LoginPg (handle_login_submit (ou_env ou) admin_ui)))"
  by (simp add: ann_login_def route_eval)

lemma ann_verified:
  "verify (ae_sha page_env) (dv_directory (refresh_derived sample_config)) ''ann'' []
     = Some \<lparr>vr_role = ''admin'', vr_must_change = False, vr_totp = False\<rparr>"
  by (simp add: verify_def refresh_derived_def new_directory_def add_entry_def sample_config_def entry_of_user_def
      sample_user_def zero_user_def decode_sample_hash fold_eval page_env_def sample_app_env_def)

definition ann_session :: session where
  "ann_session = \<lparr>sn_role = ''admin'', sn_username = ''ann'', sn_flags = \<lparr>sf_must_change = False, sf_pending_2fa = False\<rparr>\<rparr>"

lemma ann_signed_in:
  "alive (ae_sha page_env) (sv_sessions (serve_all sample_outside [(Post, ann_login)] site_server)) 5 (fresh_token ann_login)
     = Some ann_session"
proof -
  let ?ro = "open_route Post (path_pattern ''/admin/login'') (as_page LoginPg (handle_login_submit page_env admin_ui)) :: (unit, byte) route"
  obtain p where p: "bind_params ?ro ann_login = ann_login\<lparr>rq_param := p\<rparr>" using bind_params_form by blast
  have "serve sample_outside Post ann_login site_server
      = as_page LoginPg (handle_login_submit page_env admin_ui) (ann_login\<lparr>rq_param := p\<rparr>) site_server"
    using p by (simp add: serve_def login_route run_route_def) (simp add: open_route_def)
  then have "snd (serve sample_outside Post ann_login site_server)
      = start_session page_env (ann_login\<lparr>rq_param := p\<rparr>) ''admin'' ''ann'' \<lparr>sf_must_change = False, sf_pending_2fa = False\<rparr> site_server"
    by (simp add: handle_login_submit_def with_form_def ann_login_def ann_verified door_defs satisfies_def role_rank_def Let_def)
  then show ?thesis
    by (simp add: start_session_def fresh_token_def alive_def create_session_def save_locked_def new_session_store_def
        session_key_def ann_login_def sample_request_def ann_session_def page_env_def sample_app_env_def dur_defs)
qed

theorem second_factor_not_skipped_witness:
  "\<exists>f. rq_form ann_login = Some f \<and> form_get f ''username'' = ''ann''"
proof -
  have none: "alive (ae_sha (ou_env sample_outside)) (sv_sessions site_server) later t = None" for later t
    by (simp add: alive_def new_session_store_def)
  have x: "alive (ae_sha (ou_env sample_outside)) (sv_sessions (serve_all sample_outside [(Post, ann_login)] site_server)) 5
      (fresh_token ann_login) = Some ann_session"
    using ann_signed_in by simp
  have no_totp: "\<not> (\<exists>u. user_by_username sample_config ''ann'' = Some u \<and> us_totp_secret u \<noteq> [])"
    by (simp add: user_by_username_def sample_config_def sample_user_def zero_user_def fold_eval)
  show ?thesis
    using second_factor_not_skipped [OF sample_outside_quiet none x] no_totp
    by (auto simp: ann_session_def simp del: serve_all.simps(2))
qed

end
