(* ===== verification/Google.thy ===== *)
theory Google
  imports Poller
begin

text \<open>
  \<open>internal/calendar/google.go\<close>: the provider that reads Google Calendar, at the detail level
  \<open>free_busy\<close> or \<open>titles\<close>, with the latch that gives titles up after a refusal; and the contract of
  the interface \<open>Provider\<close> that the poller relies on, as a locale. The HTTP client (one function per
  call, from a request to a status and a body), the credential library and the JSON decoders are
  parameters; requests, RFC 3339 times (\<open>time.Format\<close> and \<open>time.Parse\<close> with its fallback parser) and
  everything done with an answer are definitions. The lemmas say which intervals make a room
  occupied at each level, that \<open>free_busy\<close> never shows a title, and that one refusal for one address
  takes the titles of all rooms away.
\<close>

section \<open>RFC 3339 times\<close>

definition is_leap :: "int \<Rightarrow> bool" where
  "is_leap y \<longleftrightarrow> y mod 4 = 0 \<and> (y mod 100 \<noteq> 0 \<or> y mod 400 = 0)"

definition month_lengths :: "int \<Rightarrow> int list" where
  "month_lengths y = [31, if is_leap y then 29 else 28, 31, 30, 31, 30, 31, 31, 30, 31, 30, 31]"

text \<open>Days from the epoch to January 1 of a year, and to a date; the year and the month of a day.\<close>

definition year_start :: "int \<Rightarrow> int" where
  "year_start y = (let p = y - 1 in 365 * p + p div 4 - p div 100 + p div 400 - 719162)"

definition day_of_date :: "int \<Rightarrow> nat \<Rightarrow> int \<Rightarrow> int" where
  "day_of_date y m d = year_start y + sum_list (take (m - 1) (month_lengths y)) + d - 1"

definition year_of_day :: "int \<Rightarrow> int" where
  "year_of_day n =
     (let y = (n + 719162) * 400 div 146097 + 1
      in if n < year_start y then y - 1 else if n < year_start (y + 1) then y else y + 1)"

fun month_and_day :: "int list \<Rightarrow> int \<Rightarrow> int \<Rightarrow> int \<times> int" where
  "month_and_day [] m n = (m, n + 1)"
| "month_and_day (l # ls) m n = (if n < l \<or> ls = [] then (m, n + 1) else month_and_day ls (m + 1) (n - l))"

definition pad :: "nat \<Rightarrow> int \<Rightarrow> string" where
  "pad w n = (let s = show_int n in replicate (w - length s) (CHR ''0'') @ s)"

text \<open>\<open>t.UTC().Format(time.RFC3339)\<close>.\<close>

definition format_rfc3339 :: "time \<Rightarrow> string" where
  "format_rfc3339 t =
     (let s = unix t; n = s div 86400; r = s mod 86400; y = year_of_day n;
          (m, d) = month_and_day (month_lengths y) 1 (n - year_start y)
      in pad 4 y @ ''-'' @ pad 2 m @ ''-'' @ pad 2 d @ ''T'' @ pad 2 (r div 3600) @ '':''
         @ pad 2 (r mod 3600 div 60) @ '':'' @ pad 2 (r mod 60) @ ''Z'')"

definition digit_val :: "char \<Rightarrow> int option" where
  "digit_val c = (let n = of_char c :: nat in if 48 \<le> n \<and> n \<le> 57 then Some (int n - 48) else None)"

definition is_digit :: "char \<Rightarrow> bool" where "is_digit c \<longleftrightarrow> digit_val c \<noteq> None"

fun digits_val :: "int \<Rightarrow> string \<Rightarrow> int option" where
  "digits_val v [] = Some v"
| "digits_val v (c # cs) = (case digit_val c of Some d \<Rightarrow> digits_val (10 * v + d) cs | None \<Rightarrow> None)"

text \<open>\<open>getnum\<close>: two digits, or one when the width is not fixed; \<open>skip\<close>: a literal character.\<close>

definition getnum :: "bool \<Rightarrow> string \<Rightarrow> (int \<times> string) option" where
  "getnum fixed s =
     (case s of
        c # d # r \<Rightarrow>
          if is_digit c \<and> is_digit d then map_option (\<lambda>n. (n, r)) (digits_val 0 [c, d])
          else if is_digit c \<and> \<not> fixed then map_option (\<lambda>n. (n, d # r)) (digit_val c) else None
      | [c] \<Rightarrow> if is_digit c \<and> \<not> fixed then map_option (\<lambda>n. (n, [])) (digit_val c) else None
      | [] \<Rightarrow> None)"

fun skip_char :: "char \<Rightarrow> string \<Rightarrow> string option" where
  "skip_char c [] = None"
| "skip_char c (x # xs) = (if x = c then Some xs else None)"

definition getyear :: "string \<Rightarrow> (int \<times> string) option" where
  "getyear s = (if length s < 4 then None else map_option (\<lambda>y. (y, drop 4 s)) (digits_val 0 (take 4 s)))"

text \<open>An optional fraction of a second, in nanoseconds: nine digits count, the others are dropped.\<close>

definition getfraction :: "string \<Rightarrow> int \<times> string" where
  "getfraction s =
     (case s of
        p # c # r \<Rightarrow>
          if (p = CHR ''.'' \<or> p = CHR '','') \<and> is_digit c
          then (let ds = takeWhile is_digit (c # r); kept = take 9 ds
                in (the (digits_val 0 kept) * 10 ^ (9 - length kept), drop (length ds) (c # r)))
          else (0, s)
      | _ \<Rightarrow> (0, s))"

text \<open>The zone: \<open>Z\<close> or a signed offset, in seconds; nothing may follow.\<close>

definition getzone :: "string \<Rightarrow> int option" where
  "getzone s =
     (case s of
        c # r \<Rightarrow>
          if c = CHR ''Z'' then (if r = [] then Some 0 else None)
          else if c = CHR ''+'' \<or> c = CHR ''-'' then
            Option.bind (getnum True r) (\<lambda>(h, r). Option.bind (skip_char (CHR '':'') r) (\<lambda>r.
            Option.bind (getnum True r) (\<lambda>(m, r).
              if h \<le> 24 \<and> m \<le> 60 \<and> r = []
              then Some ((if c = CHR ''+'' then 1 else - 1) * (h * 3600 + m * 60)) else None)))
          else None
      | [] \<Rightarrow> None)"

definition parse_rfc3339 :: "string \<Rightarrow> time option" where
  "parse_rfc3339 s =
     Option.bind (getyear s) (\<lambda>(y, s). Option.bind (skip_char (CHR ''-'') s) (\<lambda>s.
     Option.bind (getnum True s) (\<lambda>(mo, s). Option.bind (skip_char (CHR ''-'') s) (\<lambda>s.
     Option.bind (getnum True s) (\<lambda>(d, s). Option.bind (skip_char (CHR ''T'') s) (\<lambda>s.
     Option.bind (getnum False s) (\<lambda>(h, s). Option.bind (skip_char (CHR '':'') s) (\<lambda>s.
     Option.bind (getnum True s) (\<lambda>(mi, s). Option.bind (skip_char (CHR '':'') s) (\<lambda>s.
     Option.bind (getnum True s) (\<lambda>(se, s).
       let (ns, s) = getfraction s in
       Option.bind (getzone s) (\<lambda>off.
         if 1 \<le> mo \<and> mo \<le> 12 \<and> 1 \<le> d \<and> d \<le> month_lengths y ! nat (mo - 1)
            \<and> h < 24 \<and> mi < 60 \<and> se < 60
         then Some ((day_of_date y (nat mo) d * 86400 + h * 3600 + mi * 60 + se - off) * second + ns)
         else None))))))))))))"

lemma rfc3339_examples:
  "format_rfc3339 (1709210096 * second) = ''2024-02-29T12:34:56Z''"
  "parse_rfc3339 ''2024-02-29T12:34:56Z'' = Some (1709210096 * second)"
  "parse_rfc3339 ''2024-02-29T14:04:56.25+01:30'' = Some (1709210096 * second + 250000000)"
  "parse_rfc3339 ''2023-02-29T12:34:56Z'' = None"
  "parse_rfc3339 ''2024-02-29'' = None"
  by code_simp+

section \<open>Requests\<close>

text \<open>\<open>url.PathEscape\<close> and \<open>url.QueryEscape\<close> on ASCII strings: what is kept and how the rest is written.\<close>

definition unreserved :: "char \<Rightarrow> bool" where
  "unreserved c \<longleftrightarrow> (let n = of_char c :: nat in
     (48 \<le> n \<and> n \<le> 57) \<or> (65 \<le> n \<and> n \<le> 90) \<or> (97 \<le> n \<and> n \<le> 122) \<or> c \<in> set ''-_.~'')"

definition hex_upper :: "nat \<Rightarrow> char" where
  "hex_upper n = (if n < 10 then char_of (48 + n) else char_of (55 + n))"

definition percent :: "char \<Rightarrow> string" where
  "percent c = (let n = of_char c :: nat in [CHR ''%'', hex_upper (n div 16), hex_upper (n mod 16)])"

definition path_escape :: "string \<Rightarrow> string" where
  "path_escape s = concat (map (\<lambda>c. if unreserved c \<or> c \<in> set ''$&+=:@'' then [c] else percent c) s)"

definition query_escape :: "string \<Rightarrow> string" where
  "query_escape s =
     concat (map (\<lambda>c. if unreserved c then [c] else if c = CHR '' '' then ''+'' else percent c) s)"

text \<open>The two requests: the POST with the fields of its JSON body, the GET with its URL. Neither can fail to
  be built: the method is a token and the escaped URL parses.\<close>

datatype google_request =
  FreeBusyPost (time_min: string) (time_max: string) (item_ids: "string list")
| EventsGet (url: string)

definition free_busy_request :: "string \<Rightarrow> time \<Rightarrow> time \<Rightarrow> google_request" where
  "free_busy_request room from til = FreeBusyPost (format_rfc3339 from) (format_rfc3339 til) [room]"

definition events_request :: "string \<Rightarrow> time \<Rightarrow> time \<Rightarrow> google_request" where
  "events_request room from til =
     EventsGet (''https://www.googleapis.com/calendar/v3/calendars/'' @ path_escape room @ ''/events?''
       @ ''maxResults=50&orderBy=startTime&singleEvents=true&timeMax='' @ query_escape (format_rfc3339 til)
       @ ''&timeMin='' @ query_escape (format_rfc3339 from))"

text \<open>\<open>p.http.Do\<close>: an error, or the status and the body.\<close>

type_synonym google_http = "google_request \<Rightarrow> string + (int \<times> string)"

section \<open>Answers\<close>

record fb_error =
  fe_domain :: string
  fe_reason :: string

record fb_busy =
  fb_start :: string
  fb_end :: string

record fb_calendar =
  fc_errors :: "fb_error list"
  fc_busy :: "fb_busy list"

type_synonym free_busy_response = "string \<Rightarrow> fb_calendar option"

record event_time =
  et_date_time :: string
  et_date :: string

record event_item =
  ei_summary :: string
  ei_visibility :: string
  ei_status :: string
  ei_organizer_name :: string
  ei_organizer_email :: string
  ei_start :: event_time
  ei_end :: event_time

text \<open>The JSON decoders of the two answers.\<close>

record google_json =
  gj_free_busy :: "string \<Rightarrow> string + free_busy_response"
  gj_events :: "string \<Rightarrow> string + event_item list"

section \<open>The provider\<close>

definition free_busy_scope :: string where
  "free_busy_scope = ''https://www.googleapis.com/auth/calendar.freebusy''"

definition events_scope :: string where
  "events_scope = ''https://www.googleapis.com/auth/calendar.events.readonly''"

text \<open>The credential library: credentials from a configuration or from the environment, for one scope.\<close>

record 'c google_auth =
  ga_read_file :: "string \<Rightarrow> string + string"
  ga_from_json :: "string \<Rightarrow> string \<Rightarrow> string + 'c"
  ga_default :: "string \<Rightarrow> string + 'c"

record 'c google_provider =
  gp_creds :: 'c
  gp_titles :: bool
  gp_downgraded :: bool

definition new_google :: "'c google_auth \<Rightarrow> string \<Rightarrow> string \<Rightarrow> string + 'c google_provider" where
  "new_google env cred_config detail_level =
     (let titles = (detail_level = ''titles'');
          scope = (if titles then events_scope else free_busy_scope);
          provider = (\<lambda>c. \<lparr>gp_creds = c, gp_titles = titles, gp_downgraded = False\<rparr>);
          resolved = (\<lambda>r. case r of Inr c \<Rightarrow> Inr (provider c)
                      | Inl err \<Rightarrow> Inl (''google: resolve WIF credentials: '' @ err))
      in if cred_config \<noteq> [] then
           (case ga_read_file env cred_config of
              Inl err \<Rightarrow> Inl (''google: read cred config: '' @ err)
            | Inr doc \<Rightarrow> resolved (ga_from_json env doc scope))
         else resolved (ga_default env scope))"

text \<open>The loops over an answer: an entry whose times do not parse is skipped.\<close>

fun busy_events :: "fb_busy list \<Rightarrow> event list" where
  "busy_events [] = []"
| "busy_events (b # bs) =
     (case (parse_rfc3339 (fb_start b), parse_rfc3339 (fb_end b)) of
        (Some s, Some e) \<Rightarrow>
          \<lparr>ev_subject = [], ev_organizer = [], ev_start = s, ev_end = e, ev_private = False\<rparr> # busy_events bs
      | _ \<Rightarrow> busy_events bs)"

definition item_event :: "event_item \<Rightarrow> event option" where
  "item_event it =
     (if ei_status it = ''cancelled'' then None
      else if et_date_time (ei_start it) = [] \<or> et_date_time (ei_end it) = [] then None
      else case (parse_rfc3339 (et_date_time (ei_start it)), parse_rfc3339 (et_date_time (ei_end it))) of
             (Some s, Some e) \<Rightarrow>
               Some \<lparr>ev_subject = ei_summary it,
                     ev_organizer = (if ei_organizer_name it = [] then ei_organizer_email it else ei_organizer_name it),
                     ev_start = s, ev_end = e,
                     ev_private = (ei_visibility it = ''private'' \<or> ei_visibility it = ''confidential'')\<rparr>
           | _ \<Rightarrow> None)"

definition fetch_free_busy ::
  "google_json \<Rightarrow> google_http \<Rightarrow> time \<Rightarrow> string \<Rightarrow> time \<Rightarrow> time \<Rightarrow> string + schedule" where
  "fetch_free_busy js http now room from til =
     (case http (free_busy_request room from til) of
        Inl err \<Rightarrow> Inl (''freebusy request: '' @ err)
      | Inr (status, body) \<Rightarrow>
          if status \<noteq> 200 then Inl (''freebusy status '' @ show_int status @ '' for '' @ room)
          else (case gj_free_busy js body of
                  Inl err \<Rightarrow> Inl (''freebusy decode: '' @ err)
                | Inr fb \<Rightarrow>
                    (case fb room of
                       None \<Rightarrow> Inl (''freebusy: no entry for '' @ room)
                     | Some cal \<Rightarrow>
                         (case fc_errors cal of
                            e # es \<Rightarrow> Inl (''freebusy: calendar error for '' @ room @ '': '' @ fe_reason e)
                          | [] \<Rightarrow> Inr (normalize room (busy_events (fc_busy cal)) from now)))))"

definition fetch_events ::
  "google_json \<Rightarrow> google_http \<Rightarrow> time \<Rightarrow> string \<Rightarrow> time \<Rightarrow> time \<Rightarrow> string + schedule" where
  "fetch_events js http now room from til =
     (case http (events_request room from til) of
        Inl err \<Rightarrow> Inl (''events request: '' @ err)
      | Inr (status, body) \<Rightarrow>
          if status \<noteq> 200 then Inl (''events status '' @ show_int status @ '' for '' @ room)
          else (case gj_events js body of
                  Inl err \<Rightarrow> Inl (''events decode: '' @ err)
                | Inr items \<Rightarrow> Inr (normalize room (List.map_filter item_event items) from now)))"

definition is_permission_err :: "string \<Rightarrow> bool" where
  "is_permission_err err \<longleftrightarrow> contains err ''status 403'' \<or> contains err ''status 404''"

text \<open>One call, with what the service answers during it and the clock.\<close>

definition fetch_schedule ::
  "google_json \<Rightarrow> google_http \<Rightarrow> time \<Rightarrow> 'c google_provider \<Rightarrow> string \<Rightarrow> time \<Rightarrow> time
     \<Rightarrow> (string + schedule) \<times> 'c google_provider" where
  "fetch_schedule js http now p room from til =
     (if \<not> gp_titles p \<or> gp_downgraded p then (fetch_free_busy js http now room from til, p)
      else case fetch_events js http now room from til of
             Inr sched \<Rightarrow> (Inr sched, p)
           | Inl err \<Rightarrow>
               if \<not> is_permission_err err then (Inl err, p)
               else (fetch_free_busy js http now room from til, p\<lparr>gp_downgraded := True\<rparr>))"

section \<open>Which intervals occupy a room\<close>

definition range_covers :: "string \<Rightarrow> string \<Rightarrow> time \<Rightarrow> bool" where
  "range_covers a b t \<longleftrightarrow>
     (case (parse_rfc3339 a, parse_rfc3339 b) of (Some s, Some e) \<Rightarrow> s \<le> t \<and> t < e | _ \<Rightarrow> False)"

definition busy_covers :: "fb_busy \<Rightarrow> time \<Rightarrow> bool" where
  "busy_covers b t \<longleftrightarrow> range_covers (fb_start b) (fb_end b) t"

text \<open>An entry of the events list counts when it was not cancelled and has clock times.\<close>

definition item_covers :: "event_item \<Rightarrow> time \<Rightarrow> bool" where
  "item_covers it t \<longleftrightarrow> ei_status it \<noteq> ''cancelled''
     \<and> range_covers (et_date_time (ei_start it)) (et_date_time (ei_end it)) t"

lemma parse_empty [simp]: "parse_rfc3339 [] = None"
  by (simp add: parse_rfc3339_def getyear_def)

lemma busy_events_covers:
  "(\<exists>e \<in> set (busy_events bs). ev_start e \<le> t \<and> t < ev_end e) \<longleftrightarrow> (\<exists>b \<in> set bs. busy_covers b t)"
  by (induction bs) (auto simp: busy_covers_def range_covers_def split: option.splits)

lemma item_event_covers:
  "(\<exists>e. item_event it = Some e \<and> ev_start e \<le> t \<and> t < ev_end e) \<longleftrightarrow> item_covers it t"
  by (auto simp: item_event_def item_covers_def range_covers_def split: option.splits)

lemma item_events_covers:
  "(\<exists>e \<in> set (List.map_filter item_event its). ev_start e \<le> t \<and> t < ev_end e)
     \<longleftrightarrow> (\<exists>it \<in> set its. item_covers it t)"
  unfolding item_event_covers [symmetric] by (force simp: List.map_filter_def)

lemma normalize_current:
  assumes "from \<le> t"
  shows "current (normalize name es from now) t \<noteq> None \<longleftrightarrow> (\<exists>e \<in> set es. ev_start e \<le> t \<and> t < ev_end e)"
proof -
  have "current (normalize name es from now) t = None
      \<longleftrightarrow> (\<forall>e \<in> set es. from < ev_end e \<longrightarrow> ev_start e \<le> t \<longrightarrow> ev_end e \<le> t)"
    by (auto simp: current_None Calendar.normalize_def)
  with assms show ?thesis by force
qed

text \<open>The ranges and the entries an answer of the service carries.\<close>

definition answered_ranges :: "google_json \<Rightarrow> google_http \<Rightarrow> string \<Rightarrow> time \<Rightarrow> time \<Rightarrow> fb_busy list" where
  "answered_ranges js http room from til =
     (case http (free_busy_request room from til) of
        Inl err \<Rightarrow> []
      | Inr (status, body) \<Rightarrow>
          (case gj_free_busy js body of Inl err \<Rightarrow> []
           | Inr fb \<Rightarrow> (case fb room of None \<Rightarrow> [] | Some cal \<Rightarrow> fc_busy cal)))"

definition answered_items :: "google_json \<Rightarrow> google_http \<Rightarrow> string \<Rightarrow> time \<Rightarrow> time \<Rightarrow> event_item list" where
  "answered_items js http room from til =
     (case http (events_request room from til) of
        Inl err \<Rightarrow> []
      | Inr (status, body) \<Rightarrow> (case gj_events js body of Inl err \<Rightarrow> [] | Inr items \<Rightarrow> items))"

lemma fetch_free_busy_Inr:
  "fetch_free_busy js http now room from til = Inr s \<Longrightarrow>
     s = normalize room (busy_events (answered_ranges js http room from til)) from now"
  by (auto simp: fetch_free_busy_def answered_ranges_def split: sum.splits prod.splits if_splits
      option.splits list.splits)

lemma fetch_events_Inr:
  "fetch_events js http now room from til = Inr s \<Longrightarrow>
     s = normalize room (List.map_filter item_event (answered_items js http room from til)) from now"
  by (auto simp: fetch_events_def answered_items_def split: sum.splits prod.splits if_splits)

section \<open>The contract of a provider\<close>

text \<open>What the poller and the renderer rely on of \<open>calendar.Provider\<close>: a sorted schedule, in which a meeting
  is in progress exactly when the calendar is busy, from the start of the window on.\<close>

locale calendar_provider =
  fixes fetch :: fetcher
    and busy :: "string \<Rightarrow> time \<Rightarrow> time \<Rightarrow> time \<Rightarrow> bool"
  assumes schedule_sorted: "fetch room from til = Inr s \<Longrightarrow> starts_sorted s"
    and occupied: "fetch room from til = Inr s \<Longrightarrow> from \<le> t \<Longrightarrow> current s t \<noteq> None \<longleftrightarrow> busy room from til t"
begin

lemma status_iff:
  assumes "fetch room from til = Inr s" "from \<le> t"
  shows "status_at s t = ''in_meeting'' \<longleftrightarrow> busy room from til t"
  using occupied [OF assms] by (auto simp: status_at_def room_status_def split: option.splits)

text \<open>After a tick a display whose address was answered reports a meeting exactly when the calendar is busy;
  one whose address was not keeps its status and gets the error.\<close>

lemma polled_status:
  assumes "distinct (map rm_device_id (cf_rooms c))" "refresh_all e c rn fetch now st = Some new"
    and "env_zone e (wk_timezone (cf_wake c)) = Some z" "from = time_of_local z (local_day z now * 86400)"
    and "from \<le> now" "r \<in> set (cf_rooms c)"
  shows "\<exists>addr. equal_fold addr (rm_room r) \<and>
    (case fetch addr from (from + 48 * hour) of
       Inr s \<Rightarrow> \<exists>d. snd new (rm_device_id r) = Some d
         \<and> (ds_room_status d = ''in_meeting'' \<longleftrightarrow> busy addr from (from + 48 * hour) now)
     | Inl err \<Rightarrow> snd new (rm_device_id r) = snd st (rm_device_id r)
         \<and> fst new (rm_device_id r) = Some ((entry_of (fst st) (rm_device_id r))\<lparr>ce_err := Some err\<rparr>))"
proof -
  obtain addr where a: "equal_fold addr (rm_room r)"
    "refreshed rn now (fetch addr from (from + 48 * hour)) r st new"
    using refresh_all_correct [OF assms(1,2)] assms(3,4,6) by auto
  then show ?thesis
    using status_iff [OF _ assms(5)] by (intro exI [of _ addr]) (auto simp: refreshed_def Let_def split: sum.splits)
qed

end

interpretation demo_calendar: calendar_provider "\<lambda>room from til. Inr (demo_fetch room from now)"
  "\<lambda>room from til t. \<exists>(a, b) \<in> {(- 20, 40), (55, 85), (145, 175)}. now + a * minute \<le> t \<and> t < now + b * minute"
  for now
proof
  fix room frm til s and t :: time
  assume "(Inr (demo_fetch room frm now) :: string + schedule) = Inr s"
  then have s: "s = demo_fetch room frm now" by simp
  show "starts_sorted s" by (simp add: s demo_fetch_def normalize_correct)
  assume "frm \<le> t"
  then show "(current s t \<noteq> None)
      = (\<exists>(a, b) \<in> {(- 20, 40), (55, 85), (145, 175)}. now + a * minute \<le> t \<and> t < now + b * minute)"
    unfolding s demo_fetch_def by (simp only: normalize_current) (simp add: demo_event_def Let_def dur_defs algebra_simps)
qed

interpretation free_busy: calendar_provider "fetch_free_busy js http now"
  "\<lambda>room from til t. \<exists>b \<in> set (answered_ranges js http room from til). busy_covers b t"
  for js http now
proof
  fix room frm til s and t :: time
  assume "fetch_free_busy js http now room frm til = Inr s"
  note s = fetch_free_busy_Inr [OF this]
  show "starts_sorted s" by (simp add: s normalize_correct)
  assume "frm \<le> t"
  then show "(current s t \<noteq> None) = (\<exists>b \<in> set (answered_ranges js http room frm til). busy_covers b t)"
    by (simp only: s normalize_current busy_events_covers)
qed

interpretation full_events: calendar_provider "fetch_events js http now"
  "\<lambda>room from til t. \<exists>it \<in> set (answered_items js http room from til). item_covers it t"
  for js http now
proof
  fix room frm til s and t :: time
  assume "fetch_events js http now room frm til = Inr s"
  note s = fetch_events_Inr [OF this]
  show "starts_sorted s" by (simp add: s normalize_correct)
  assume "frm \<le> t"
  then show "(current s t \<noteq> None) = (\<exists>it \<in> set (answered_items js http room frm til). item_covers it t)"
    by (simp only: s normalize_current item_events_covers)
qed

section \<open>A series of calls\<close>

text \<open>Calls in the order in which they reach the latch, from the poller and from the check of a room that
  \<open>/admin\<close> is about to save; the service may answer each one differently.\<close>

record google_call =
  cl_http :: google_http
  cl_now :: time
  cl_room :: string
  cl_from :: time
  cl_til :: time

fun google_calls ::
  "google_json \<Rightarrow> 'c google_provider \<Rightarrow> google_call list \<Rightarrow> (string + schedule) list \<times> 'c google_provider" where
  "google_calls js p [] = ([], p)"
| "google_calls js p (c # cs) =
     (let (r, p) = fetch_schedule js (cl_http c) (cl_now c) p (cl_room c) (cl_from c) (cl_til c);
          (rs, p) = google_calls js p cs
      in (r # rs, p))"

definition anonymous :: "string + schedule \<Rightarrow> bool" where
  "anonymous r \<longleftrightarrow>
     (case r of Inl err \<Rightarrow> True
      | Inr s \<Rightarrow> list_all (\<lambda>e. ev_subject e = [] \<and> ev_organizer e = [] \<and> \<not> ev_private e) (sc_events s))"

text \<open>The service refuses the events of the room of a call.\<close>

definition refuses :: "google_call \<Rightarrow> bool" where
  "refuses c \<longleftrightarrow>
     (case cl_http c (events_request (cl_room c) (cl_from c) (cl_til c)) of
        Inl err \<Rightarrow> False | Inr (status, body) \<Rightarrow> status = 403 \<or> status = 404)"

text \<open>The service as it looks to a client that cannot use the events API.\<close>

definition without_events :: "google_call \<Rightarrow> google_call" where
  "without_events c = c\<lparr>cl_http := (\<lambda>q. case q of EventsGet u \<Rightarrow> Inl ''not asked'' | _ \<Rightarrow> cl_http c q)\<rparr>"

lemma busy_events_anonymous: "e \<in> set (busy_events bs) \<Longrightarrow> ev_subject e = [] \<and> ev_organizer e = [] \<and> \<not> ev_private e"
  by (induction bs) (auto split: option.splits)

lemma free_busy_anonymous: "anonymous (fetch_free_busy js http now room from til)"
proof (cases "fetch_free_busy js http now room from til")
  case (Inr s)
  from fetch_free_busy_Inr [OF this] Inr show ?thesis
    by (auto simp: anonymous_def Calendar.normalize_def list_all_iff dest: busy_events_anonymous)
qed (simp add: anonymous_def)

definition anonymous_mode :: "'c google_provider \<Rightarrow> bool" where
  "anonymous_mode p \<longleftrightarrow> \<not> gp_titles p \<or> gp_downgraded p"

lemma anonymous_mode_stays:
  "anonymous_mode p \<Longrightarrow> fetch_schedule js http now p room from til = (fetch_free_busy js http now room from til, p)"
  by (simp add: anonymous_mode_def fetch_schedule_def)

lemma anonymous_calls:
  "anonymous_mode p \<Longrightarrow> google_calls js p cs = (rs, p') \<Longrightarrow> p' = p \<and> list_all anonymous rs"
  by (induction cs arbitrary: rs)
    (auto simp: anonymous_mode_stays free_busy_anonymous Let_def split: prod.splits)

lemma anonymous_calls_blind:
  "anonymous_mode p \<Longrightarrow> google_calls js p (map without_events cs) = google_calls js p cs"
  by (induction cs)
    (auto simp: anonymous_mode_stays without_events_def fetch_free_busy_def free_busy_request_def Let_def)

lemma permission_status:
  "status = 403 \<or> status = 404 \<Longrightarrow> is_permission_err (''events status '' @ show_int status @ '' for '' @ room)"
proof -
  have "show_int 403 = ''403''" "show_int 404 = ''404''" by code_simp+
  then show "status = 403 \<or> status = 404 \<Longrightarrow> ?thesis"
    using contains_append [of "''events ''" "''status 403''" "'' for '' @ room"]
      contains_append [of "''events ''" "''status 404''" "'' for '' @ room"]
    by (auto simp: is_permission_err_def)
qed

lemma refused_call:
  assumes "refuses c"
  shows "fetch_schedule js (cl_http c) (cl_now c) p (cl_room c) (cl_from c) (cl_til c)
    = (fetch_free_busy js (cl_http c) (cl_now c) (cl_room c) (cl_from c) (cl_til c),
       if gp_titles p then p\<lparr>gp_downgraded := True\<rparr> else p)"
proof -
  obtain status body where a: "cl_http c (events_request (cl_room c) (cl_from c) (cl_til c)) = Inr (status, body)"
    "status = 403 \<or> status = 404"
    using assms by (auto simp: refuses_def split: sum.splits prod.splits)
  have "fetch_events js (cl_http c) (cl_now c) (cl_room c) (cl_from c) (cl_til c)
      = Inl (''events status '' @ show_int status @ '' for '' @ cl_room c)"
    using a by (auto simp: fetch_events_def)
  then show ?thesis using permission_status [OF a(2)] by (simp add: fetch_schedule_def)
qed

lemma google_calls_append:
  "google_calls js p (cs @ ds) =
     (let (rs, p) = google_calls js p cs; (ss, p) = google_calls js p ds in (rs @ ss, p))"
  by (induction cs arbitrary: p) (auto simp: Let_def split: prod.splits)

lemma google_calls_length: "google_calls js p cs = (rs, p') \<Longrightarrow> length rs = length cs"
  by (induction cs arbitrary: p rs) (auto simp: Let_def split: prod.splits)

text \<open>The latch falls only on an error that \<open>isPermissionErr\<close> recognises, and titles stay on until then.\<close>

lemma titles_until_refused:
  "google_calls js p cs = (rs, p') \<Longrightarrow> \<not> anonymous_mode p \<Longrightarrow> anonymous_mode p' \<Longrightarrow>
     \<exists>c \<in> set cs. \<exists>err. fetch_events js (cl_http c) (cl_now c) (cl_room c) (cl_from c) (cl_til c) = Inl err
       \<and> is_permission_err err"
proof (induction cs arbitrary: p rs)
  case (Cons c cs)
  obtain r p1 where 1: "fetch_schedule js (cl_http c) (cl_now c) p (cl_room c) (cl_from c) (cl_til c) = (r, p1)"
    by fastforce
  obtain rs1 where 2: "google_calls js p1 cs = (rs1, p')"
    using Cons.prems(1) 1 by (auto simp: Let_def split: prod.splits)
  show ?case
  proof (cases "anonymous_mode p1")
    case True
    with 1 Cons.prems(2) show ?thesis
      by (auto simp: fetch_schedule_def anonymous_mode_def split: sum.splits if_splits)
  next
    case False
    from Cons.IH [OF 2 False Cons.prems(3)] show ?thesis by auto
  qed
qed simp

section \<open>Properties\<close>

text \<open>C34. At the detail level \<open>free_busy\<close> the provider asks for credentials of the free/busy scope only,
  and whatever the service and the order of calls, no schedule it returns carries a subject, an
  organizer or a privacy mark; the answers of the events API make no difference to it.\<close>

theorem free_busy_level_sees_no_title:
  assumes "new_google env cred_config detail_level = Inr p" "detail_level \<noteq> ''titles''"
  shows "(ga_default env free_busy_scope = Inr (gp_creds p)
           \<or> (\<exists>doc. ga_from_json env doc free_busy_scope = Inr (gp_creds p)))
    \<and> list_all anonymous (fst (google_calls js p cs))
    \<and> google_calls js p (map without_events cs) = google_calls js p cs"
proof -
  have "anonymous_mode p" and c: "ga_default env free_busy_scope = Inr (gp_creds p)
      \<or> (\<exists>doc. ga_from_json env doc free_busy_scope = Inr (gp_creds p))"
    using assms by (auto simp: new_google_def anonymous_mode_def Let_def split: if_splits sum.splits)
  moreover obtain rs p' where "google_calls js p cs = (rs, p')" by fastforce
  ultimately show ?thesis using anonymous_calls [of p js cs rs p'] anonymous_calls_blind [of p js cs] by simp
qed

text \<open>C35. One refusal hides the titles of every room: once the service has answered the events request of
  some call with 403 or 404, that call and every later one, for whatever room, returns a schedule
  without subjects, although the service still answers the other rooms' events.\<close>

theorem one_refusal_hides_every_title:
  assumes "refuses c" "google_calls js p (before @ c # after) = (rs, p')"
  shows "list_all anonymous (drop (length before) rs)"
proof -
  obtain rs1 p1 where 1: "google_calls js p before = (rs1, p1)" by fastforce
  let ?p2 = "if gp_titles p1 then p1\<lparr>gp_downgraded := True\<rparr> else p1"
  obtain rs2 p2 where 2: "google_calls js ?p2 after = (rs2, p2)" by fastforce
  have "anonymous_mode ?p2" by (simp add: anonymous_mode_def)
  with 2 have "list_all anonymous rs2" using anonymous_calls by blast
  moreover have "rs = rs1 @ fetch_free_busy js (cl_http c) (cl_now c) (cl_room c) (cl_from c) (cl_til c) # rs2"
    using assms(2) 1 2 by (simp add: google_calls_append refused_call [OF assms(1)])
  ultimately show ?thesis using google_calls_length [OF 1] free_busy_anonymous by simp
qed

text \<open>A service with the events of one room, which does not know the address of another.\<close>

definition sample_google :: google_http where
  "sample_google q =
     (case q of
        EventsGet u \<Rightarrow> if contains u ''aspen@x.io'' then Inr (200, ''events'') else Inr (404, [])
      | FreeBusyPost a b ids \<Rightarrow> if ids = [''aspen@x.io''] then Inr (200, ''busy'') else Inr (500, []))"

definition sample_json :: google_json where
  "sample_json =
     \<lparr>gj_free_busy = (\<lambda>body. Inr [''aspen@x.io'' \<mapsto> \<lparr>fc_errors = [],
        fc_busy = [\<lparr>fb_start = ''1970-01-01T09:00:00Z'', fb_end = ''1970-01-01T10:00:00Z''\<rparr>]\<rparr>]),
      gj_events = (\<lambda>body. Inr [\<lparr>ei_summary = ''Offer to Kim'', ei_visibility = [], ei_status = ''confirmed'',
        ei_organizer_name = [], ei_organizer_email = ''kim@x.io'',
        ei_start = \<lparr>et_date_time = ''1970-01-01T09:00:00Z'', et_date = []\<rparr>,
        ei_end = \<lparr>et_date_time = ''1970-01-01T10:00:00Z'', et_date = []\<rparr>\<rparr>])\<rparr>"

definition sample_google_auth :: "string google_auth" where
  "sample_google_auth = \<lparr>ga_read_file = (\<lambda>p. Inr ''doc''), ga_from_json = (\<lambda>doc scope. Inr scope),
     ga_default = (\<lambda>scope. Inr scope)\<rparr>"

definition sample_call :: "string \<Rightarrow> google_call" where
  "sample_call room = \<lparr>cl_http = sample_google, cl_now = 0, cl_room = room, cl_from = 0, cl_til = 48 * hour\<rparr>"

definition subjects :: "string + schedule \<Rightarrow> string list" where
  "subjects r = (case r of Inl err \<Rightarrow> [] | Inr s \<Rightarrow> map ev_subject (sc_events s))"

theorem free_busy_level_sees_no_title_witness:
  "\<exists>p. new_google sample_google_auth [] ''free_busy'' = Inr p \<and> gp_creds p = free_busy_scope
     \<and> list_all anonymous (fst (google_calls sample_json p [sample_call ''aspen@x.io'']))"
proof -
  let ?p = "\<lparr>gp_creds = free_busy_scope, gp_titles = False, gp_downgraded = False\<rparr>"
  have p: "new_google sample_google_auth [] ''free_busy'' = Inr ?p"
    by (simp add: new_google_def sample_google_auth_def)
  with free_busy_level_sees_no_title [OF p, of sample_json "[sample_call ''aspen@x.io'']"] show ?thesis by auto
qed

text \<open>Before a check of a mistyped address the room shows its subject, after it no more.\<close>

theorem one_refusal_hides_every_title_witness:
  "let p = \<lparr>gp_creds = events_scope, gp_titles = True, gp_downgraded = False\<rparr>;
       aspen = sample_call ''aspen@x.io'';
       rs = fst (google_calls sample_json p [aspen, sample_call ''typo@x.io'', aspen])
   in map subjects rs = [[''Offer to Kim''], [], [[]]] \<and> list_all anonymous (drop 1 rs)"
proof -
  let ?p = "\<lparr>gp_creds = events_scope, gp_titles = True, gp_downgraded = False\<rparr>"
  let ?a = "sample_call ''aspen@x.io''" and ?t = "sample_call ''typo@x.io''"
  have t: "refuses ?t" by code_simp
  have f: "subjects (fetch_events sample_json sample_google 0 ''aspen@x.io'' 0 (48 * hour)) = [''Offer to Kim'']"
    "subjects (fetch_free_busy sample_json sample_google 0 ''typo@x.io'' 0 (48 * hour)) = []"
    "subjects (fetch_free_busy sample_json sample_google 0 ''aspen@x.io'' 0 (48 * hour)) = [[]]"
    by code_simp+
  then obtain s where "fetch_events sample_json sample_google 0 ''aspen@x.io'' 0 (48 * hour) = Inr s"
    by (cases "fetch_events sample_json sample_google 0 ''aspen@x.io'' 0 (48 * hour)") (auto simp: subjects_def)
  with f have "fetch_schedule sample_json (cl_http ?a) (cl_now ?a) ?p (cl_room ?a) (cl_from ?a) (cl_til ?a) = (Inr s, ?p)"
    and "subjects (Inr s) = [''Offer to Kim'']" by (simp_all add: fetch_schedule_def sample_call_def)
  with f have "map subjects (fst (google_calls sample_json ?p [?a, ?t, ?a])) = [[''Offer to Kim''], [], [[]]]"
    using refused_call [OF t, of sample_json ?p]
    by (simp add: anonymous_mode_stays anonymous_mode_def) (simp add: sample_call_def)
  moreover obtain rs p' where rs: "google_calls sample_json ?p ([?a] @ ?t # [?a]) = (rs, p')" by fastforce
  moreover from one_refusal_hides_every_title [OF t rs] have "list_all anonymous (drop 1 rs)" by simp
  ultimately show ?thesis by (simp add: Let_def)
qed

text \<open>C36. At the level \<open>free_busy\<close>, after a tick of the poller a room whose address was answered reports a
  meeting exactly when one of the ranges in the answer covers the instant, where a range with an
  unreadable time counts for nothing; a room that was not answered keeps its status and its frame
  and gets the error.\<close>

theorem polled_status_is_occupancy:
  assumes "distinct (map rm_device_id (cf_rooms c))"
    and "refresh_all e c rn (fetch_free_busy js http now) now st = Some new"
    and "env_zone e (wk_timezone (cf_wake c)) = Some z" "from = time_of_local z (local_day z now * 86400)"
    and "from \<le> now" "r \<in> set (cf_rooms c)"
  shows "\<exists>addr. equal_fold addr (rm_room r) \<and>
    (case fetch_free_busy js http now addr from (from + 48 * hour) of
       Inr s \<Rightarrow> \<exists>d. snd new (rm_device_id r) = Some d
         \<and> (ds_room_status d = ''in_meeting''
             \<longleftrightarrow> (\<exists>b \<in> set (answered_ranges js http addr from (from + 48 * hour)). busy_covers b now))
     | Inl err \<Rightarrow> snd new (rm_device_id r) = snd st (rm_device_id r)
         \<and> fst new (rm_device_id r) = Some ((entry_of (fst st) (rm_device_id r))\<lparr>ce_err := Some err\<rparr>))"
  by (rule free_busy.polled_status [OF assms])

definition open_json :: google_json where
  "open_json = sample_json\<lparr>gj_free_busy := (\<lambda>body. Inr (\<lambda>room. Some \<lparr>fc_errors = [],
     fc_busy = [\<lparr>fb_start = ''1970-01-01T09:00:00Z'', fb_end = ''1970-01-01T10:00:00Z''\<rparr>]\<rparr>))\<rparr>"

theorem polled_status_is_occupancy_witness:
  "\<exists>new d. refresh_all sample_env sample_config sample_renderer
      (fetch_free_busy open_json (\<lambda>q. Inr (200, [])) (9 * hour)) (9 * hour) (Map.empty, Map.empty) = Some new
    \<and> snd new ''d1'' = Some d \<and> ds_room_status d = ''in_meeting''"
proof -
  let ?http = "(\<lambda>q. Inr (200, [])) :: google_http" and ?r = "sample_room ''d1'' ''a@x.io'' ''sf'' ''Door''"
  obtain new where poll: "refresh_all sample_env sample_config sample_renderer (fetch_free_busy open_json ?http (9 * hour))
      (9 * hour) (Map.empty, Map.empty) = Some new"
    by (simp add: refresh_all_def sample_env_def sample_config_def Let_def)
  have day: "(0 :: time) = time_of_local (\<lambda>t. 0) (local_day (\<lambda>t. 0) (9 * hour) * 86400)"
    by (simp add: time_defs Let_def)
  have "busy_covers \<lparr>fb_start = ''1970-01-01T09:00:00Z'', fb_end = ''1970-01-01T10:00:00Z''\<rparr> (9 * hour)"
    by code_simp
  then have ranges: "\<exists>b \<in> set (answered_ranges open_json ?http addr 0 til). busy_covers b (9 * hour)" for addr til
    by (simp add: answered_ranges_def open_json_def)
  have ans: "fetch_free_busy open_json ?http (9 * hour) addr 0 til = Inr (normalize addr
      (busy_events [\<lparr>fb_start = ''1970-01-01T09:00:00Z'', fb_end = ''1970-01-01T10:00:00Z''\<rparr>]) 0 (9 * hour))" for addr til
    by (simp add: fetch_free_busy_def open_json_def)
  have "distinct (map rm_device_id (cf_rooms sample_config))"
    "env_zone sample_env (wk_timezone (cf_wake sample_config)) = Some (\<lambda>t. 0)"
    "(0 :: time) \<le> 9 * hour" "?r \<in> set (cf_rooms sample_config)"
    by (simp_all add: sample_config_def sample_env_def sample_room_def dur_defs)
  from polled_status_is_occupancy [OF this(1) poll this(2) day this(3,4)] ranges
  obtain d where "snd new (rm_device_id ?r) = Some d" "ds_room_status d = ''in_meeting''"
    unfolding ans sum.case by blast
  with poll show ?thesis by (auto simp: sample_room_def zero_room_def)
qed

text \<open>At the level \<open>titles\<close> a booking without clock times, such as one for the whole day, occupies nothing.\<close>

lemma all_day_entry_is_no_booking:
  "et_date_time (ei_start it) = [] \<Longrightarrow> \<not> item_covers it t"
  by (simp add: item_covers_def range_covers_def)

lemma titles_status_is_occupancy:
  assumes "fetch_events js http now room from til = Inr s" "from \<le> t"
  shows "status_at s t = ''in_meeting'' \<longleftrightarrow> (\<exists>it \<in> set (answered_items js http room from til). item_covers it t)"
  by (rule full_events.status_iff [OF assms])

end
