(* ===== verification/TelemetrySink.thy ===== *)
theory TelemetrySink
  imports Telemetry
begin

text \<open>
  The durable copy of telemetry: the interface \<open>Sink\<close> of \<open>sink.go\<close> as a locale, and its SQLite
  implementation (\<open>sqlite.go\<close>) as two tables. A driver error is an input of the step that meets it,
  and the transaction of \<open>Append\<close> then leaves both tables as they were. The JSON text of the rollup
  stands for the report that it encodes. Times are stored in whole seconds, so what a restart reads
  back is the in-memory view rounded down to the second.
\<close>

section \<open>The interface\<close>

definition to_second :: "time \<Rightarrow> time" where "to_second t = unix t * second"

text \<open>What the store keeps of a record when the device's previous record was \<open>old\<close>: the time of the
  last repaint is kept when the new record has none.\<close>

definition stored :: "tel_record option \<Rightarrow> tel_record \<Rightarrow> tel_record" where
  "stored old rec =
     rec\<lparr>tr_last_seen := to_second (tr_last_seen rec),
         tr_last_rendered :=
           (if \<not> is_zero_time (tr_last_rendered rec) then to_second (tr_last_rendered rec)
            else case old of Some prev \<Rightarrow> tr_last_rendered prev | None \<Rightarrow> zero_time)\<rparr>"

locale telemetry_sink =
  fixes append :: "bool \<Rightarrow> 's \<Rightarrow> tel_record \<Rightarrow> 's option"
    and latest :: "'s \<Rightarrow> string \<Rightarrow> tel_record option"
    and prune :: "'s \<Rightarrow> time \<Rightarrow> 's \<times> nat"
    and empty :: 's
  assumes append_ok: "\<exists>s'. append True s rec = Some s'"
    and append_fail: "append False s rec = None"
    and latest_same: "append True s rec = Some s' \<Longrightarrow>
          latest s' (tr_device rec) = Some (stored (latest s (tr_device rec)) rec)"
    and latest_other: "append True s rec = Some s' \<Longrightarrow> d \<noteq> tr_device rec \<Longrightarrow> latest s' d = latest s d"
    and latest_prune: "latest (fst (prune s t)) d = latest s d"
    and latest_empty: "latest empty d = None"
begin

text \<open>The records the writer hands over, each with the driver's answer, and the prunes in between.\<close>

fun write_all :: "'s \<Rightarrow> ((bool \<times> tel_record) + time) list \<Rightarrow> 's" where
  "write_all s [] = s"
| "write_all s (Inl (ok, rec) # ops) =
     (case append ok s rec of Some s' \<Rightarrow> write_all s' ops | None \<Rightarrow> write_all s ops)"
| "write_all s (Inr t # ops) = write_all (fst (prune s t)) ops"

definition accepted :: "string \<Rightarrow> ((bool \<times> tel_record) + time) list \<Rightarrow> tel_record list" where
  "accepted d ops = concat (map (\<lambda>op. case op of
     Inl (ok, rec) \<Rightarrow> if ok \<and> tr_device rec = d then [rec] else [] | Inr t \<Rightarrow> []) ops)"

lemma latest_write_all:
  "latest (write_all s ops) d = foldl (\<lambda>a rec. Some (stored a rec)) (latest s d) (accepted d ops)"
proof (induction s ops rule: write_all.induct)
  case (1 s)
  show ?case by (simp add: accepted_def)
next
  case (2 s ok rec ops)
  show ?case
  proof (cases ok)
    case True
    obtain s' where s': "append True s rec = Some s'" using append_ok by blast
    with 2 True have ih: "latest (write_all s' ops) d
        = foldl (\<lambda>a rec. Some (stored a rec)) (latest s' d) (accepted d ops)" by simp
    show ?thesis
      using latest_same [OF s'] latest_other [OF s', of d] True s' ih
      by (cases "tr_device rec = d") (auto simp: accepted_def)
  next
    case False
    with 2 append_fail [of s rec] show ?thesis by (simp add: accepted_def)
  qed
next
  case (3 s t ops)
  then show ?case by (simp add: accepted_def latest_prune)
qed

end

section \<open>SQLite\<close>

record sample_row =
  sa_battery_mv :: int
  sa_battery_pct :: int
  sa_rssi :: int
  sa_heap_free :: int
  sa_heap_min :: int
  sa_wake_ms :: int
  sa_boot_count :: int
  sa_rendered :: bool
  sa_wake_reason :: string
  sa_fw :: string
  sa_err :: string
  sa_temp_c :: "rat option"
  sa_rh :: "rat option"

record device_row =
  dr_last_seen_ts :: int
  dr_last_rendered_ts :: "int option"
  dr_last_report :: report

text \<open>The rows in insertion order; the primary keys are \<open>(device_id, ts)\<close> and \<open>device_id\<close>.\<close>

record tel_db =
  db_samples :: "((string \<times> int) \<times> sample_row) list"
  db_devices :: "(string \<times> device_row) list"

definition empty_db :: tel_db where "empty_db = \<lparr>db_samples = [], db_devices = []\<rparr>"

definition sample_of :: "report \<Rightarrow> sample_row" where
  "sample_of r = \<lparr>sa_battery_mv = rp_battery_mv r, sa_battery_pct = rp_battery_pct r, sa_rssi = rp_rssi r,
     sa_heap_free = rp_heap_free r, sa_heap_min = rp_heap_min r, sa_wake_ms = rp_wake_ms r,
     sa_boot_count = rp_boot r, sa_rendered = rp_rendered r, sa_wake_reason = rp_wake_reason r,
     sa_fw = rp_fw r, sa_err = rp_err r, sa_temp_c = rp_temp r, sa_rh = rp_rh r\<rparr>"

definition upsert_device :: "(string \<times> device_row) list \<Rightarrow> tel_record \<Rightarrow> (string \<times> device_row) list" where
  "upsert_device devs rec =
     (let rendered = (if is_zero_time (tr_last_rendered rec) then None else Some (unix (tr_last_rendered rec)));
          coalesced = (case rendered of Some t \<Rightarrow> Some t
                       | None \<Rightarrow> (case map_of devs (tr_device rec) of
                                    Some row \<Rightarrow> dr_last_rendered_ts row | None \<Rightarrow> None))
      in upsert (\<lambda>(d, row). d = tr_device rec)
           (tr_device rec, \<lparr>dr_last_seen_ts = unix (tr_last_seen rec), dr_last_rendered_ts = coalesced,
              dr_last_report = tr_report rec\<rparr>) devs)"

definition sql_append :: "bool \<Rightarrow> tel_db \<Rightarrow> tel_record \<Rightarrow> tel_db option" where
  "sql_append ok db rec =
     (if \<not> ok then None
      else Some \<lparr>db_samples = upsert (\<lambda>(k, row). k = (tr_device rec, unix (tr_last_seen rec)))
                   ((tr_device rec, unix (tr_last_seen rec)), sample_of (tr_report rec)) (db_samples db),
                 db_devices = upsert_device (db_devices db) rec\<rparr>)"

definition record_of_row :: "string \<times> device_row \<Rightarrow> tel_record" where
  "record_of_row dr = (case dr of (d, row) \<Rightarrow>
     \<lparr>tr_device = d, tr_report = dr_last_report row, tr_last_seen = dr_last_seen_ts row * second,
      tr_last_rendered = (case dr_last_rendered_ts row of Some t \<Rightarrow> t * second | None \<Rightarrow> zero_time)\<rparr>)"

definition sql_load_latest :: "tel_db \<Rightarrow> tel_record list" where
  "sql_load_latest db = map record_of_row (db_devices db)"

definition sql_prune :: "tel_db \<Rightarrow> time \<Rightarrow> tel_db \<times> nat" where
  "sql_prune db before =
     (let kept = filter (\<lambda>((d, ts), row). \<not> ts < unix before) (db_samples db)
      in (db\<lparr>db_samples := kept\<rparr>, length (db_samples db) - length kept))"

text \<open>\<open>Store.prune\<close>; \<open>ok\<close> is the driver's answer.\<close>

definition store_prune :: "bool \<Rightarrow> duration \<Rightarrow> time \<Rightarrow> tel_db \<Rightarrow> tel_db" where
  "store_prune ok retention now db =
     (if retention \<le> 0 then db else if \<not> ok then db else fst (sql_prune db (now - retention)))"

lemma store_prune_keeps:
  "x \<in> set (db_samples (store_prune True retention now db)) \<longleftrightarrow>
     x \<in> set (db_samples db) \<and> (retention \<le> 0 \<or> unix (now - retention) \<le> snd (fst x))"
  by (cases x) (auto simp: store_prune_def sql_prune_def Let_def)

definition sql_latest :: "tel_db \<Rightarrow> string \<Rightarrow> tel_record option" where
  "sql_latest db d = map_option (\<lambda>row. record_of_row (d, row)) (map_of (db_devices db) d)"

lemma map_of_upsert:
  "map_of (upsert (\<lambda>(k, v). k = a) (a, b) xs) k = (if k = a then Some b else map_of xs k)"
proof -
  have "upsert (\<lambda>(k, v). k = a) (a, b) xs =
      (case replace_first (\<lambda>(k, v). k = a) (a, b) xs of Some ys \<Rightarrow> ys | None \<Rightarrow> xs @ [(a, b)])"
    by (simp add: upsert_def)
  moreover have "replace_first (\<lambda>(k, v). k = a) (a, b) xs = Some ys \<Longrightarrow>
      map_of ys k = (if k = a then Some b else map_of xs k)" for ys
    by (induction xs arbitrary: ys) (auto split: if_splits)
  moreover have "replace_first (\<lambda>(k, v). k = a) (a, b) xs = None \<Longrightarrow>
      map_of (xs @ [(a, b)]) k = (if k = a then Some b else map_of xs k)"
    by (induction xs) (auto split: if_splits)
  ultimately show ?thesis by (auto split: option.splits)
qed

lemma stored_row:
  "record_of_row (tr_device rec, \<lparr>dr_last_seen_ts = unix (tr_last_seen rec),
     dr_last_rendered_ts = (case (if is_zero_time (tr_last_rendered rec) then None
         else Some (unix (tr_last_rendered rec))) of Some t \<Rightarrow> Some t
       | None \<Rightarrow> (case map_of devs (tr_device rec) of Some row \<Rightarrow> dr_last_rendered_ts row | None \<Rightarrow> None)),
     dr_last_report = tr_report rec\<rparr>)
   = stored (map_option (\<lambda>row. record_of_row (tr_device rec, row)) (map_of devs (tr_device rec))) rec"
  by (cases rec) (auto simp: stored_def record_of_row_def to_second_def split: option.splits)

text \<open>The SQLite sink keeps the laws of the interface.\<close>

interpretation sqlite: telemetry_sink sql_append sql_latest sql_prune empty_db
proof
  show "\<exists>s'. sql_append True s rec = Some s'" for s rec by (simp add: sql_append_def)
  show "sql_append False s rec = None" for s rec by (simp add: sql_append_def)
  show "sql_latest s' (tr_device rec) = Some (stored (sql_latest s (tr_device rec)) rec)"
    if "sql_append True s rec = Some s'" for s rec s'
  proof -
    from that have "db_devices s' = upsert_device (db_devices s) rec"
      by (auto simp: sql_append_def)
    then show ?thesis
      by (simp add: sql_latest_def upsert_device_def map_of_upsert Let_def stored_row)
  qed
  show "sql_latest s' d = sql_latest s d"
    if "sql_append True s rec = Some s'" "d \<noteq> tr_device rec" for s rec s' d
  proof -
    from that have "db_devices s' = upsert_device (db_devices s) rec"
      by (auto simp: sql_append_def)
    with that(2) show ?thesis by (simp add: sql_latest_def upsert_device_def map_of_upsert Let_def)
  qed
  show "sql_latest (fst (sql_prune s t)) d = sql_latest s d" for s t d
    by (simp add: sql_latest_def sql_prune_def Let_def)
  show "sql_latest empty_db d = None" for d by (simp add: sql_latest_def empty_db_def)
qed

section \<open>A restart\<close>

text \<open>Every report through the whole chain: the memory takes it, the queue hands it over, the database
  appends it. \<open>ok\<close> is the driver's answer.\<close>

fun persisted_step :: "fleet \<times> tel_db \<Rightarrow> string \<times> report \<times> time \<Rightarrow> fleet \<times> tel_db" where
  "persisted_step (m, db) (d, r, now) =
     (ingest m d r now, the (sql_append True db (ingest_record m d r now)))"

definition rounded :: "dev_state \<Rightarrow> dev_state" where
  "rounded st = st\<lparr>ds_last_seen := to_second (ds_last_seen st),
     ds_last_rendered := (if is_zero_time (ds_last_rendered st) then zero_time
                          else to_second (ds_last_rendered st)),
     ds_room_status := [], ds_expected_wake := 0\<rparr>"

definition restarted_state :: "tel_record \<Rightarrow> dev_state" where
  "restarted_state rec =
     \<lparr>ds_last = tr_report rec, ds_last_seen = tr_last_seen rec, ds_last_rendered = tr_last_rendered rec,
      ds_room_status = [], ds_expected_wake = 0, ds_reported = True\<rparr>"

lemma warm_start_snoc:
  "warm_start (recs @ [rec]) = (warm_start recs)(tr_device rec \<mapsto> restarted_state rec)"
  by (simp add: warm_start_def restarted_state_def)

lemma warm_start_lookup:
  "distinct (map fst devs) \<Longrightarrow>
     warm_start (map record_of_row devs) d = map_option (\<lambda>row. restarted_state (record_of_row (d, row))) (map_of devs d)"
proof (induction devs rule: rev_induct)
  case Nil
  show ?case by (simp add: warm_start_def)
next
  case (snoc x devs)
  obtain d' row where x: "x = (d', row)" by (cases x)
  from snoc.prems have "map_of devs d' = None" by (auto simp: x map_of_eq_None_iff)
  with snoc show ?case
    by (auto simp: x warm_start_snoc map_of_append record_of_row_def map_add_def split: option.splits)
qed

lemma upsert_distinct:
  "distinct (map fst xs) \<Longrightarrow> distinct (map fst (upsert (\<lambda>(k, v). k = a) (a, b) xs))"
  by (rule upsert_cases [of xs "\<lambda>(k, v). k = a" "(a, b)"]) (auto simp: split_def)

lemma restarted_stored:
  assumes "map_option restarted_state old = map_option rounded (m d)" "zero_time < now"
  shows "restarted_state (stored old (ingest_record m d r now)) = rounded (ingest_state (state_of m d) r now)"
proof -
  have nz: "\<not> is_zero_time now" using assms(2) by (simp add: is_zero_time_def)
  have z: "is_zero_time zero_time" by (simp add: is_zero_time_def)
  have "(case old of Some prev \<Rightarrow> tr_last_rendered prev | None \<Rightarrow> zero_time)
      = (let t = ds_last_rendered (state_of m d) in if is_zero_time t then zero_time else to_second t)"
  proof -
    from assms(1) have "map_option (ds_last_rendered \<circ> restarted_state) old
        = map_option (ds_last_rendered \<circ> rounded) (m d)" by (metis option.map_comp)
    with z show ?thesis
      by (cases old; cases "m d") (auto simp: restarted_state_def rounded_def state_of_def zero_state_def Let_def)
  qed
  then show ?thesis using nz
    by (auto simp: restarted_state_def stored_def ingest_record_def rounded_def ingest_state_def Let_def)
qed

lemma persisted_invariant:
  assumes "\<forall>(d, r, t) \<in> set evs. zero_time < t" "foldl persisted_step (Map.empty, empty_db) evs = (m, db)"
  shows "distinct (map fst (db_devices db))
    \<and> map_option restarted_state (sql_latest db d) = map_option rounded (m d)"
  using assms
proof (induction evs arbitrary: m db d rule: rev_induct)
  case Nil
  then have "m = Map.empty" "db = empty_db" by auto
  then show ?case by (simp add: empty_db_def sql_latest_def)
next
  case (snoc ev evs)
  obtain d' r now where ev: "ev = (d', r, now)" by (cases ev)
  obtain m0 db0 where mid: "foldl persisted_step (Map.empty, empty_db) evs = (m0, db0)" by fastforce
  have ih: "distinct (map fst (db_devices db0))"
    "map_option restarted_state (sql_latest db0 x) = map_option rounded (m0 x)" for x
    using snoc.IH [OF _ mid] snoc.prems(1) by auto
  let ?rec = "ingest_record m0 d' r now"
  obtain db1 where db1: "sql_append True db0 ?rec = Some db1" using sqlite.append_ok by blast
  from snoc.prems(2) mid db1 have m: "m = ingest m0 d' r now" "db = db1" by (simp_all add: ev)
  have "distinct (map fst (db_devices db))"
    using db1 ih(1) by (auto simp: m sql_append_def upsert_device_def Let_def upsert_distinct)
  moreover have "map_option restarted_state (sql_latest db d) = map_option rounded (m d)"
  proof (cases "d = d'")
    case True
    have "sql_latest db1 d' = Some (stored (sql_latest db0 d') ?rec)"
      using sqlite.latest_same [OF db1] by (simp add: ingest_record_def)
    moreover have "zero_time < now" using snoc.prems(1) by (simp add: ev)
    ultimately show ?thesis
      using restarted_stored [where m = m0, OF ih(2)] True by (simp add: m ingest_def)
  next
    case False
    with sqlite.latest_other [OF db1, of d] ih(2) [of d] show ?thesis
      by (simp add: m ingest_def ingest_record_def)
  qed
  ultimately show ?case ..
qed

text \<open>C12. A restart gives back the fleet view: when every report reached the database, the map that
  \<open>NewWithSink\<close> builds is the map the broker had, with its times rounded down to the second and
  the calendar's room statuses still to come.\<close>

theorem restart_restores_fleet:
  assumes "\<forall>(d, r, t) \<in> set evs. zero_time < t" "foldl persisted_step (Map.empty, empty_db) evs = (m, db)"
  shows "warm_start (sql_load_latest db) d = map_option rounded (m d)"
proof -
  note inv = persisted_invariant [OF assms]
  have "warm_start (sql_load_latest db) d = map_option restarted_state (sql_latest db d)"
    using inv by (simp add: sql_load_latest_def warm_start_lookup sql_latest_def option.map_comp comp_def)
  with inv show ?thesis by simp
qed

theorem restart_restores_fleet_witness:
  "let (m, db) = foldl persisted_step (Map.empty, empty_db)
       [(''d1'', zero_report\<lparr>rp_rendered := True\<rparr>, 1500000000), (''d1'', zero_report\<lparr>rp_battery_pct := 80\<rparr>, 2500000000)]
   in warm_start (sql_load_latest db) ''d1'' = map_option rounded (m ''d1'') \<and> m ''d1'' \<noteq> None"
proof -
  let ?evs = "[(''d1'', zero_report\<lparr>rp_rendered := True\<rparr>, 1500000000 :: int),
    (''d1'', zero_report\<lparr>rp_battery_pct := 80\<rparr>, 2500000000)]"
  have t: "\<forall>(d, r, t) \<in> set ?evs. zero_time < t" by (simp add: zero_time_def second_def)
  have "m ''d1'' \<noteq> None" if "foldl persisted_step (Map.empty, empty_db) ?evs = (m, db)" for m db
    using that by (auto simp: ingest_def)
  with restart_restores_fleet [OF t] show ?thesis by (auto split: prod.splits simp del: foldl_Cons)
qed

text \<open>Pruning takes only samples older than the cut, and never the view of a device.\<close>

lemma sql_prune_correct:
  "(k, row) \<in> set (db_samples (fst (sql_prune db t))) \<longleftrightarrow> (k, row) \<in> set (db_samples db) \<and> unix t \<le> snd k"
  "db_devices (fst (sql_prune db t)) = db_devices db"
  by (auto simp: sql_prune_def Let_def not_less)

end
