(* ===== verification/TelemetryQueue.thy ===== *)
theory TelemetryQueue
  imports TelemetrySink
begin

text \<open>
  The queue between \<open>Ingest\<close> and the writer of \<open>telemetry.go\<close>, and the race with \<open>Close\<close>, as a step
  relation over the instructions that touch shared state. Request threads are numbered; each is at
  one of the points between its \<open>RLock\<close> and \<open>RUnlock\<close>. A send on a closed channel is a panic. The
  writer takes records one at a time, appends them (or counts an error) and prunes; \<open>Close\<close> takes
  the write lock, sets \<open>closed\<close>, closes the channel, unlocks, waits for the writer, and closes the
  sink. The theorems: no execution panics, the queue stays within its bound, the writer takes the
  records in the order in which they were sent, and a \<open>Close\<close> that no stop signal preceded has
  appended or counted every record; after a stop signal a record can be lost.
\<close>

section \<open>States\<close>

datatype ingest_pc =
    Idle
  | Locked tel_record
  | Sending tel_record
  | Unlocking

datatype close_pc = Open | Holding | Flagged | ChannelClosed | Waiting | SinkClosed

datatype writer_pc = Running | Exited

record queue_state =
  qs_threads :: "nat \<Rightarrow> ingest_pc"
  qs_closer :: close_pc
  qs_writer :: writer_pc
  qs_queue :: "tel_record list"
  qs_cap :: nat
  qs_closed :: bool
  qs_chan_closed :: bool
  qs_panicked :: bool
  qs_ctx_done :: bool
  qs_dropped :: "tel_record list"
  qs_submitted :: "tel_record list"
  qs_appended :: "tel_record list"
  qs_failed :: "tel_record list"
  qs_taken :: "tel_record list"
  qs_db :: tel_db

text \<open>\<open>qs_dropped\<close> and \<open>qs_failed\<close> are the records behind the counters \<open>dropped\<close> and \<open>sinkErrs\<close>
  (which also counts failed prunes);
  \<open>qs_submitted\<close>, \<open>qs_taken\<close> and \<open>qs_appended\<close> record what happened and steer nothing. \<open>Run\<close> with a
  queue size of zero or less takes 256.\<close>

definition queue_size :: "int \<Rightarrow> nat" where
  "queue_size n = (if n \<le> 0 then 256 else nat n)"

definition initial_queue :: "int \<Rightarrow> tel_db \<Rightarrow> queue_state" where
  "initial_queue n db = \<lparr>qs_threads = (\<lambda>i. Idle), qs_closer = Open, qs_writer = Running, qs_queue = [],
     qs_cap = queue_size n, qs_closed = False, qs_chan_closed = False, qs_panicked = False,
     qs_ctx_done = False, qs_dropped = [], qs_submitted = [], qs_appended = [], qs_failed = [], qs_taken = [], qs_db = db\<rparr>"

definition lock_held :: "queue_state \<Rightarrow> bool" where
  "lock_held s \<longleftrightarrow> qs_closer s \<in> {Holding, Flagged, ChannelClosed}"

section \<open>Steps\<close>

definition do_check :: "nat \<Rightarrow> tel_record \<Rightarrow> queue_state \<Rightarrow> queue_state" where
  "do_check i rec s =
     (if qs_closed s then s\<lparr>qs_threads := (qs_threads s)(i := Unlocking), qs_dropped := qs_dropped s @ [rec]\<rparr>
      else s\<lparr>qs_threads := (qs_threads s)(i := Sending rec)\<rparr>)"

definition do_send :: "nat \<Rightarrow> tel_record \<Rightarrow> queue_state \<Rightarrow> queue_state" where
  "do_send i rec s =
     (if qs_chan_closed s then s\<lparr>qs_panicked := True\<rparr>
      else if length (qs_queue s) < qs_cap s
           then s\<lparr>qs_threads := (qs_threads s)(i := Unlocking), qs_queue := qs_queue s @ [rec]\<rparr>
           else s\<lparr>qs_threads := (qs_threads s)(i := Unlocking), qs_dropped := qs_dropped s @ [rec]\<rparr>)"

definition do_take :: "bool \<Rightarrow> queue_state \<Rightarrow> queue_state" where
  "do_take ok s =
     (case qs_queue s of
        [] \<Rightarrow> s
      | rec # rest \<Rightarrow>
          (case sql_append ok (qs_db s) rec of
             Some db \<Rightarrow> s\<lparr>qs_queue := rest, qs_taken := qs_taken s @ [rec],
                          qs_appended := qs_appended s @ [rec], qs_db := db\<rparr>
           | None \<Rightarrow> s\<lparr>qs_queue := rest, qs_taken := qs_taken s @ [rec],
                       qs_failed := qs_failed s @ [rec]\<rparr>))"

inductive queue_step :: "queue_state \<Rightarrow> queue_state \<Rightarrow> bool" where
  rlock: "qs_threads s i = Idle \<Longrightarrow> \<not> lock_held s \<Longrightarrow>
     queue_step s (s\<lparr>qs_threads := (qs_threads s)(i := Locked rec), qs_submitted := qs_submitted s @ [rec]\<rparr>)"
| check: "qs_threads s i = Locked rec \<Longrightarrow> queue_step s (do_check i rec s)"
| send: "qs_threads s i = Sending rec \<Longrightarrow> queue_step s (do_send i rec s)"
| runlock: "qs_threads s i = Unlocking \<Longrightarrow> queue_step s (s\<lparr>qs_threads := (qs_threads s)(i := Idle)\<rparr>)"
| lock: "qs_closer s = Open \<Longrightarrow> \<forall>i. qs_threads s i = Idle \<Longrightarrow> queue_step s (s\<lparr>qs_closer := Holding\<rparr>)"
| flag: "qs_closer s = Holding \<Longrightarrow> queue_step s (s\<lparr>qs_closer := Flagged, qs_closed := True\<rparr>)"
| close_chan: "qs_closer s = Flagged \<Longrightarrow>
     queue_step s (s\<lparr>qs_closer := ChannelClosed, qs_chan_closed := True\<rparr>)"
| unlock: "qs_closer s = ChannelClosed \<Longrightarrow> queue_step s (s\<lparr>qs_closer := Waiting\<rparr>)"
| take: "qs_writer s = Running \<Longrightarrow> qs_queue s \<noteq> [] \<Longrightarrow> queue_step s (do_take ok s)"
| prune_ok: "qs_writer s = Running \<Longrightarrow> queue_step s (s\<lparr>qs_db := fst (sql_prune (qs_db s) t)\<rparr>)"
| exit: "qs_writer s = Running \<Longrightarrow> qs_queue s = [] \<Longrightarrow> qs_chan_closed s \<Longrightarrow>
     queue_step s (s\<lparr>qs_writer := Exited\<rparr>)"
| cancel: "queue_step s (s\<lparr>qs_ctx_done := True\<rparr>)"
| ctx_exit: "qs_writer s = Running \<Longrightarrow> qs_queue s = [] \<Longrightarrow> qs_ctx_done s \<Longrightarrow>
     queue_step s (s\<lparr>qs_writer := Exited\<rparr>)"
| close_sink: "qs_closer s = Waiting \<Longrightarrow> qs_writer s = Exited \<Longrightarrow>
     queue_step s (s\<lparr>qs_closer := SinkClosed\<rparr>)"

inductive_cases queue_stepE: "queue_step s s'"

inductive queue_reach :: "queue_state \<Rightarrow> queue_state \<Rightarrow> bool" for s0 where
  reach_refl: "queue_reach s0 s0"
| reach_step: "queue_reach s0 s \<Longrightarrow> queue_step s s' \<Longrightarrow> queue_reach s0 s'"

section \<open>The invariant\<close>

text \<open>The flags are functions of where \<open>Close\<close> stands; while it holds the write lock no thread is
  inside, and a thread that is about to send can only be there before \<open>Close\<close> began.\<close>

definition flags_ok :: "queue_state \<Rightarrow> bool" where
  "flags_ok s \<longleftrightarrow> qs_closed s = (qs_closer s \<notin> {Open, Holding})
     \<and> qs_chan_closed s = (qs_closer s \<notin> {Open, Holding, Flagged})"

definition all_idle :: "(nat \<Rightarrow> ingest_pc) \<Rightarrow> bool" where
  "all_idle th \<longleftrightarrow> (\<forall>i. th i = Idle)"

definition none_sending :: "(nat \<Rightarrow> ingest_pc) \<Rightarrow> bool" where
  "none_sending th \<longleftrightarrow> (\<forall>i rec. th i \<noteq> Sending rec)"

definition senders_ok :: "queue_state \<Rightarrow> bool" where
  "senders_ok s \<longleftrightarrow> (lock_held s \<longrightarrow> all_idle (qs_threads s))
     \<and> (qs_closer s \<noteq> Open \<longrightarrow> none_sending (qs_threads s)) \<and> \<not> qs_panicked s"

lemma all_idle_none_sending: "all_idle th \<Longrightarrow> none_sending th"
  by (simp add: all_idle_def none_sending_def)

lemma all_idle_upd: "all_idle th \<Longrightarrow> all_idle (th(i := Idle))"
  by (simp add: all_idle_def)

lemma not_all_idle: "th i \<noteq> Idle \<Longrightarrow> \<not> all_idle th"
  by (auto simp: all_idle_def)

lemma not_none_sending: "th i = Sending rec \<Longrightarrow> \<not> none_sending th"
  by (auto simp: none_sending_def)

lemma none_sending_upd:
  "none_sending th \<Longrightarrow> none_sending (th(i := Idle))"
  "none_sending th \<Longrightarrow> none_sending (th(i := Locked rec))"
  "none_sending th \<Longrightarrow> none_sending (th(i := Unlocking))"
  by (simp_all add: none_sending_def)

lemmas thread_simps = all_idle_none_sending all_idle_upd none_sending_upd not_all_idle not_none_sending

definition writer_ok :: "queue_state \<Rightarrow> bool" where
  "writer_ok s \<longleftrightarrow> length (qs_queue s) \<le> qs_cap s
     \<and> (qs_closer s = SinkClosed \<longrightarrow> qs_writer s = Exited)
     \<and> (qs_writer s = Exited \<and> \<not> qs_ctx_done s \<longrightarrow> qs_queue s = [] \<and> qs_closer s \<notin> {Open, Holding, Flagged})"

definition safe :: "queue_state \<Rightarrow> bool" where
  "safe s \<longleftrightarrow> flags_ok s \<and> senders_ok s \<and> writer_ok s"

lemmas safe_defs = safe_def flags_ok_def senders_ok_def writer_ok_def lock_held_def

lemma do_take_fields:
  "qs_threads (do_take ok s) = qs_threads s" "qs_closer (do_take ok s) = qs_closer s"
  "qs_writer (do_take ok s) = qs_writer s" "qs_cap (do_take ok s) = qs_cap s"
  "qs_closed (do_take ok s) = qs_closed s" "qs_chan_closed (do_take ok s) = qs_chan_closed s"
  "qs_panicked (do_take ok s) = qs_panicked s" "qs_dropped (do_take ok s) = qs_dropped s"
  "qs_ctx_done (do_take ok s) = qs_ctx_done s" "qs_submitted (do_take ok s) = qs_submitted s" "qs_queue (do_take ok s) = tl (qs_queue s)"
  by (auto simp: do_take_def split: list.splits option.splits)

lemma safe_initial: "safe (initial_queue n db)"
  by (simp add: safe_defs initial_queue_def all_idle_def none_sending_def)

lemma flags_step:
  assumes "queue_step s s'" "flags_ok s"
  shows "flags_ok s'"
  using assms(1)
proof cases
  case (take ok)
  with assms(2) show ?thesis by (simp add: flags_ok_def do_take_fields)
qed (use assms(2) in \<open>simp_all add: flags_ok_def do_check_def do_send_def\<close>)

lemma senders_step:
  assumes "queue_step s s'" "flags_ok s" "senders_ok s"
  shows "senders_ok s'"
  using assms(1)
proof cases
  case (rlock i rec)
  with assms(3) show ?thesis by (simp add: senders_ok_def lock_held_def thread_simps)
next
  case (check i rec)
  have free: "\<not> lock_held s" using assms(3) check(2) not_all_idle [of "qs_threads s" i]
    by (auto simp: senders_ok_def)
  show ?thesis
  proof (cases "qs_closed s")
    case True
    with check free assms(3) show ?thesis
      by (simp add: senders_ok_def do_check_def lock_held_def thread_simps)
  next
    case False
    with assms(2) free have "qs_closer s = Open" by (auto simp: flags_ok_def lock_held_def)
    with check False assms(3) show ?thesis by (simp add: senders_ok_def do_check_def lock_held_def)
  qed
next
  case (send i rec)
  then have "\<not> none_sending (qs_threads s)" by (simp add: not_none_sending)
  with assms(3) have "qs_closer s = Open" by (auto simp: senders_ok_def)
  with assms(2,3) send show ?thesis
    by (simp add: flags_ok_def senders_ok_def do_send_def lock_held_def)
next
  case (runlock i)
  with assms(3) show ?thesis by (simp add: senders_ok_def lock_held_def thread_simps)
next
  case lock
  then have "all_idle (qs_threads s)" by (simp add: all_idle_def)
  with lock assms(3) show ?thesis by (simp add: senders_ok_def all_idle_none_sending)
next
  case (take ok)
  with assms(3) show ?thesis by (simp add: senders_ok_def do_take_fields lock_held_def)
qed (use assms(3) in \<open>simp_all add: senders_ok_def lock_held_def\<close>)

lemma writer_step:
  assumes "queue_step s s'" "flags_ok s" "senders_ok s" "writer_ok s"
  shows "writer_ok s'"
  using assms(1)
proof cases
  case (send i rec)
  then have "\<not> none_sending (qs_threads s)" by (simp add: not_none_sending)
  with assms(3) have "qs_closer s = Open" by (auto simp: senders_ok_def)
  with assms(4) send show ?thesis by (auto simp: writer_ok_def do_send_def)
next
  case (check i rec)
  with assms(4) show ?thesis by (simp add: writer_ok_def do_check_def)
next
  case (take ok)
  then have "length (tl (qs_queue s)) \<le> qs_cap s" using assms(4) by (auto simp: writer_ok_def)
  with take assms(4) show ?thesis by (simp add: writer_ok_def do_take_fields)
next
  case exit
  with assms(2,4) show ?thesis by (auto simp: writer_ok_def flags_ok_def)
qed (use assms(4) in \<open>auto simp: writer_ok_def\<close>)

lemma safe_step: "queue_step s s' \<Longrightarrow> safe s \<Longrightarrow> safe s'"
  unfolding safe_def by (blast intro: flags_step senders_step writer_step)

lemma queue_reach_safe: "queue_reach (initial_queue n db) s \<Longrightarrow> safe s"
  by (induction rule: queue_reach.induct) (auto intro: safe_initial safe_step)

section \<open>Nothing is lost silently\<close>

definition in_flight :: "ingest_pc \<Rightarrow> tel_record multiset" where
  "in_flight p = (case p of Locked r \<Rightarrow> {#r#} | Sending r \<Rightarrow> {#r#} | _ \<Rightarrow> {#})"

text \<open>Every submitted record is with a thread, in the queue, dropped and counted, or taken by the
  writer, which has appended it or counted a failure. The threads beyond \<open>N\<close> have never started.\<close>

definition accounted :: "nat \<Rightarrow> queue_state \<Rightarrow> bool" where
  "accounted N s \<longleftrightarrow> (\<forall>i \<ge> N. qs_threads s i = Idle)
     \<and> mset (qs_submitted s) = (\<Sum>i < N. in_flight (qs_threads s i)) + mset (qs_queue s)
         + mset (qs_dropped s) + mset (qs_taken s)
     \<and> mset (qs_taken s) = mset (qs_appended s) + mset (qs_failed s)"

lemma sum_in_flight_upd:
  fixes N :: nat
  assumes "i < N"
  shows "(\<Sum>j < N. in_flight ((th(i := p)) j)) + in_flight (th i)
    = (\<Sum>j < N. in_flight (th j)) + in_flight p"
proof -
  have split: "(\<Sum>j < N. f j) = f i + (\<Sum>j \<in> {..<N} - {i}. f j)" for f :: "nat \<Rightarrow> tel_record multiset"
    using assms by (simp add: sum.remove)
  have "(\<Sum>j \<in> {..<N} - {i}. in_flight ((th(i := p)) j)) = (\<Sum>j \<in> {..<N} - {i}. in_flight (th j))"
    by (intro sum.cong) auto
  then have "(\<Sum>j < N. in_flight ((th(i := p)) j)) = in_flight p + (\<Sum>j \<in> {..<N} - {i}. in_flight (th j))"
    using split [of "\<lambda>j. in_flight ((th(i := p)) j)"] by simp
  with split [of "\<lambda>j. in_flight (th j)"] show ?thesis by simp
qed

lemma accounted_initial: "accounted 0 (initial_queue n db)"
  by (simp add: accounted_def initial_queue_def)

lemma accounted_mono:
  assumes "accounted N s" "N \<le> M"
  shows "accounted M s"
proof -
  have "(\<Sum>i < M. in_flight (qs_threads s i)) = (\<Sum>i < N. in_flight (qs_threads s i))"
    using assms by (intro sum.mono_neutral_right) (auto simp: accounted_def in_flight_def)
  with assms show ?thesis by (auto simp: accounted_def)
qed

lemma accounted_step:
  assumes "queue_step s s'" "safe s" "accounted N s"
  shows "\<exists>M. accounted M s'"
  using assms(1)
proof cases
  case (rlock i rec)
  define M where "M = max N (Suc i)"
  have "accounted M s" using accounted_mono [OF assms(3)] by (simp add: M_def)
  moreover have i: "i < M" by (simp add: M_def)
  ultimately have "accounted M s'"
    using sum_in_flight_upd [OF i, of "qs_threads s" "Locked rec"] rlock
    by (auto simp: accounted_def in_flight_def)
  then show ?thesis ..
next
  case (check i rec)
  then have i: "i < N" using assms(3) by (metis accounted_def ingest_pc.distinct(1) not_less)
  have "accounted N s'"
    using sum_in_flight_upd [OF i, of "qs_threads s" "Unlocking"]
      sum_in_flight_upd [OF i, of "qs_threads s" "Sending rec"] check assms(3) i
    by (auto simp: accounted_def in_flight_def do_check_def)
  then show ?thesis ..
next
  case (send i rec)
  then have i: "i < N" using assms(3) by (metis accounted_def ingest_pc.distinct(3) not_less)
  have "accounted N s'"
    using sum_in_flight_upd [OF i, of "qs_threads s" "Unlocking"] send assms(3) i
    by (auto simp: accounted_def in_flight_def do_send_def)
  then show ?thesis ..
next
  case (runlock i)
  then have i: "i < N" using assms(3) by (metis accounted_def ingest_pc.distinct(5) not_less)
  have "accounted N s'"
    using sum_in_flight_upd [OF i, of "qs_threads s" Idle] runlock assms(3) i
    by (auto simp: accounted_def in_flight_def)
  then show ?thesis ..
next
  case (take ok)
  then have "accounted N s'"
    using assms(3) by (auto simp: accounted_def do_take_def split: list.splits option.splits)
  then show ?thesis ..
qed (use assms(3) in \<open>auto simp: accounted_def\<close>)

lemma queue_reach_accounted: "queue_reach (initial_queue n db) s \<Longrightarrow> \<exists>N. accounted N s"
proof (induction rule: queue_reach.induct)
  case reach_refl
  show ?case using accounted_initial by blast
next
  case (reach_step s s')
  from queue_reach_safe [OF reach_step(1)] reach_step(2,3) show ?case
    using accounted_step by blast
qed

lemma queue_step_cap: "queue_step s s' \<Longrightarrow> qs_cap s' = qs_cap s"
  by (cases rule: queue_step.cases, assumption)
    (simp_all add: do_check_def do_send_def do_take_fields)

lemma queue_reach_cap: "queue_reach s0 s \<Longrightarrow> qs_cap s = qs_cap s0"
  by (induction rule: queue_reach.induct) (auto dest: queue_step_cap)

lemma queue_step_fifo:
  assumes "queue_step s s'"
  shows "\<exists>new. qs_taken s' @ qs_queue s' = qs_taken s @ qs_queue s @ new"
  using assms
proof cases
  case (send i rec)
  then show ?thesis by (auto simp: do_send_def)
next
  case (take ok)
  then show ?thesis by (auto simp: do_take_def split: list.splits option.splits)
qed (auto simp: do_check_def)

text \<open>The writer takes the records in the order in which they were sent.\<close>

lemma queue_reach_fifo: "queue_reach s0 s \<Longrightarrow> \<exists>new. qs_taken s @ qs_queue s = qs_taken s0 @ qs_queue s0 @ new"
proof (induction rule: queue_reach.induct)
  case (reach_step s s')
  from reach_step(3) queue_step_fifo [OF reach_step(2)] show ?case by (metis append.assoc)
qed auto

section \<open>Shutdown\<close>

text \<open>C9. However requests, the writer and \<open>Close\<close> interleave, a telemetry report never meets a closed
  channel, and the queue never holds more than its configured size.\<close>

theorem ingest_never_panics:
  assumes "queue_reach (initial_queue n db) s"
  shows "\<not> qs_panicked s \<and> length (qs_queue s) \<le> queue_size n"
  using queue_reach_safe [OF assms] queue_reach_cap [OF assms]
  by (simp add: safe_defs initial_queue_def)


definition sample_rec :: "string \<Rightarrow> tel_record" where
  "sample_rec d = \<lparr>tr_device = d, tr_report = zero_report, tr_last_seen = 0, tr_last_rendered = 0\<rparr>"

text \<open>One report through to the database, and then \<open>Close\<close>.\<close>

section \<open>Close returns\<close>

text \<open>The steps of \<open>Close\<close> and of the writer that get work done; a prune, a request and a signal are not.\<close>

definition works :: "queue_state \<Rightarrow> queue_state \<Rightarrow> bool" where
  "works s s' \<longleftrightarrow> qs_closer s' \<noteq> qs_closer s \<or> qs_writer s' \<noteq> qs_writer s \<or> length (qs_queue s') < length (qs_queue s)"

definition work_left :: "queue_state \<Rightarrow> nat" where
  "work_left s = (case qs_closer s of Open \<Rightarrow> 6 | Holding \<Rightarrow> 5 | Flagged \<Rightarrow> 4 | ChannelClosed \<Rightarrow> 3 | Waiting \<Rightarrow> 2 | SinkClosed \<Rightarrow> 0)
     + (if qs_writer s = Running then 1 else 0) + length (qs_queue s)"

lemma work_step:
  assumes "queue_step s s'" "safe s" "qs_closer s \<noteq> Open"
  shows "qs_closer s' \<noteq> Open \<and> work_left s' \<le> work_left s \<and> (works s s' \<longrightarrow> work_left s' < work_left s)"
  using assms(1)
proof cases
  case (send i rec)
  then show ?thesis using assms(2,3) not_none_sending by (auto simp: safe_defs)
next
  case (take ok)
  then show ?thesis using assms(3) by (auto simp: work_left_def do_take_fields)
qed (use assms(3) in \<open>auto simp: work_left_def works_def do_check_def\<close>)

text \<open>Until \<open>Close\<close> is through, one of its steps or of the writer's is possible.\<close>

lemma work_enabled:
  assumes "safe s" "qs_closer s \<notin> {Open, SinkClosed}"
  shows "\<exists>s'. queue_step s s' \<and> works s s'"
proof (cases "qs_closer s")
  case Waiting
  show ?thesis
  proof (cases "qs_writer s")
    case Exited
    with Waiting show ?thesis by (intro exI conjI, rule close_sink) (simp_all add: works_def)
  next
    case Running
    show ?thesis
    proof (cases "qs_queue s")
      case Nil
      have "qs_chan_closed s" using assms(1) Waiting by (simp add: safe_defs)
      with Running Nil show ?thesis by (intro exI conjI, rule exit) (simp_all add: works_def)
    next
      case (Cons rec rest)
      then have "queue_step s (do_take True s)" using Running by (intro queue_step.take) simp_all
      moreover have "works s (do_take True s)" using Cons by (simp add: works_def do_take_fields)
      ultimately show ?thesis by blast
    qed
  qed
next
  case Holding
  then show ?thesis by (intro exI conjI, rule flag) (simp_all add: works_def)
next
  case Flagged
  then show ?thesis by (intro exI conjI, rule close_chan) (simp_all add: works_def)
next
  case ChannelClosed
  then show ?thesis by (intro exI conjI, rule unlock) (simp_all add: works_def)
qed (use assms(2) in simp_all)

definition run_of :: "(nat \<Rightarrow> queue_state) \<Rightarrow> bool" where
  "run_of r \<longleftrightarrow> (\<forall>n. queue_step (r n) (r (Suc n)))"

lemma run_safe: "run_of r \<Longrightarrow> safe (r 0) \<Longrightarrow> safe (r n)"
  by (induction n) (auto simp: run_of_def dest: safe_step)

lemma run_work:
  assumes "run_of r" "safe (r 0)" "qs_closer (r k) \<noteq> Open" "k \<le> n"
  shows "qs_closer (r n) \<noteq> Open \<and> work_left (r n) \<le> work_left (r k)"
  using assms(4)
proof (induction n rule: dec_induct)
  case (step n)
  have "queue_step (r n) (r (Suc n))" "safe (r n)" using assms(1,2) run_safe by (auto simp: run_of_def)
  from work_step [OF this] step.IH show ?case by auto
qed (use assms(3) in simp)

text \<open>C29. Once \<open>Close\<close> has its lock it returns, however requests, prunes and signals are interleaved: until then a
  step of its own or of the writer is possible at every moment, and every run in which such steps
  keep being taken reaches the closed sink.\<close>

theorem close_returns:
  assumes "run_of r" "r 0 = initial_queue n db" "qs_closer (r k) \<noteq> Open"
    and fair: "\<And>m. \<exists>l \<ge> m. works (r l) (r (Suc l)) \<or> qs_closer (r l) = SinkClosed"
  shows "(\<exists>l \<ge> k. qs_closer (r l) = SinkClosed)
    \<and> (\<forall>l \<ge> k. qs_closer (r l) = SinkClosed \<or> (\<exists>s'. queue_step (r l) s' \<and> works (r l) s'))"
proof
  have safe: "safe (r l)" for l using run_safe [OF assms(1)] assms(2) safe_initial by simp
  show "\<exists>l \<ge> k. qs_closer (r l) = SinkClosed"
    using assms(3)
  proof (induction "work_left (r k)" arbitrary: k rule: less_induct)
    case less
    obtain l where l: "l \<ge> k" "works (r l) (r (Suc l)) \<or> qs_closer (r l) = SinkClosed" using fair by blast
    show ?case
    proof (cases "qs_closer (r l) = SinkClosed")
      case False
      then have w: "works (r l) (r (Suc l))" using l by simp
      note rl = run_work [OF assms(1) safe less.prems l(1)]
      have "queue_step (r l) (r (Suc l))" using assms(1) by (simp add: run_of_def)
      from work_step [OF this safe] rl w have "qs_closer (r (Suc l)) \<noteq> Open" "work_left (r (Suc l)) < work_left (r k)" by auto
      from less.hyps [OF this(2,1)] l(1) show ?thesis by (meson Suc_leD order_trans)
    qed (use l in blast)
  qed
  show "\<forall>l \<ge> k. qs_closer (r l) = SinkClosed \<or> (\<exists>s'. queue_step (r l) s' \<and> works (r l) s')"
    using run_work [OF assms(1) safe assms(3)] safe work_enabled by blast
qed

lemma clean_run:
  "\<exists>s. queue_reach (initial_queue 1 empty_db) s \<and> qs_closer s = SinkClosed \<and> \<not> qs_ctx_done s
     \<and> (\<forall>i. qs_threads s i = Idle) \<and> qs_submitted s = [sample_rec ''d1'']"
  apply (intro exI conjI)
      apply (rule reach_step [OF _ close_sink])
        apply (rule reach_step [OF _ exit])
           apply (rule reach_step [OF _ unlock])
            apply (rule reach_step [OF _ close_chan])
             apply (rule reach_step [OF _ flag])
              apply (rule reach_step [OF _ lock])
                apply (rule reach_step [OF _ take [where ok = True]])
                  apply (rule reach_step [OF _ runlock [where i = 0]])
                   apply (rule reach_step [OF _ send [where i = 0 and rec = "sample_rec ''d1''"]])
                    apply (rule reach_step [OF _ check [where i = 0 and rec = "sample_rec ''d1''"]])
                     apply (rule reach_step [OF _ rlock [where i = 0 and rec = "sample_rec ''d1''"]])
                       apply (rule reach_refl)
  by (simp_all add: initial_queue_def queue_size_def lock_held_def do_check_def do_send_def do_take_def
      sql_append_def)

theorem ingest_never_panics_witness:
  "\<exists>s. queue_reach (initial_queue 1 empty_db) s \<and> qs_closer s = SinkClosed \<and> \<not> qs_panicked s"
  using clean_run ingest_never_panics by blast


text \<open>A run in which \<open>Close\<close> comes first, and signals ever after.\<close>

definition closing_run :: "nat \<Rightarrow> queue_state" where
  "closing_run n = (initial_queue 1 empty_db)
     \<lparr>qs_closer := (if n = 0 then Open else if n = 1 then Holding else if n = 2 then Flagged else if n = 3 then ChannelClosed
        else if n \<le> 5 then Waiting else SinkClosed),
      qs_closed := 2 \<le> n, qs_chan_closed := 3 \<le> n, qs_writer := (if 5 \<le> n then Exited else Running), qs_ctx_done := 7 \<le> n\<rparr>"

lemma closing_run_step: "queue_step (closing_run n) (closing_run (Suc n))"
proof -
  have s: "n = 0 \<or> n = 1 \<or> n = 2 \<or> n = 3 \<or> n = 4 \<or> n = 5 \<or> 6 \<le> n" by linarith
  have eq: "closing_run (Suc n) =
      (if n = 0 then (closing_run n)\<lparr>qs_closer := Holding\<rparr>
       else if n = 1 then (closing_run n)\<lparr>qs_closer := Flagged, qs_closed := True\<rparr>
       else if n = 2 then (closing_run n)\<lparr>qs_closer := ChannelClosed, qs_chan_closed := True\<rparr>
       else if n = 3 then (closing_run n)\<lparr>qs_closer := Waiting\<rparr>
       else if n = 4 then (closing_run n)\<lparr>qs_writer := Exited\<rparr>
       else if n = 5 then (closing_run n)\<lparr>qs_closer := SinkClosed\<rparr>
       else (closing_run n)\<lparr>qs_ctx_done := True\<rparr>)"
    by (auto simp: closing_run_def initial_queue_def)
  have fields: "qs_closer (closing_run n) = (if n = 0 then Open else if n = 1 then Holding else if n = 2 then Flagged
        else if n = 3 then ChannelClosed else if n \<le> 5 then Waiting else SinkClosed)"
    "qs_chan_closed (closing_run n) = (3 \<le> n)" "qs_writer (closing_run n) = (if 5 \<le> n then Exited else Running)"
    "qs_queue (closing_run n) = []" "\<forall>i. qs_threads (closing_run n) i = Idle"
    by (simp_all add: closing_run_def initial_queue_def)
  show ?thesis unfolding eq using s fields
    by (elim disjE)
      (simp_all add: queue_step.lock queue_step.flag queue_step.close_chan queue_step.unlock queue_step.exit
        queue_step.close_sink queue_step.cancel)
qed

theorem close_returns_witness: "\<exists>l \<ge> 1. qs_closer (closing_run l) = SinkClosed"
proof -
  have "run_of closing_run" by (simp add: run_of_def closing_run_step)
  moreover have "closing_run 0 = initial_queue 1 empty_db" by (simp add: closing_run_def initial_queue_def)
  moreover have "qs_closer (closing_run 1) \<noteq> Open" by (simp add: closing_run_def)
  moreover have "\<exists>l \<ge> m. works (closing_run l) (closing_run (Suc l)) \<or> qs_closer (closing_run l) = SinkClosed" for m
    by (rule exI [of _ "m + 6"]) (simp add: closing_run_def)
  ultimately show ?thesis using close_returns by blast
qed

text \<open>C11. The broker is told to stop, the writer drains and leaves, a report arrives, and then \<open>Close\<close>
  runs: the report is neither in the database nor counted, although \<open>Close\<close> has returned.\<close>

theorem shutdown_loses_report:
  "\<exists>s. queue_reach (initial_queue 1 empty_db) s \<and> qs_closer s = SinkClosed
     \<and> qs_queue s = [sample_rec ''d1''] \<and> qs_dropped s = [] \<and> qs_failed s = [] \<and> qs_appended s = []"
  apply (intro exI conjI)
       apply (rule reach_step [OF _ close_sink])
         apply (rule reach_step [OF _ unlock])
          apply (rule reach_step [OF _ close_chan])
           apply (rule reach_step [OF _ flag])
            apply (rule reach_step [OF _ lock])
              apply (rule reach_step [OF _ runlock [where i = 0]])
               apply (rule reach_step [OF _ send [where i = 0 and rec = "sample_rec ''d1''"]])
                apply (rule reach_step [OF _ check [where i = 0 and rec = "sample_rec ''d1''"]])
                 apply (rule reach_step [OF _ rlock [where i = 0 and rec = "sample_rec ''d1''"]])
                   apply (rule reach_step [OF _ ctx_exit])
                      apply (rule reach_step [OF _ cancel])
                      apply (rule reach_refl)
  by (simp_all add: initial_queue_def queue_size_def lock_held_def do_check_def do_send_def)

end
