(* ===== verification/Startup.thy ===== *)
theory Startup
  imports Site Google TelemetryQueue
begin

text \<open>
  \<open>cmd/broker/main.go\<close> with \<open>server.New\<close>: how the flags override the configuration, which calendar,
  telemetry store and persistence backend a broker gets, where a start fails, and with which status
  the process ends. The files, the environment, the credential library, the database driver and the
  listener are parameters. The lemmas say in which state the server begins, so that the theorems about
  all requests apply to a broker from its first one, and what a demo broker never does.
\<close>

section \<open>Flags\<close>

record broker_flags =
  bf_config :: string
  bf_demo :: bool
  bf_telemetry_backend :: string
  bf_telemetry_db :: string
  bf_persistence :: string
  bf_write_path :: string

definition set_telemetry :: "broker_flags \<Rightarrow> telemetry_config \<Rightarrow> telemetry_config" where
  "set_telemetry fl t =
     (let t = (if bf_telemetry_backend fl \<noteq> [] then t\<lparr>tc_backend := bf_telemetry_backend fl\<rparr> else t)
      in if bf_telemetry_db fl \<noteq> [] then t\<lparr>tc_sqlite := (tc_sqlite t)\<lparr>ts_path := bf_telemetry_db fl\<rparr>\<rparr> else t)"

text \<open>The variable \<open>configPersistenceModeSetExplicitly\<close>.\<close>

definition mode_explicit :: "broker_flags \<Rightarrow> config \<Rightarrow> bool" where
  "mode_explicit fl c \<longleftrightarrow> bf_persistence fl \<noteq> []
     \<or> cp_mode (cf_persistence c) \<noteq> [] \<and> cp_mode (cf_persistence c) \<noteq> ''auto''"

definition set_persistence :: "broker_flags \<Rightarrow> bool \<Rightarrow> config_persistence_config \<Rightarrow> config_persistence_config" where
  "set_persistence fl chosen p =
     (let p = (if bf_persistence fl \<noteq> [] then p\<lparr>cp_mode := bf_persistence fl\<rparr> else p);
          p = (if bf_write_path fl \<noteq> [] then p\<lparr>cp_file := \<lparr>pf_path = bf_write_path fl\<rparr>\<rparr> else p)
      in if bf_demo fl \<and> \<not> chosen then p\<lparr>cp_mode := ''none''\<rparr> else p)"

definition with_flags :: "broker_flags \<Rightarrow> config \<Rightarrow> config" where
  "with_flags fl c = c\<lparr>cf_telemetry := set_telemetry fl (cf_telemetry c),
     cf_persistence := set_persistence fl (mode_explicit fl c) (cf_persistence c)\<rparr>"

definition no_flags :: "string \<Rightarrow> broker_flags" where
  "no_flags path = \<lparr>bf_config = path, bf_demo = False, bf_telemetry_backend = [], bf_telemetry_db = [],
     bf_persistence = [], bf_write_path = []\<rparr>"

lemma flagless_unchanged: "with_flags (no_flags path) c = c"
  by (simp add: with_flags_def no_flags_def set_telemetry_def set_persistence_def)

section \<open>The parts of a broker\<close>

datatype 'c calendar = DemoCalendar | GoogleCalendar "'c google_provider" | NoCalendar

definition choose_calendar :: "'c google_auth \<Rightarrow> broker_flags \<Rightarrow> config \<Rightarrow> string + 'c calendar" where
  "choose_calendar auth fl c =
     (if bf_demo fl \<or> cf_provider c = ''demo'' then Inr DemoCalendar
      else if cf_provider c = ''google'' then
        (case new_google auth (gc_credentials_file (cf_google c)) (gc_detail_level (cf_google c)) of
           Inl err \<Rightarrow> Inl err | Inr p \<Rightarrow> Inr (GoogleCalendar p))
      else Inr NoCalendar)"

text \<open>The database driver: opening a file gives its content, reading the last reports may fail.\<close>

record tel_driver =
  td_open :: "string \<Rightarrow> string + tel_db"
  td_load_error :: "string option"

definition open_sqlite :: "tel_driver \<Rightarrow> string \<Rightarrow> string + tel_db" where
  "open_sqlite drv path = (if path = [] then Inl ''telemetry sqlite: empty path'' else td_open drv path)"

definition new_with_sink :: "tel_driver \<Rightarrow> int \<Rightarrow> tel_db \<Rightarrow> string + fleet \<times> queue_state" where
  "new_with_sink drv n db =
     (case td_load_error drv of
        Some err \<Rightarrow> Inl (''telemetry: warm-start from sink failed: '' @ err)
      | None \<Rightarrow> Inr (warm_start (sql_load_latest db), initial_queue n db))"

text \<open>No queue: the store keeps everything in memory.\<close>

definition new_telemetry_store :: "tel_driver \<Rightarrow> telemetry_config \<Rightarrow> fleet \<times> queue_state option" where
  "new_telemetry_store drv t =
     (if tc_backend t = ''sqlite'' then
        (case open_sqlite drv (ts_path (tc_sqlite t)) of
           Inl err \<Rightarrow> (Map.empty, None)
         | Inr db \<Rightarrow>
             (case new_with_sink drv (ts_queue_size (tc_sqlite t)) db of
                Inl err \<Rightarrow> (Map.empty, None)
              | Inr (m, q) \<Rightarrow> (m, Some q)))
      else if tc_backend t = ''prometheus'' then (Map.empty, None)
      else (Map.empty, None))"

text \<open>\<open>time.Duration(days) * 24 * time.Hour\<close> in 64 bits.\<close>

definition telemetry_retention :: "telemetry_config \<Rightarrow> duration" where
  "telemetry_retention t =
     (if ts_retention_days (tc_sqlite t) \<le> 0 then 0
      else sint (of_int (ts_retention_days (tc_sqlite t)) * 24 * of_int hour :: 64 word))"

section \<open>The server a broker starts with\<close>

definition session_ttl :: duration where "session_ttl = 12 * hour"

definition new_alert_manager :: "alert_config \<Rightarrow> alert_manager" where
  "new_alert_manager a =
     \<lparr>am_built = \<lparr>st_low_pct = al_low_battery_pct a, st_clear_pct = al_clear_pct a, st_renotify = al_min_renotify a, st_style = []\<rparr>,
      am_state = Map.empty, am_stale = Map.empty\<rparr>"

text \<open>A session file that cannot be restored is only logged.\<close>

definition restored_sessions :: "time \<Rightarrow> session_file \<Rightarrow> config \<Rightarrow> session_store" where
  "restored_sessions now f c =
     (let path = ac_session_store_path (cf_auth c)
      in if path \<noteq> [] then snd (persist_sessions now path f (new_session_store session_ttl))
         else new_session_store session_ttl)"

definition new_server ::
  "'k app_env \<Rightarrow> config \<Rightarrow> 'k store_world \<Rightarrow> fleet \<Rightarrow> session_store \<Rightarrow> ('k, 'sk) provision_server" where
  "new_server env c w tlm sessions =
     (let k = new_core env c w
      in \<lparr>co_cfg = co_cfg k, co_derived = co_derived k, co_pstate = co_pstate k, co_world = co_world k,
          sv_cache = Map.empty, sv_tlm = tlm, sv_alerts = new_alert_manager (cf_alerts c), sv_sessions = sessions, sv_vapid = [],
          ws_resets = Map.empty, ws_reset_tokens = Map.empty, ws_limiter = Map.empty, ws_outbox = [],
          as_notifier = [], ps_artifacts = Map.empty\<rparr>)"

text \<open>What a process finds on its machine. The backend of \<open>mc_env\<close> is not used: the start chooses it.\<close>

record ('k, 'sk, 'pk, 'c) machine =
  mc_env :: "'k app_env"
  mc_vars :: "string \<Rightarrow> string option"
  mc_parse :: "string \<Rightarrow> config option"
  mc_file :: "string \<Rightarrow> string option"
  mc_google :: "'c google_auth"
  mc_driver :: tel_driver
  mc_in_cluster :: "string + string"
  mc_writable :: "string \<Rightarrow> string option"
  mc_crypto :: "('pk, 'sk) push_crypto"
  mc_sessions :: session_file
  mc_world :: "'k store_world"

datatype start_error =
    LoadFailed load_error
  | CalendarFailed string
  | PersistenceFailed store_error
  | ChannelsFailed channel_error

record ('k, 'sk, 'c) broker =
  br_store :: store
  br_calendar :: "'c calendar"
  br_probe :: "'c calendar option"
  br_queue :: "queue_state option"
  br_retention :: duration
  br_server :: "('k, 'sk) provision_server"

definition store_options_of :: "broker_flags \<Rightarrow> config \<Rightarrow> store_options" where
  "store_options_of fl c =
     (let p = cf_persistence c
      in \<lparr>so_mode = cp_mode p, so_config_path = bf_config fl, so_file_path = pf_path (cp_file p),
          so_namespace = pc_namespace (cp_configmap p), so_name = pc_name (cp_configmap p), so_key = pc_key (cp_configmap p)\<rparr>)"

definition env_with :: "store \<Rightarrow> ('k, 'sk, 'pk, 'c) machine \<Rightarrow> 'k app_env" where
  "env_with st m = (mc_env m)\<lparr>ae_store := st\<rparr>"

text \<open>The body of \<open>main\<close> up to the listener; every error exits with status 1.\<close>

definition start_broker ::
  "('k, 'sk, 'pk, 'c) machine \<Rightarrow> broker_flags \<Rightarrow> time \<Rightarrow> start_error + ('k, 'sk, 'c) broker" where
  "start_broker m fl now =
     (case load_config (ae_go (mc_env m)) (mc_vars m) (mc_parse m) (ae_marshal (mc_env m)) (mc_file m (bf_config fl)) of
        Inl err \<Rightarrow> Inl (LoadFailed err)
      | Inr loaded \<Rightarrow>
      let c = with_flags fl loaded
      in case choose_calendar (mc_google m) fl c of
        Inl err \<Rightarrow> Inl (CalendarFailed err)
      | Inr prov \<Rightarrow>
      let (tlm, queue) = new_telemetry_store (mc_driver m) (cf_telemetry c)
      in case new_store (mc_in_cluster m) (mc_writable m) (store_options_of fl c) of
        Inl err \<Rightarrow> Inl (PersistenceFailed err)
      | Inr st \<Rightarrow>
      let s = new_server (env_with st m) c (mc_world m) tlm (restored_sessions now (mc_sessions m) c)
      in case activate_channels (mc_crypto m) c s of
        (Some err, s) \<Rightarrow> Inl (ChannelsFailed err)
      | (None, s) \<Rightarrow>
          Inr \<lparr>br_store = st, br_calendar = prov, br_probe = (if bf_demo fl then None else Some prov), br_queue = queue,
               br_retention = telemetry_retention (cf_telemetry c), br_server = s\<rparr>)"

text \<open>How the process ends: after the start a signal and a failed listener both cancel the context, and \<open>main\<close>
  returns.\<close>

datatype ending = Signalled | ListenerFailed string

definition exit_status :: "start_error + ('k, 'sk, 'c) broker \<Rightarrow> ending \<Rightarrow> int" where
  "exit_status r e = (case r of Inl err \<Rightarrow> 1 | Inr b \<Rightarrow> (case e of Signalled \<Rightarrow> 0 | ListenerFailed err \<Rightarrow> 0))"

section \<open>From the start on\<close>

lemma loaded_well_formed: "load_config e env parse marshal file = Inr c \<Longrightarrow> well_formed e c"
  by (auto simp: load_config_def validates_wf [symmetric] Let_def split: option.splits prod.splits if_splits)

text \<open>The contract reads nothing of the telemetry settings but the backend and nothing of the persistence but the
  mode.\<close>

lemma retelemetry_well_formed:
  assumes "well_formed e c"
  shows "well_formed e (c\<lparr>cf_telemetry := t, cf_persistence := p\<rparr>)
    \<longleftrightarrow> valid_telemetry_backend (tc_backend t) \<and> valid_config_persistence_mode (cp_mode p)"
proof -
  let ?c = "c\<lparr>cf_telemetry := t, cf_persistence := p\<rparr>"
  have "users_ok ?c = users_ok c" by (simp add: users_ok_def)
  moreover have "channels_ok e ?c = channels_ok e c"
    by (simp add: channels_ok_def validate_channel_def validate_lark_app_def Let_def)
  moreover have "subscriptions_ok e ?c = subscriptions_ok e c" by (simp add: subscriptions_ok_def)
  moreover have "locations_ok ?c = locations_ok c" by (simp add: locations_ok_def)
  moreover have "settings_ok e c \<Longrightarrow> settings_ok e ?c
      \<longleftrightarrow> valid_telemetry_backend (tc_backend t) \<and> valid_config_persistence_mode (cp_mode p)"
    by (simp add: settings_ok_def valid_telemetry_backend_def valid_config_persistence_mode_def)
  ultimately show ?thesis using assms by (simp add: well_formed_def)
qed

lemma new_store_mode: "new_store ic probe opts = Inr st \<Longrightarrow> valid_config_persistence_mode (so_mode opts)"
  by (auto simp: new_store_def valid_config_persistence_mode_def Let_def split: if_splits sum.splits)

lemma new_server_fields [simp]:
  "co_cfg (new_server env c w tlm ss) = c" "co_derived (new_server env c w tlm ss) = refresh_derived c"
  "co_world (new_server env c w tlm ss) = w" "sv_sessions (new_server env c w tlm ss) = ss"
  by (simp_all add: new_server_def new_core_def Let_def)

text \<open>What a successful start gives.\<close>

lemma started:
  assumes "start_broker m fl now = Inr b"
  obtains c where
    "load_config (ae_go (mc_env m)) (mc_vars m) (mc_parse m) (ae_marshal (mc_env m)) (mc_file m (bf_config fl)) = Inr c"
    "new_store (mc_in_cluster m) (mc_writable m) (store_options_of fl (with_flags fl c)) = Inr (br_store b)"
    "co_cfg (br_server b) = with_flags fl c" "co_derived (br_server b) = refresh_derived (with_flags fl c)"
    "co_world (br_server b) = mc_world m"
    "sv_sessions (br_server b) = restored_sessions now (mc_sessions m) (with_flags fl c)"
  using assms
  by (auto simp: start_broker_def activate_channels_def Let_def split: sum.splits prod.splits option.splits)

lemma started_well_formed:
  assumes "start_broker m fl now = Inr b"
  shows "well_formed (ae_go (mc_env m)) (co_cfg (br_server b))
    \<longleftrightarrow> bf_telemetry_backend fl = [] \<or> valid_telemetry_backend (bf_telemetry_backend fl)"
proof -
  obtain c where c: "load_config (ae_go (mc_env m)) (mc_vars m) (mc_parse m) (ae_marshal (mc_env m)) (mc_file m (bf_config fl)) = Inr c"
    and st: "new_store (mc_in_cluster m) (mc_writable m) (store_options_of fl (with_flags fl c)) = Inr (br_store b)"
    and cfg: "co_cfg (br_server b) = with_flags fl c"
    by (rule started [OF assms])
  have mode: "valid_config_persistence_mode (cp_mode (cf_persistence (with_flags fl c)))"
    using new_store_mode [OF st] by (simp add: store_options_of_def Let_def)
  have wf: "well_formed (ae_go (mc_env m)) c" by (rule loaded_well_formed [OF c])
  then have "valid_telemetry_backend (tc_backend (cf_telemetry c))"
    by (simp add: well_formed_def settings_ok_def valid_telemetry_backend_def)
  then have "valid_telemetry_backend (tc_backend (set_telemetry fl (cf_telemetry c)))
      \<longleftrightarrow> bf_telemetry_backend fl = [] \<or> valid_telemetry_backend (bf_telemetry_backend fl)"
    by (simp add: set_telemetry_def Let_def)
  then show ?thesis
    using retelemetry_well_formed [OF wf] mode by (simp add: cfg with_flags_def)
qed

lemma serve_all_world:
  assumes "outside_quiet ou"
  shows "world_kept (ou_env ou) s (serve_all ou rqs s)"
proof (induction rqs rule: rev_induct)
  case (snoc r rqs)
  then show ?case
    using serve_good [OF assms, of "snd r" "serve_all ou rqs s" "fst r"] serve_all_snoc [of ou rqs "fst r" "snd r" s]
      world_kept_trans
    by (auto simp: good_step_def)
qed simp

text \<open>C38. From its first request on a broker that started serves a valid configuration with the caches of it,
  whatever arrives, when the \<open>-telemetry-backend\<close> flag is absent or names a backend.\<close>

theorem started_broker_stays_sound:
  assumes "start_broker m fl now = Inr b"
    and "bf_telemetry_backend fl = [] \<or> valid_telemetry_backend (bf_telemetry_backend fl)"
    and "ou_env ou = env_with (br_store b) m" "outside_quiet ou"
  shows "well_formed (ae_go (mc_env m)) (co_cfg (serve_all ou rqs (br_server b)))
    \<and> derived_fresh (serve_all ou rqs (br_server b))"
proof -
  obtain c where "co_cfg (br_server b) = with_flags fl c" "co_derived (br_server b) = refresh_derived (with_flags fl c)"
    by (rule started [OF assms(1)])
  then have "sound (ou_env ou) (br_server b)"
    using started_well_formed [OF assms(1)] assms(2,3) by (simp add: sound_def derived_fresh_def env_with_def)
  from serve_all_sound [OF assms(4) this, of rqs] show ?thesis by (simp add: sound_def assms(3) env_with_def)
qed

text \<open>C39. A demo broker whose operator chose no persistence mode never writes its configuration: it gets the
  backend that persists nothing, wherever it runs, and after any requests the disk and the cluster are
  what they were.\<close>

theorem demo_never_writes:
  assumes "start_broker m fl now = Inr b" "bf_demo fl" "bf_persistence fl = []"
    and "mc_parse m (fst (expand_refs (mc_vars m) raw [] [])) = Some p" "mc_file m (bf_config fl) = Some raw"
    and "cp_mode (cf_persistence p) \<in> {[], ''auto''}"
    and "ou_env ou = env_with (br_store b) m" "outside_quiet ou"
  shows "br_store b = NoneStore \<and> co_world (serve_all ou rqs (br_server b)) = mc_world m"
proof -
  obtain c where c: "load_config (ae_go (mc_env m)) (mc_vars m) (mc_parse m) (ae_marshal (mc_env m)) (mc_file m (bf_config fl)) = Inr c"
    and st: "new_store (mc_in_cluster m) (mc_writable m) (store_options_of fl (with_flags fl c)) = Inr (br_store b)"
    and w: "co_world (br_server b) = mc_world m"
    by (rule started [OF assms(1)])
  obtain refs where "c = apply_defaults (p\<lparr>cf_env_refs := refs\<rparr>)"
    using c assms(4,5) by (auto simp: load_config_def Let_def split: option.splits prod.splits if_splits)
  then have "cp_mode (cf_persistence c) = ''auto''"
    using assms(6) by (auto simp: apply_defaults_def default_persistence_def or_default_def Let_def)
  then have "\<not> mode_explicit fl c" using assms(3) by (simp add: mode_explicit_def)
  then have "so_mode (store_options_of fl (with_flags fl c)) = ''none''"
    using assms(2) by (simp add: store_options_of_def with_flags_def set_persistence_def Let_def)
  with st have none: "br_store b = NoneStore" by (simp add: new_store_def Let_def)
  then show ?thesis
    using serve_all_world [OF assms(8), of "br_server b" rqs] w assms(7)
    by (simp add: world_kept_def env_with_def store_durable_def)
qed

section \<open>A concrete start\<close>

definition sample_machine :: "(unit, byte, byte, string) machine" where
  "sample_machine = \<lparr>mc_env = page_env, mc_vars = (\<lambda>n. None), mc_parse = (\<lambda>t. Some sample_config),
     mc_file = (\<lambda>p. Some []), mc_google = sample_google_auth,
     mc_driver = \<lparr>td_open = (\<lambda>p. Inl ''disk full''), td_load_error = None\<rparr>, mc_in_cluster = Inl ''not in a cluster'',
     mc_writable = (\<lambda>p. None), mc_crypto = sample_crypto, mc_sessions = NoSessionFile,
     mc_world = \<lparr>sw_disk = sample_disk, sw_kube = (), sw_saves = 0\<rparr>\<rparr>"

definition demo_flags :: broker_flags where
  "demo_flags = (no_flags ''/etc/config.yaml'')\<lparr>bf_demo := True\<rparr>"

lemma sample_loaded:
  "load_config (ae_go (mc_env sample_machine)) (mc_vars sample_machine) (mc_parse sample_machine)
     (ae_marshal (mc_env sample_machine)) (mc_file sample_machine p) = Inr (apply_defaults (sample_config\<lparr>cf_env_refs := []\<rparr>))"
proof -
  let ?c = "apply_defaults (sample_config\<lparr>cf_env_refs := []\<rparr>)"
  have "well_formed sample_env ?c"
    unfolding well_formed_def
    by (intro conjI; simp add: sample_config_def apply_defaults_def default_wake_def or_default_def
        default_alerts_def default_telemetry_def default_persistence_def Let_def;
        simp add: contract_defs sample_env_def Let_def)
  moreover have "\<exists>y. ae_marshal page_env sample_config = Some y \<and> find_refs y = []"
    by (simp add: page_env_def sample_app_env_def sample_config_def find_refs.simps match_ref_def)
  moreover have "expand_refs (\<lambda>n. None) [] [] [] = ([], [], [])" by (simp add: expand_refs.simps match_ref_def)
  ultimately show ?thesis
    by (auto simp: load_config_def sample_machine_def Let_def validates_wf [THEN iffD2])
qed

lemma sample_started:
  "\<exists>b. start_broker sample_machine demo_flags 0 = Inr b \<and> br_store b = NoneStore"
proof -
  let ?c = "with_flags demo_flags (apply_defaults (sample_config\<lparr>cf_env_refs := []\<rparr>))"
  have c: "cp_mode (cf_persistence ?c) = ''none''" "tc_backend (cf_telemetry ?c) = ''memory''"
    "al_channels (cf_alerts ?c) = [''log'']"
    by (simp_all add: with_flags_def demo_flags_def no_flags_def set_persistence_def set_telemetry_def mode_explicit_def
        sample_config_def apply_defaults_def default_persistence_def default_telemetry_def default_alerts_def or_default_def Let_def)
  have "choose_calendar sample_google_auth demo_flags ?c = Inr DemoCalendar" by (simp add: choose_calendar_def demo_flags_def)
  moreover have "new_telemetry_store (mc_driver sample_machine) (cf_telemetry ?c) = (Map.empty, None)"
    by (simp add: new_telemetry_store_def c)
  moreover have "new_store ic pr (store_options_of demo_flags ?c) = Inr NoneStore" for ic pr
    by (simp add: new_store_def store_options_of_def c Let_def)
  moreover have "fst (activate_channels cr ?c s) = None" for cr :: "(byte, byte) push_crypto" and s :: "(unit, byte) provision_server"
    by (simp add: activate_channels_def build_channels_def effective_channels_def c)
  ultimately show ?thesis
    unfolding start_broker_def sample_loaded by (auto simp: sample_machine_def Let_def split: prod.splits option.splits) (metis fst_conv option.distinct(1))+
qed

lemma sample_outside_env: "ou_env sample_outside = env_with NoneStore sample_machine"
  by (simp add: env_with_def sample_machine_def page_env_def)

theorem started_broker_stays_sound_witness:
  "\<exists>b. start_broker sample_machine demo_flags 0 = Inr b
     \<and> derived_fresh (serve_all sample_outside [(Get, ann_login)] (br_server b))"
proof -
  obtain b where b: "start_broker sample_machine demo_flags 0 = Inr b" "br_store b = NoneStore"
    using sample_started by blast
  have env: "ou_env sample_outside = env_with (br_store b) sample_machine" by (simp only: b(2) sample_outside_env)
  have "bf_telemetry_backend demo_flags = []" by (simp add: demo_flags_def no_flags_def)
  from started_broker_stays_sound [OF b(1) _ env sample_outside_quiet, of "[(Get, ann_login)]"] this b(1)
  show ?thesis by auto
qed

theorem demo_never_writes_witness:
  "\<exists>b. start_broker sample_machine demo_flags 0 = Inr b
     \<and> co_world (serve_all sample_outside [(Post, (sample_request lobby_form 5)\<lparr>rq_path := ''/admin/rooms/save''\<rparr>)] (br_server b))
         = mc_world sample_machine"
proof -
  let ?rqs = "[(Post, (sample_request lobby_form 5)\<lparr>rq_path := ''/admin/rooms/save''\<rparr>)]"
  obtain b where b: "start_broker sample_machine demo_flags 0 = Inr b" "br_store b = NoneStore"
    using sample_started by blast
  have env: "ou_env sample_outside = env_with (br_store b) sample_machine" by (simp only: b(2) sample_outside_env)
  have "bf_demo demo_flags" "bf_persistence demo_flags = []"
    "mc_parse sample_machine (fst (expand_refs (mc_vars sample_machine) [] [] [])) = Some sample_config"
    "mc_file sample_machine (bf_config demo_flags) = Some []" "cp_mode (cf_persistence sample_config) \<in> {[], ''auto''}"
    by (simp_all add: demo_flags_def no_flags_def sample_machine_def sample_config_def)
  from demo_never_writes [OF b(1) this env sample_outside_quiet, of ?rqs] b(1) show ?thesis by blast
qed

section \<open>What flags and numbers do\<close>

text \<open>The flag is not validated: with a name that is no backend the broker starts, keeps its telemetry in
  memory, and no configuration with the same setting is valid any more, so every save is refused.\<close>

lemma unknown_backend_flag:
  assumes "start_broker m fl now = Inr b" "bf_telemetry_backend fl \<noteq> []" "\<not> valid_telemetry_backend (bf_telemetry_backend fl)"
  shows "br_queue b = None"
    and "cf_telemetry c = cf_telemetry (co_cfg (br_server b)) \<Longrightarrow> validate (ae_go (mc_env m)) c \<noteq> None"
proof -
  obtain c0 where c0: "co_cfg (br_server b) = with_flags fl c0" by (rule started [OF assms(1)])
  have b: "tc_backend (set_telemetry fl t) = bf_telemetry_backend fl" for t
    using assms(2) by (simp add: set_telemetry_def Let_def)
  show "cf_telemetry c = cf_telemetry (co_cfg (br_server b)) \<Longrightarrow> validate (ae_go (mc_env m)) c \<noteq> None"
    using assms(3) by (simp add: validates_wf well_formed_def settings_ok_def c0 with_flags_def b valid_telemetry_backend_def)
  have "bf_telemetry_backend fl \<noteq> ''sqlite''" using assms(3) by (auto simp: valid_telemetry_backend_def)
  then have q: "new_telemetry_store d (cf_telemetry (with_flags fl c)) = (Map.empty, None)" for d c
    by (simp add: new_telemetry_store_def with_flags_def b)
  show "br_queue b = None"
    using assms(1) by (auto simp: start_broker_def q Let_def split: sum.splits prod.splits option.splits)
qed

text \<open>Telemetry never keeps a broker from starting: with another driver it starts the same way, but for the
  reports it remembers.\<close>

lemma telemetry_is_not_fatal:
  assumes "start_broker m fl now = Inr b"
  shows "\<exists>b'. start_broker (m\<lparr>mc_driver := d\<rparr>) fl now = Inr b' \<and> br_store b' = br_store b
    \<and> br_calendar b' = br_calendar b \<and> co_cfg (br_server b') = co_cfg (br_server b)"
  using assms
  by (auto simp: start_broker_def activate_channels_def env_with_def Let_def split: sum.splits prod.splits option.splits)

text \<open>The retention is the configured number of days, and never prunes for zero or less, exactly up to 106751
  days; beyond that the product wraps around.\<close>

lemma retention_exact_iff:
  "telemetry_retention t = max 0 (ts_retention_days (tc_sqlite t)) * 24 * hour
     \<longleftrightarrow> ts_retention_days (tc_sqlite t) \<le> 106751"
proof -
  let ?n = "ts_retention_days (tc_sqlite t)"
  have w: "(of_int ?n * 24 * of_int hour :: 64 word) = of_int (?n * 24 * hour)" by simp
  have s: "sint (of_int k :: 64 word) = signed_take_bit 63 k" for k by (simp add: signed_of_int)
  consider "?n \<le> 0" | "0 < ?n" "?n \<le> 106751" | "106751 < ?n" by linarith
  then show ?thesis
  proof cases
    case 2
    then have "signed_take_bit 63 (?n * 24 * hour) = ?n * 24 * hour"
      by (intro signed_take_bit_int_eq_self) (simp_all add: dur_defs)
    with 2 show ?thesis unfolding telemetry_retention_def w s by simp
  next
    case 3
    have "signed_take_bit 63 (?n * 24 * hour) < 2 ^ 63" by (rule signed_take_bit_int_less_exp)
    with 3 show ?thesis unfolding telemetry_retention_def w s by (simp add: dur_defs)
  qed (simp add: telemetry_retention_def)
qed

text \<open>With 213504 days every report older than 25 minutes and 26 seconds is pruned.\<close>

lemma retention_wraps:
  "ts_retention_days (tc_sqlite t) = 213504 \<Longrightarrow> telemetry_retention t = 1526290448384"
  by (simp add: telemetry_retention_def dur_defs)

text \<open>Zero days cannot be configured: \<open>Load\<close> turns them into ninety.\<close>

lemma loaded_retention:
  assumes "load_config e env parse marshal file = Inr c"
  shows "ts_retention_days (tc_sqlite (cf_telemetry c)) \<noteq> 0"
proof -
  obtain p where "c = apply_defaults p"
    using assms by (auto simp: load_config_def Let_def split: option.splits prod.splits if_splits)
  then show ?thesis by (simp add: apply_defaults_def default_telemetry_def or_default_def Let_def)
qed

text \<open>What the first prune of a broker leaves: with a sensible retention the samples of the configured days.\<close>

lemma first_prune_keeps:
  assumes "ts_retention_days (tc_sqlite t) \<le> 106751"
  shows "x \<in> set (db_samples (store_prune True (telemetry_retention t) now db)) \<longleftrightarrow> x \<in> set (db_samples db)
    \<and> (ts_retention_days (tc_sqlite t) \<le> 0 \<or> unix (now - ts_retention_days (tc_sqlite t) * 24 * hour) \<le> snd (fst x))"
proof -
  have "telemetry_retention t = max 0 (ts_retention_days (tc_sqlite t)) * 24 * hour"
    using assms by (simp only: retention_exact_iff)
  then show ?thesis by (simp add: store_prune_keeps max_def hour_def minute_def second_def)
qed

end
