(* ===== verification/SessionFile.thy ===== *)
theory SessionFile
  imports Auth ConfigStore
begin

text \<open>
  \<open>writeFileAtomic\<close> of \<open>internal/auth/session.go\<close>, on the disk of \<open>ConfigStore\<close>: how the table of sessions
  reaches its file. The temporary file is renamed into place without having been synced, so readers of
  the running system find the old table or the new one, but a machine that crashes may find anything.
\<close>

text \<open>The result and the states of the disk, the last one last. The temporary file and its inode are those that
  \<open>CreateTemp\<close> picks; a failing write leaves \<open>torn\<close> bytes, and the deferred removal finds nothing after
  the rename.\<close>

definition write_file_atomic ::
  "(write_step \<Rightarrow> string option) \<Rightarrow> nat \<Rightarrow> string \<Rightarrow> nat \<Rightarrow> string \<Rightarrow> string \<Rightarrow> disk \<Rightarrow> string option \<times> disk list" where
  "write_file_atomic faults torn tmp i path x d =
     (case faults CreateTemp of Some err \<Rightarrow> (Some err, [d]) | None \<Rightarrow>
      let d1 = os_create tmp i d
      in case faults ChmodTemp of Some err \<Rightarrow> (Some err, [d, d1, os_remove tmp d1]) | None \<Rightarrow>
      let d2 = os_chmod i private_mode d1
      in case faults WriteTemp of
           Some err \<Rightarrow> (let dt = os_write i (take torn x) d2 in (Some err, [d, d1, d2, dt, os_remove tmp dt]))
         | None \<Rightarrow>
      let d3 = os_write i x d2
      in case faults CloseTemp of Some err \<Rightarrow> (Some err, [d, d1, d2, d3, os_remove tmp d3]) | None \<Rightarrow>
         case faults RenameTemp of Some err \<Rightarrow> (Some err, [d, d1, d2, d3, os_remove tmp d3]) | None \<Rightarrow>
         (None, [d, d1, d2, d3, os_rename tmp path d3]))"

definition renamed_table :: "string \<Rightarrow> string \<Rightarrow> nat \<Rightarrow> string \<Rightarrow> disk \<Rightarrow> disk" where
  "renamed_table tmp path i x d = os_rename tmp path (os_write i x (os_chmod i private_mode (os_create tmp i d)))"

lemma write_file_atomic_states:
  assumes "tmp \<noteq> path" "write_file_atomic faults torn tmp i path x d = (r, hist)"
  shows "(\<forall>s \<in> set hist. beside i path d s \<or> r = None \<and> s = renamed_table tmp path i x d)
    \<and> (r = None \<longrightarrow> last hist = renamed_table tmp path i x d)"
  using assms
  by (auto simp: write_file_atomic_def renamed_table_def Let_def beside_step beside_refl split: option.splits)

text \<open>The file that a finished write leaves: what it holds, its mode, and that nothing about it is synced.\<close>

lemma renamed_unsynced:
  "tmp \<noteq> path \<Longrightarrow> dk_live (renamed_table tmp path i x d) path = Some i"
  "tmp \<noteq> path \<Longrightarrow> file_of (renamed_table tmp path i x d) path = Some x"
  "in_mode (dk_inodes (renamed_table tmp path i x d) i) = private_mode"
  "\<not> in_synced (dk_inodes (renamed_table tmp path i x d) i)"
  by (simp_all add: renamed_table_def os_defs file_of_def)

text \<open>C40. The file of sessions is replaced whole for every reader of the running system, at each moment of the
  write and however it fails; but after a write that succeeded a crash of the machine may leave any
  content at all in it, the old table and the new one included.\<close>

theorem session_file_torn_by_crash:
  assumes "fresh_temp tmp i path d" "write_file_atomic faults torn tmp i path x d = (r, hist)"
  shows "(\<forall>s \<in> set hist. file_of s path = file_of d path \<or> r = None \<and> file_of s path = Some x)
    \<and> (r = None \<longrightarrow> file_of (last hist) path = Some x \<and> (\<forall>y. may_read (last hist) path (Some y)))"
proof -
  have ne: "tmp \<noteq> path" using assms(1) by (simp add: fresh_temp_def)
  note st = write_file_atomic_states [OF ne assms(2)] and new = renamed_unsynced(1,2) [OF ne, of i x d] renamed_unsynced(4) [of tmp path i x d]
  have "\<forall>s \<in> set hist. file_of s path = file_of d path \<or> r = None \<and> file_of s path = Some x"
    using st new(2) beside_frame(2) [OF _ assms(1)] by blast
  moreover have "r = None \<Longrightarrow> file_of (last hist) path = Some x \<and> (\<forall>y. may_read (last hist) path (Some y))"
    using st new by (simp add: may_read_def entry_may_read_def)
  ultimately show ?thesis by blast
qed

theorem session_file_torn_by_crash_witness:
  "let r = write_file_atomic (\<lambda>st. None) 0 ''/etc/.tmp'' 1 ''/etc/config.yaml'' ''new'' sample_disk
   in fst r = None \<and> may_read (last (snd r)) ''/etc/config.yaml'' (Some ''{vers'')"
proof -
  obtain r hist where w: "write_file_atomic (\<lambda>st. None) 0 ''/etc/.tmp'' 1 ''/etc/config.yaml'' ''new'' sample_disk = (r, hist)"
    by fastforce
  moreover from w have "r = None" by (simp add: write_file_atomic_def Let_def)
  ultimately show ?thesis using session_file_torn_by_crash [OF sample_fresh w] by (simp add: Let_def)
qed

end
