(* ===== verification/WifToken.thy ===== *)
theory WifToken
  imports WebPush ConfigStore
begin

text \<open>
  \<open>tools/wiftoken/main.go\<close>: the issuer of tokens for a broker outside Kubernetes. It generates a
  signing key, prints its public half as a JWKS, and mints a token, once or every interval, into a
  file that is replaced atomically. RSA, X.509, PEM, SHA-256, JSON and randomness are parameters
  (the record \<open>rsa_lib\<close>), as is the verifier at the other end; the claims, the layout of a token, the
  key set and the files (on the disk of \<open>ConfigStore\<close>) are definitions. The lemmas say that a minted
  token is accepted by whoever holds the printed key set, until it expires, and that a reader of
  the token file of a running minter always finds such a token.
\<close>

section \<open>Keys\<close>

datatype json_value = JStr string | JInt int

text \<open>\<open>wl_parse\<close> is \<open>x509.ParsePKCS8PrivateKey\<close>, \<open>Inr None\<close> when the key is not RSA; \<open>wl_json\<close> is
  \<open>json.Marshal\<close> of a map.\<close>

record ('pk, 'sk) rsa_lib =
  wl_generate :: "string + 'sk"
  wl_public :: "'sk \<Rightarrow> 'pk"
  wl_modulus :: "'pk \<Rightarrow> nat"
  wl_exponent :: "'pk \<Rightarrow> int"
  wl_marshal_private :: "'sk \<Rightarrow> string + byte list"
  wl_parse_private :: "byte list \<Rightarrow> string + 'sk option"
  wl_marshal_public :: "'pk \<Rightarrow> string + byte list"
  wl_pem :: "byte list \<Rightarrow> string"
  wl_unpem :: "string \<Rightarrow> byte list option"
  wl_sha256 :: "byte list \<Rightarrow> byte list"
  wl_sign :: "'sk \<Rightarrow> byte list \<Rightarrow> string + byte list"
  wl_json :: "(string \<times> json_value) list \<Rightarrow> string + string"

text \<open>\<open>big.Int.Bytes\<close>: big-endian, without leading zeros.\<close>

fun nat_bytes :: "nat \<Rightarrow> byte list" where
  "nat_bytes n = (if n = 0 then [] else nat_bytes (n div 256) @ [of_nat (n mod 256)])"

declare nat_bytes.simps [simp del]

definition bytes_nat :: "byte list \<Rightarrow> nat" where
  "bytes_nat bs = foldl (\<lambda>n b. 256 * n + unat b) 0 bs"

lemma bytes_nat_bytes [simp]: "bytes_nat (nat_bytes n) = n"
proof (induction n rule: nat_bytes.induct)
  case (1 n)
  have "unat (of_nat (n mod 256) :: byte) = n mod 256" by (simp add: unat_of_nat)
  then show ?case using 1 by (subst nat_bytes.simps) (simp add: bytes_nat_def)
qed

record jwk =
  jk_kty :: string
  jk_use :: string
  jk_alg :: string
  jk_kid :: string
  jk_n :: string
  jk_e :: string

definition kid_for :: "('pk, 'sk) rsa_lib \<Rightarrow> 'pk \<Rightarrow> string + string" where
  "kid_for lib pub =
     (case wl_marshal_public lib pub of
        Inl err \<Rightarrow> Inl (''marshal public key: '' @ err)
      | Inr der \<Rightarrow> Inr (b64url_encode (wl_sha256 lib der)))"

definition jwks_for :: "('pk, 'sk) rsa_lib \<Rightarrow> 'pk \<Rightarrow> string + jwk list" where
  "jwks_for lib pub =
     (case kid_for lib pub of
        Inl err \<Rightarrow> Inl err
      | Inr kid \<Rightarrow>
          (let e_bytes = nat_bytes (nat \<bar>wl_exponent lib pub\<bar>)
           in Inr [\<lparr>jk_kty = ''RSA'', jk_use = ''sig'', jk_alg = ''RS256'', jk_kid = kid,
                    jk_n = b64url_encode (nat_bytes (wl_modulus lib pub)), jk_e = b64url_encode e_bytes\<rparr>]))"

definition load_private_key :: "('pk, 'sk) rsa_lib \<Rightarrow> string + string \<Rightarrow> string + 'sk" where
  "load_private_key lib raw =
     (case raw of Inl err \<Rightarrow> Inl err
      | Inr doc \<Rightarrow>
          (case wl_unpem lib doc of None \<Rightarrow> Inl ''no PEM block found''
           | Some block \<Rightarrow>
               (case wl_parse_private lib block of
                  Inl err \<Rightarrow> Inl (''parse PKCS8 key: '' @ err)
                | Inr None \<Rightarrow> Inl ''key is not RSA''
                | Inr (Some key) \<Rightarrow> Inr key)))"

text \<open>\<open>genKey\<close>. Opening with \<open>O_CREATE\<close> and \<open>O_TRUNC\<close> makes a file of mode 0600, or empties the file that is
  there and keeps its mode. The result is the error with the state of the disk.\<close>

datatype key_step = KeyMkdir | KeyOpen | KeyWrite | KeySync

definition open_truncated :: "string \<Rightarrow> nat \<Rightarrow> disk \<Rightarrow> nat \<times> disk" where
  "open_truncated path i d =
     (case dk_live d path of Some j \<Rightarrow> (j, os_write j [] d) | None \<Rightarrow> (i, os_create path i d))"

definition gen_key ::
  "('pk, 'sk) rsa_lib \<Rightarrow> (key_step \<Rightarrow> string option) \<Rightarrow> nat \<Rightarrow> nat \<Rightarrow> string \<Rightarrow> disk \<Rightarrow> string option \<times> disk" where
  "gen_key lib faults torn i path d =
     (case wl_generate lib of Inl err \<Rightarrow> (Some (''generate key: '' @ err), d) | Inr key \<Rightarrow>
      case wl_marshal_private lib key of Inl err \<Rightarrow> (Some (''marshal key: '' @ err), d) | Inr der \<Rightarrow>
      case faults KeyMkdir of Some err \<Rightarrow> (Some (''mkdir: '' @ err), d) | None \<Rightarrow>
      case faults KeyOpen of Some err \<Rightarrow> (Some (''open: '' @ err), d) | None \<Rightarrow>
      let (j, d1) = open_truncated path i d; doc = wl_pem lib der
      in case faults KeyWrite of Some err \<Rightarrow> (Some (''write: '' @ err), os_write j (take torn doc) d1) | None \<Rightarrow>
         let d2 = os_write j doc d1
         in case faults KeySync of Some err \<Rightarrow> (Some err, d2) | None \<Rightarrow> (None, os_sync j d2))"

section \<open>Tokens\<close>

definition sign_jwt ::
  "('pk, 'sk) rsa_lib \<Rightarrow> 'sk \<Rightarrow> (string \<times> json_value) list \<Rightarrow> (string \<times> json_value) list \<Rightarrow> string + string" where
  "sign_jwt lib key header claims =
     (case wl_json lib header of Inl err \<Rightarrow> Inl (''marshal header: '' @ err) | Inr header_json \<Rightarrow>
      case wl_json lib claims of Inl err \<Rightarrow> Inl (''marshal claims: '' @ err) | Inr claims_json \<Rightarrow>
      let signing_input = b64url_encode (bytes_of header_json) @ ''.'' @ b64url_encode (bytes_of claims_json)
      in case wl_sign lib key (wl_sha256 lib (bytes_of signing_input)) of
           Inl err \<Rightarrow> Inl (''sign: '' @ err)
         | Inr sig \<Rightarrow> Inr (signing_input @ ''.'' @ b64url_encode sig))"

datatype token_step = TokMkdir | TokCreate | TokChmod | TokWrite | TokSync | TokClose | TokRename

text \<open>The result and the states of the disk, the last one last; the deferred removal runs on every return
  after the temporary file exists, and finds nothing once the file was renamed.\<close>

definition token_write ::
  "(token_step \<Rightarrow> string option) \<Rightarrow> nat \<Rightarrow> string \<Rightarrow> nat \<Rightarrow> string \<Rightarrow> string \<Rightarrow> nat \<Rightarrow> disk \<Rightarrow> string option \<times> disk list" where
  "token_write faults torn tmp i path x mode d =
     (case faults TokMkdir of Some err \<Rightarrow> (Some (''mkdir: '' @ err), [d]) | None \<Rightarrow>
      case faults TokCreate of Some err \<Rightarrow> (Some (''create temp: '' @ err), [d]) | None \<Rightarrow>
      let d1 = os_create tmp i d
      in case faults TokChmod of Some err \<Rightarrow> (Some (''chmod: '' @ err), [d, d1, os_remove tmp d1]) | None \<Rightarrow>
      let d2 = os_chmod i mode d1
      in case faults TokWrite of
           Some err \<Rightarrow> (let dt = os_write i (take torn x) d2 in (Some (''write: '' @ err), [d, d1, d2, dt, os_remove tmp dt]))
         | None \<Rightarrow>
      let d3 = os_write i x d2
      in case faults TokSync of Some err \<Rightarrow> (Some (''sync: '' @ err), [d, d1, d2, d3, os_remove tmp d3]) | None \<Rightarrow>
      let d4 = os_sync i d3
      in case faults TokClose of Some err \<Rightarrow> (Some (''close: '' @ err), [d, d1, d2, d3, d4, os_remove tmp d4]) | None \<Rightarrow>
         case faults TokRename of Some err \<Rightarrow> (Some err, [d, d1, d2, d3, d4, os_remove tmp d4]) | None \<Rightarrow>
         (None, [d, d1, d2, d3, d4, os_rename tmp path d4]))"

record token_order =
  to_out :: string
  to_iss :: string
  to_sub :: string
  to_aud :: string
  to_ttl :: duration

text \<open>One round of the minter: its clock, the random identifier, and what its file operations do.\<close>

record mint_round =
  mr_now :: time
  mr_random :: "byte list"
  mr_faults :: "token_step \<Rightarrow> string option"
  mr_torn :: nat
  mr_temp :: "disk \<Rightarrow> string \<times> nat"

definition token_claims :: "token_order \<Rightarrow> mint_round \<Rightarrow> (string \<times> json_value) list" where
  "token_claims ord r =
     [(''iss'', JStr (to_iss ord)), (''sub'', JStr (to_sub ord)), (''aud'', JStr (to_aud ord)),
      (''iat'', JInt (unix (mr_now r))), (''nbf'', JInt (unix (mr_now r))),
      (''exp'', JInt (unix (mr_now r + to_ttl ord))), (''jti'', JStr (b64url_encode (mr_random r)))]"

definition token_header :: "string \<Rightarrow> (string \<times> json_value) list" where
  "token_header kid = [(''alg'', JStr ''RS256''), (''typ'', JStr ''JWT''), (''kid'', JStr kid)]"

definition mint_once ::
  "('pk, 'sk) rsa_lib \<Rightarrow> 'sk \<Rightarrow> token_order \<Rightarrow> mint_round \<Rightarrow> disk \<Rightarrow> string option \<times> disk list" where
  "mint_once lib key ord r d =
     (case kid_for lib (wl_public lib key) of Inl err \<Rightarrow> (Some err, [d]) | Inr kid \<Rightarrow>
      case sign_jwt lib key (token_header kid) (token_claims ord r) of Inl err \<Rightarrow> (Some err, [d]) | Inr token \<Rightarrow>
      token_write (mr_faults r) (mr_torn r) (fst (mr_temp r d)) (snd (mr_temp r d)) (to_out ord) token private_mode d)"

section \<open>The program\<close>

record wif_flags =
  wf_genkey :: string
  wf_jwks :: bool
  wf_key :: string
  wf_order :: token_order
  wf_interval :: duration

text \<open>How the program ends: its exit status, or it is still minting when the rounds given are over.\<close>

datatype wif_end = Exit int | Minting

text \<open>The loop of the minter, along the rounds the clock gives it; the states carry the clock of their round.\<close>

fun mint_loop ::
  "('pk, 'sk) rsa_lib \<Rightarrow> 'sk \<Rightarrow> token_order \<Rightarrow> duration \<Rightarrow> mint_round list \<Rightarrow> disk \<Rightarrow> wif_end \<times> (time \<times> disk) list" where
  "mint_loop lib key ord interval [] d = (Minting, [])"
| "mint_loop lib key ord interval (r # rs) d =
     (case mint_once lib key ord r d of
        (Some err, hist) \<Rightarrow> (Exit 1, map (Pair (mr_now r)) hist)
      | (None, hist) \<Rightarrow>
          if interval \<le> 0 then (Exit 0, map (Pair (mr_now r)) hist)
          else (case mint_loop lib key ord interval rs (last hist) of
                  (fin, later) \<Rightarrow> (fin, map (Pair (mr_now r)) hist @ later)))"

record wif_world =
  ww_disk :: disk
  ww_stdout :: "jwk list option"

definition read_file :: "(string \<Rightarrow> string) \<Rightarrow> string \<Rightarrow> disk \<Rightarrow> string + string" where
  "read_file missing path d = (case file_of d path of None \<Rightarrow> Inl (missing path) | Some x \<Rightarrow> Inr x)"

definition wif_main ::
  "('pk, 'sk) rsa_lib \<Rightarrow> (string \<Rightarrow> string) \<Rightarrow> (key_step \<Rightarrow> string option) \<Rightarrow> nat \<Rightarrow> nat \<Rightarrow> string option
     \<Rightarrow> wif_flags \<Rightarrow> mint_round list \<Rightarrow> disk \<Rightarrow> wif_end \<times> wif_world" where
  "wif_main lib missing faults torn i stdout_err fl rounds d =
     (let load = load_private_key lib (read_file missing (wf_key fl) d); ord = wf_order fl;
          stop = (\<lambda>code. (Exit code, \<lparr>ww_disk = d, ww_stdout = None\<rparr>))
      in if wf_genkey fl \<noteq> [] then
           (case gen_key lib faults torn i (wf_genkey fl) d of
              (err, d') \<Rightarrow> (Exit (if err = None then 0 else 1), \<lparr>ww_disk = d', ww_stdout = None\<rparr>))
         else if wf_jwks fl then
           (if wf_key fl = [] then stop 2
            else case load of Inl err \<Rightarrow> stop 1 | Inr key \<Rightarrow>
                 (case jwks_for lib (wl_public lib key) of Inl err \<Rightarrow> stop 1 | Inr keys \<Rightarrow>
                  (Exit (if stdout_err = None then 0 else 1), \<lparr>ww_disk = d, ww_stdout = Some keys\<rparr>)))
         else if wf_key fl = [] \<or> to_out ord = [] \<or> to_iss ord = [] \<or> to_sub ord = [] \<or> to_aud ord = [] then stop 2
         else case load of Inl err \<Rightarrow> stop 1 | Inr key \<Rightarrow>
              (case mint_loop lib key ord (wf_interval fl) rounds d of
                 (fin, hist) \<Rightarrow> (fin, \<lparr>ww_disk = (if hist = [] then d else snd (last hist)), ww_stdout = None\<rparr>)))"

section \<open>The other end\<close>

text \<open>What a holder of the key set checks of a token (RFC 7515 and 7519): the signature under the key that
  the header names, and the claims. \<open>vf_key\<close> builds a public key from modulus and exponent.\<close>

record 'pk token_verifier =
  vf_parse :: "string \<Rightarrow> (string \<times> json_value) list option"
  vf_key :: "nat \<Rightarrow> nat \<Rightarrow> 'pk option"
  vf_sha256 :: "byte list \<Rightarrow> byte list"
  vf_verify :: "'pk \<Rightarrow> byte list \<Rightarrow> byte list \<Rightarrow> bool"

fun split_dots :: "string \<Rightarrow> string list" where
  "split_dots [] = [[]]"
| "split_dots (c # s) =
     (if c = CHR ''.'' then [] # split_dots s else (c # hd (split_dots s)) # tl (split_dots s))"

definition text_of :: "byte list \<Rightarrow> string" where "text_of bs = map (\<lambda>b. char_of (unat b)) bs"

definition jwk_key :: "'pk token_verifier \<Rightarrow> jwk \<Rightarrow> 'pk option" where
  "jwk_key vf k =
     (case (b64url (jk_n k), b64url (jk_e k)) of
        (Some n, Some e) \<Rightarrow> vf_key vf (bytes_nat n) (bytes_nat e)
      | _ \<Rightarrow> None)"

definition claims_hold :: "token_order \<Rightarrow> time \<Rightarrow> (string \<times> json_value) list \<Rightarrow> bool" where
  "claims_hold ord t claims \<longleftrightarrow>
     map_of claims ''iss'' = Some (JStr (to_iss ord)) \<and> map_of claims ''sub'' = Some (JStr (to_sub ord))
     \<and> map_of claims ''aud'' = Some (JStr (to_aud ord))
     \<and> (case (map_of claims ''nbf'', map_of claims ''exp'') of
          (Some (JInt nbf), Some (JInt til)) \<Rightarrow> nbf \<le> unix t \<and> unix t < til
        | _ \<Rightarrow> False)"

definition signature_holds :: "'pk token_verifier \<Rightarrow> jwk list \<Rightarrow> (string \<times> json_value) list \<Rightarrow> string \<Rightarrow> byte list \<Rightarrow> bool" where
  "signature_holds vf keys header signing_input sig \<longleftrightarrow>
     map_of header ''alg'' = Some (JStr ''RS256'')
     \<and> (case find_first (\<lambda>k. map_of header ''kid'' = Some (JStr (jk_kid k))) keys of
          None \<Rightarrow> False
        | Some k \<Rightarrow> (case jwk_key vf k of None \<Rightarrow> False
                    | Some pub \<Rightarrow> vf_verify vf pub (vf_sha256 vf (bytes_of signing_input)) sig))"

definition token_accepted :: "'pk token_verifier \<Rightarrow> jwk list \<Rightarrow> token_order \<Rightarrow> time \<Rightarrow> string \<Rightarrow> bool" where
  "token_accepted vf keys ord t token =
     (case split_dots token of
        [h, c, s] \<Rightarrow>
          (case (b64url h, b64url c, b64url s) of
             (Some hb, Some cb, Some sig) \<Rightarrow>
               (case (vf_parse vf (text_of hb), vf_parse vf (text_of cb)) of
                  (Some header, Some claims) \<Rightarrow>
                    signature_holds vf keys header (h @ ''.'' @ c) sig \<and> claims_hold ord t claims
                | _ \<Rightarrow> False)
           | _ \<Rightarrow> False)
      | _ \<Rightarrow> False)"

text \<open>What is known of the library: the verifier reads what \<open>json.Marshal\<close> wrote, rebuilds the public key, and
  accepts a signature made with the private one.\<close>

definition lib_matches :: "('pk, 'sk) rsa_lib \<Rightarrow> 'pk token_verifier \<Rightarrow> 'sk \<Rightarrow> bool" where
  "lib_matches lib vf key \<longleftrightarrow>
     (\<forall>kvs doc. wl_json lib kvs = Inr doc \<longrightarrow> (\<exists>kvs'. vf_parse vf doc = Some kvs' \<and> map_of kvs' = map_of kvs))
     \<and> vf_sha256 vf = wl_sha256 lib
     \<and> vf_key vf (wl_modulus lib (wl_public lib key)) (nat \<bar>wl_exponent lib (wl_public lib key)\<bar>) = Some (wl_public lib key)
     \<and> (\<forall>dg sig. wl_sign lib key dg = Inr sig \<longrightarrow> vf_verify vf (wl_public lib key) dg sig)"

text \<open>The published key set: it holds the key, and no other key with its identifier (as after a rotation that
  joins two sets).\<close>

definition publishes :: "('pk, 'sk) rsa_lib \<Rightarrow> 'sk \<Rightarrow> jwk list \<Rightarrow> bool" where
  "publishes lib key keys \<longleftrightarrow>
     (\<exists>k. jwks_for lib (wl_public lib key) = Inr [k] \<and> k \<in> set keys \<and> (\<forall>k' \<in> set keys. jk_kid k' = jk_kid k \<longrightarrow> k' = k))"

lemma text_of_bytes_of [simp]: "text_of (bytes_of s) = s"
  by (induction s) (auto simp: text_of_def bytes_of_def unat_of_char)

lemma b64_no_dot: "CHR ''.'' \<notin> set (b64url_encode bs)"
proof -
  have "n < 64 \<Longrightarrow> b64_digit n \<noteq> CHR ''.''" for n
    by (auto simp: b64_digit_def char_of_eq)
  then show ?thesis using b64_sextets_less by (fastforce simp: b64url_encode_def)
qed

lemma split_dots_no_dot: "CHR ''.'' \<notin> set a \<Longrightarrow> split_dots a = [a]"
  by (induction a) auto

lemma split_dots_append: "CHR ''.'' \<notin> set a \<Longrightarrow> split_dots (a @ CHR ''.'' # s) = a # split_dots s"
  by (induction a) auto

lemma split_token:
  "split_dots ((b64url_encode a @ ''.'' @ b64url_encode b) @ ''.'' @ b64url_encode c)
     = [b64url_encode a, b64url_encode b, b64url_encode c]"
  by (simp add: split_dots_append split_dots_no_dot b64_no_dot)

lemma find_unique:
  assumes "k \<in> set keys" "P k" "\<And>k'. k' \<in> set keys \<Longrightarrow> P k' \<Longrightarrow> k' = k"
  shows "find_first P keys = Some k"
proof (cases "find_first P keys")
  case None
  with assms(1,2) show ?thesis by simp
next
  case (Some k')
  with assms(3) find_first_Some [OF Some] show ?thesis by simp
qed

lemma signed_accepted:
  assumes "lib_matches lib vf key" "publishes lib key keys" "kid_for lib (wl_public lib key) = Inr kid"
    and "sign_jwt lib key (token_header kid) (token_claims ord r) = Inr token"
    and "mr_now r \<le> t" "unix t < unix (mr_now r + to_ttl ord)"
  shows "token_accepted vf keys ord t token"
proof -
  let ?pub = "wl_public lib key"
  obtain k where k: "jwks_for lib ?pub = Inr [k]" "k \<in> set keys"
    "\<And>k'. k' \<in> set keys \<Longrightarrow> jk_kid k' = jk_kid k \<Longrightarrow> k' = k" using assms(2) by (auto simp: publishes_def)
  have "vf_key vf (wl_modulus lib ?pub) (nat \<bar>wl_exponent lib ?pub\<bar>) = Some ?pub"
    using assms(1) unfolding lib_matches_def by blast
  moreover have "[k] = [\<lparr>jk_kty = ''RSA'', jk_use = ''sig'', jk_alg = ''RS256'', jk_kid = kid,
      jk_n = b64url_encode (nat_bytes (wl_modulus lib ?pub)),
      jk_e = b64url_encode (nat_bytes (nat \<bar>wl_exponent lib ?pub\<bar>))\<rparr>]"
    using k(1) assms(3) by (simp add: jwks_for_def)
  ultimately have kid: "jk_kid k = kid" and key: "jwk_key vf k = Some ?pub" by (simp_all add: jwk_key_def)
  obtain hj cj sig where j: "wl_json lib (token_header kid) = Inr hj" "wl_json lib (token_claims ord r) = Inr cj"
    and sig: "wl_sign lib key (wl_sha256 lib (bytes_of (b64url_encode (bytes_of hj) @ ''.'' @ b64url_encode (bytes_of cj)))) = Inr sig"
    and token: "token = (b64url_encode (bytes_of hj) @ ''.'' @ b64url_encode (bytes_of cj)) @ ''.'' @ b64url_encode sig"
    using assms(4) by (auto simp: sign_jwt_def Let_def split: sum.splits)
  obtain header where h: "vf_parse vf hj = Some header" "map_of header = map_of (token_header kid)"
    using assms(1) j(1) unfolding lib_matches_def by blast
  obtain claims where c: "vf_parse vf cj = Some claims" "map_of claims = map_of (token_claims ord r)"
    using assms(1) j(2) unfolding lib_matches_def by blast
  have "find_first (\<lambda>k. map_of header ''kid'' = Some (JStr (jk_kid k))) keys = Some k"
    using k(2) by (rule find_unique) (simp_all add: h(2) token_header_def kid k(3))
  moreover have "vf_verify vf ?pub (vf_sha256 vf (bytes_of (b64url_encode (bytes_of hj) @ ''.'' @ b64url_encode (bytes_of cj)))) sig"
    using assms(1) sig by (auto simp: lib_matches_def)
  ultimately have "signature_holds vf keys header (b64url_encode (bytes_of hj) @ ''.'' @ b64url_encode (bytes_of cj)) sig"
    using key h(2) by (simp add: signature_holds_def token_header_def)
  moreover have "unix (mr_now r) \<le> unix t" using assms(5) by (simp add: unix_def zdiv_mono1 dur_defs)
  then have "claims_hold ord t claims" using c(2) assms(6) by (simp add: claims_hold_def token_claims_def)
  ultimately show ?thesis using h(1) c(1) unfolding token token_accepted_def split_token by simp
qed

section \<open>The token file\<close>

lemma token_write_result:
  assumes "fresh_temp tmp i path d" "token_write faults torn tmp i path x mode d = (r, hist)"
  shows "hist \<noteq> [] \<and> hd hist = d
    \<and> (\<forall>s \<in> set hist. file_of s path = file_of d path \<or> r = None \<and> file_of s path = Some x)
    \<and> (r = None \<longrightarrow> file_of (last hist) path = Some x)"
proof -
  have ne: "tmp \<noteq> path" using assms(1) by (simp add: fresh_temp_def)
  let ?d4 = "os_sync i (os_write i x (os_chmod i mode (os_create tmp i d)))"
  have d4: "beside i path d ?d4" "dk_live ?d4 tmp = Some i" "in_data (dk_inodes ?d4 i) = x" "in_synced (dk_inodes ?d4 i)"
    using ne by (auto simp: os_defs beside_def)
  have new: "file_of (os_rename tmp path ?d4) path = Some x"
    using renamed_disk(1) [OF d4(1) assms(1) d4(2-4)] .
  have "s \<in> set hist \<Longrightarrow> beside i path d s \<or> r = None \<and> s = os_rename tmp path ?d4" for s
    using assms(2) ne by (auto simp: token_write_def Let_def beside_step beside_refl split: option.splits)
  then have "s \<in> set hist \<Longrightarrow> file_of s path = file_of d path \<or> r = None \<and> file_of s path = Some x" for s
    using beside_frame(2) [OF _ assms(1)] new by blast
  moreover have "hist \<noteq> [] \<and> hd hist = d \<and> (r = None \<longrightarrow> last hist = os_rename tmp path ?d4)"
    using assms(2) by (auto simp: token_write_def Let_def split: option.splits)
  ultimately show ?thesis using new by auto
qed

text \<open>The file holds the token of a round, which is accepted from that round until it expires.\<close>

definition holds_token :: "'pk token_verifier \<Rightarrow> jwk list \<Rightarrow> token_order \<Rightarrow> time \<Rightarrow> disk \<Rightarrow> bool" where
  "holds_token vf keys ord t d \<longleftrightarrow>
     (case file_of d (to_out ord) of None \<Rightarrow> False | Some token \<Rightarrow> token_accepted vf keys ord t token)"

definition holds_from :: "'pk token_verifier \<Rightarrow> jwk list \<Rightarrow> token_order \<Rightarrow> time \<Rightarrow> disk \<Rightarrow> bool" where
  "holds_from vf keys ord t0 d \<longleftrightarrow> (\<forall>t \<ge> t0. unix t < unix (t0 + to_ttl ord) \<longrightarrow> holds_token vf keys ord t d)"

definition temp_fresh :: "token_order \<Rightarrow> mint_round \<Rightarrow> bool" where
  "temp_fresh ord r \<longleftrightarrow> (\<forall>d. fresh_temp (fst (mr_temp r d)) (snd (mr_temp r d)) (to_out ord) d)"

lemma mint_once_result:
  assumes "lib_matches lib vf key" "publishes lib key keys" "temp_fresh ord r"
    and "mint_once lib key ord r d = (res, hist)"
  shows "hist \<noteq> [] \<and> hd hist = d
    \<and> (\<forall>s \<in> set hist. file_of s (to_out ord) = file_of d (to_out ord) \<or> holds_from vf keys ord (mr_now r) s)
    \<and> (res = None \<longrightarrow> holds_from vf keys ord (mr_now r) (last hist))"
proof (cases "\<exists>kid token. kid_for lib (wl_public lib key) = Inr kid
    \<and> sign_jwt lib key (token_header kid) (token_claims ord r) = Inr token")
  case True
  then obtain kid token where t: "kid_for lib (wl_public lib key) = Inr kid"
    "sign_jwt lib key (token_header kid) (token_claims ord r) = Inr token" by blast
  have tw: "token_write (mr_faults r) (mr_torn r) (fst (mr_temp r d)) (snd (mr_temp r d)) (to_out ord) token private_mode d
      = (res, hist)" using assms(4) t by (simp add: mint_once_def)
  have fr: "fresh_temp (fst (mr_temp r d)) (snd (mr_temp r d)) (to_out ord) d"
    using assms(3) by (simp add: temp_fresh_def)
  have "file_of s (to_out ord) = Some token \<Longrightarrow> holds_from vf keys ord (mr_now r) s" for s
    using signed_accepted [OF assms(1,2) t] by (simp add: holds_from_def holds_token_def)
  then show ?thesis using token_write_result [OF fr tw] by blast
next
  case False
  with assms(4) show ?thesis by (auto simp: mint_once_def split: sum.splits)
qed

text \<open>Rounds that follow each other before the token expires.\<close>

definition in_time :: "token_order \<Rightarrow> mint_round \<Rightarrow> mint_round \<Rightarrow> bool" where
  "in_time ord a b \<longleftrightarrow> mr_now a \<le> mr_now b \<and> unix (mr_now b) < unix (mr_now a + to_ttl ord)"

text \<open>Two states that follow each other: a reader at any instant from the first to the second finds a token
  that is accepted then.\<close>

definition readable_between ::
  "'pk token_verifier \<Rightarrow> jwk list \<Rightarrow> token_order \<Rightarrow> time \<times> disk \<Rightarrow> time \<times> disk \<Rightarrow> bool" where
  "readable_between vf keys ord p q \<longleftrightarrow> (\<forall>t. fst p \<le> t \<longrightarrow> t \<le> fst q \<longrightarrow> holds_token vf keys ord t (snd p))"

lemma successively_all: "(\<And>x y. x \<in> set xs \<Longrightarrow> y \<in> set xs \<Longrightarrow> P x y) \<Longrightarrow> successively P xs"
  by (induction P xs rule: successively.induct) auto

lemma unix_mono: "a \<le> b \<Longrightarrow> unix a \<le> unix b"
  by (simp add: unix_def zdiv_mono1 dur_defs)

lemma in_time_readable:
  assumes "holds_from vf keys ord (mr_now a) d" "in_time ord a b"
  shows "readable_between vf keys ord (mr_now a, d) (mr_now b, e)"
    and "holds_token vf keys ord (mr_now b) d"
  using assms unix_mono unfolding readable_between_def holds_from_def in_time_def
  by (auto intro: le_less_trans)

lemma mint_loop_readable:
  assumes "lib_matches lib vf key" "publishes lib key keys" "list_all (temp_fresh ord) rs" "second \<le> to_ttl ord"
    and "successively (in_time ord) (r0 # rs)" "holds_from vf keys ord (mr_now r0) d"
    and "mint_loop lib key ord interval rs d = (fin, hist)"
  shows "successively (readable_between vf keys ord) ((mr_now r0, d) # hist)"
  using assms(3,5-7)
proof (induction rs arbitrary: r0 d fin hist)
  case (Cons r rs)
  obtain res h where m: "mint_once lib key ord r d = (res, h)" by fastforce
  have fr: "temp_fresh ord r" and it: "in_time ord r0 r" using Cons.prems(1,2) by simp_all
  note res = mint_once_result [OF assms(1,2) fr m]
  have "unix (mr_now r) < unix (mr_now r + to_ttl ord)"
    using assms(4) unix_mono [of "mr_now r + second" "mr_now r + to_ttl ord"] by (simp add: unix_def dur_defs)
  then have now: "s \<in> set h \<Longrightarrow> holds_token vf keys ord (mr_now r) s" for s
    using res in_time_readable(2) [OF Cons.prems(3) it] by (auto simp: holds_from_def holds_token_def)
  let ?h = "map (Pair (mr_now r)) h"
  have inner: "successively (readable_between vf keys ord) ?h"
    by (rule successively_all) (use now in \<open>auto simp: readable_between_def\<close>)
  have first: "readable_between vf keys ord (mr_now r0, d) (hd ?h)"
    using res in_time_readable(1) [OF Cons.prems(3) it] by (simp add: hd_map)
  then have round: "successively (readable_between vf keys ord) ((mr_now r0, d) # ?h)"
    using inner res by (simp add: successively_Cons)
  show ?case
  proof (cases "res = None \<and> \<not> interval \<le> 0")
    case True
    obtain fin' later where l: "mint_loop lib key ord interval rs (last h) = (fin', later)" by fastforce
    have hist: "hist = ?h @ later" using Cons.prems(4) m True l by simp
    have "successively (readable_between vf keys ord) ((mr_now r, last h) # later)"
      by (rule Cons.IH [OF _ _ _ l]) (use Cons.prems(1,2) res True in \<open>auto simp: successively_Cons\<close>)
    then show ?thesis
      using round res by (auto simp: hist successively_append_iff successively_Cons last_map)
  next
    case False
    then have "hist = ?h" using Cons.prems(4) m by (auto split: option.splits if_splits)
    with round show ?thesis by simp
  qed
qed simp

text \<open>C37. A running minter never leaves its reader without a valid token. When the first mint succeeded and
  every later one starts before the token before it expires, then at every instant until the last
  recorded state, in the middle of a write and across a failing mint too, the token file holds a
  token that whoever has the published key set accepts; after a rotation the set may hold other keys.\<close>

theorem running_minter_keeps_token:
  assumes "lib_matches lib vf key" "publishes lib key keys" "list_all (temp_fresh ord) (r # rs)"
    and "second \<le> to_ttl ord" "successively (in_time ord) (r # rs)"
    and "mint_once lib key ord r d = (None, h)" "mint_loop lib key ord interval (r # rs) d = (fin, hist)"
  shows "successively (readable_between vf keys ord) (drop (length h - 1) hist)"
proof -
  have fr: "temp_fresh ord r" "list_all (temp_fresh ord) rs" using assms(3) by simp_all
  note res = mint_once_result [OF assms(1,2) fr(1) assms(6)]
  obtain hs where h: "h = hs @ [last h]" using res by (metis append_butlast_last_id)
  have tail: "drop (length h - 1) (map (Pair (mr_now r)) h @ later) = (mr_now r, last h) # later" for later
    by (subst (2) h, subst h) simp
  show ?thesis
  proof (cases "interval \<le> 0")
    case True
    then show ?thesis using assms(6,7) tail [of "[]"] by simp
  next
    case False
    obtain fin' later where l: "mint_loop lib key ord interval rs (last h) = (fin', later)" by fastforce
    have "hist = map (Pair (mr_now r)) h @ later" using assms(6,7) False l by simp
    moreover have "successively (readable_between vf keys ord) ((mr_now r, last h) # later)"
      using mint_loop_readable [OF assms(1,2) fr(2) assms(4,5) _ l] res by simp
    ultimately show ?thesis using tail by simp
  qed
qed

text \<open>A small library: one key, whose signatures are one byte, and a table for the documents.\<close>

definition sample_order :: token_order where
  "sample_order = \<lparr>to_out = ''/run/token'', to_iss = ''https://x.io'', to_sub = ''broker'', to_aud = ''pool'',
     to_ttl = hour\<rparr>"

definition free_inode :: "disk \<Rightarrow> nat" where
  "free_inode d = (let used = [dk_live d ''/run/token'', dk_synced d ''/run/token'']
     in if Some 0 \<notin> set used then 0 else if Some 1 \<notin> set used then 1 else 2)"

definition sample_round :: "time \<Rightarrow> mint_round" where
  "sample_round t = \<lparr>mr_now = t, mr_random = [1], mr_faults = (\<lambda>st. None), mr_torn = 0,
     mr_temp = (\<lambda>d. (''/run/token.tmp'', free_inode d))\<rparr>"

definition sample_docs :: "(string \<times> (string \<times> json_value) list) list" where
  "sample_docs = [(''h'', token_header (b64url_encode [0])), (''a'', token_claims sample_order (sample_round 0)),
     (''b'', token_claims sample_order (sample_round (30 * minute)))]"

definition sample_rsa :: "(nat \<times> nat, unit) rsa_lib" where
  "sample_rsa = \<lparr>wl_generate = Inr (), wl_public = (\<lambda>k. (3233, 17)), wl_modulus = fst, wl_exponent = (\<lambda>p. int (snd p)),
     wl_marshal_private = (\<lambda>k. Inr [1]), wl_parse_private = (\<lambda>bs. Inr (Some ())), wl_marshal_public = (\<lambda>p. Inr [2]),
     wl_pem = (\<lambda>bs. ''pem''), wl_unpem = (\<lambda>x. Some [1]), wl_sha256 = (\<lambda>bs. [0]), wl_sign = (\<lambda>k dg. Inr [7]),
     wl_json = (\<lambda>kvs. case find_first (\<lambda>p. snd p = kvs) sample_docs of Some p \<Rightarrow> Inr (fst p) | None \<Rightarrow> Inl ''unsupported'')\<rparr>"

definition sample_verifier :: "(nat \<times> nat) token_verifier" where
  "sample_verifier = \<lparr>vf_parse = map_of sample_docs, vf_key = (\<lambda>n e. Some (n, e)), vf_sha256 = (\<lambda>bs. [0]),
     vf_verify = (\<lambda>p dg sig. sig = [7])\<rparr>"

lemma sample_lib_matches: "lib_matches sample_rsa sample_verifier key"
proof -
  have "distinct (map fst sample_docs)" by (simp add: sample_docs_def)
  then have "find_first (\<lambda>p. snd p = kvs) sample_docs = Some p \<Longrightarrow> map_of sample_docs (fst p) = Some kvs" for kvs p
    by (auto dest!: find_first_Some)
  then show ?thesis
    by (auto simp: lib_matches_def sample_rsa_def sample_verifier_def split: option.splits)
qed

lemma sample_temp_fresh: "temp_fresh sample_order (sample_round t)"
  unfolding temp_fresh_def
proof
  fix d
  show "fresh_temp (fst (mr_temp (sample_round t) d)) (snd (mr_temp (sample_round t) d)) (to_out sample_order) d"
    by (cases "dk_live d ''/run/token''"; cases "dk_synced d ''/run/token''")
      (auto simp: sample_round_def sample_order_def free_inode_def fresh_temp_def Let_def)
qed

theorem running_minter_keeps_token_witness:
  "\<exists>keys hist. jwks_for sample_rsa (wl_public sample_rsa ()) = Inr keys
     \<and> mint_loop sample_rsa () sample_order (30 * minute) [sample_round 0, sample_round (30 * minute)] sample_disk
         = (Minting, hist)
     \<and> length hist = 12 \<and> holds_token sample_verifier keys sample_order (25 * minute) (snd (hist ! 5))"
proof -
  let ?rs = "[sample_round (30 * minute)]" and ?pub = "wl_public sample_rsa ()"
  obtain k where k: "jwks_for sample_rsa ?pub = Inr [k]"
    by (simp add: jwks_for_def kid_for_def sample_rsa_def Let_def)
  then have pub: "publishes sample_rsa () [k]" by (simp add: publishes_def)
  have kid: "kid_for sample_rsa ?pub = Inr (b64url_encode [0])" by (simp add: kid_for_def sample_rsa_def)
  have sign: "\<exists>token. sign_jwt sample_rsa () (token_header (b64url_encode [0])) (token_claims sample_order (sample_round t)) = Inr token"
    if "t = 0 \<or> t = 30 * minute" for t
    using that by (auto simp: sign_jwt_def sample_rsa_def sample_docs_def)
  have mint: "\<exists>h. mint_once sample_rsa () sample_order (sample_round t) d = (None, h) \<and> length h = 6"
    if "t = 0 \<or> t = 30 * minute" for t d
    using sign [OF that] kid by (auto simp: mint_once_def token_write_def sample_round_def Let_def)
  obtain h where h: "mint_once sample_rsa () sample_order (sample_round 0) sample_disk = (None, h)" "length h = 6"
    using mint by blast
  obtain h' where h': "mint_once sample_rsa () sample_order (sample_round (30 * minute)) (last h) = (None, h')" "length h' = 6"
    using mint by blast
  define hist where "hist = map (Pair (0 :: time)) h @ map (Pair (30 * minute)) h'"
  have loop: "mint_loop sample_rsa () sample_order (30 * minute) (sample_round 0 # ?rs) sample_disk = (Minting, hist)"
    using h(1) h'(1) by (simp add: hist_def) (simp add: sample_round_def dur_defs)
  have it: "successively (in_time sample_order) (sample_round 0 # ?rs)" "second \<le> to_ttl sample_order"
    by (simp_all add: in_time_def sample_round_def sample_order_def unix_def dur_defs)
  have len: "length hist = 12" using h(2) h'(2) by (simp add: hist_def)
  have "list_all (temp_fresh sample_order) (sample_round 0 # ?rs)" by (simp add: sample_temp_fresh)
  from running_minter_keeps_token [OF sample_lib_matches pub this it(2,1) h(1) loop]
  have "successively (readable_between sample_verifier [k] sample_order) (drop 5 hist)" by (simp add: h(2))
  moreover have "drop 5 hist = hist ! 5 # hist ! 6 # drop 7 hist"
    using Cons_nth_drop_Suc [of 5 hist] Cons_nth_drop_Suc [of 6 hist] len by simp
  ultimately have "readable_between sample_verifier [k] sample_order (hist ! 5) (hist ! 6)" by simp
  moreover have "fst (hist ! 5) = 0" "fst (hist ! 6) = 30 * minute"
    using h(2) h'(2) by (simp_all add: hist_def nth_append)
  ultimately show ?thesis using k loop len by (auto simp: readable_between_def dur_defs)
qed

section \<open>The key file\<close>

text \<open>A key that was generated without an error is the one that is loaded afterwards.\<close>

lemma generated_key_loads:
  assumes "gen_key lib faults torn i path d = (None, d')"
    and "\<And>k der. wl_marshal_private lib k = Inr der \<Longrightarrow> wl_unpem lib (wl_pem lib der) = Some der
      \<and> wl_parse_private lib der = Inr (Some k)"
  shows "\<exists>key. wl_generate lib = Inr key \<and> load_private_key lib (read_file missing path d') = Inr key"
  using assms(1)
  by (auto simp: gen_key_def open_truncated_def os_defs file_of_def read_file_def load_private_key_def Let_def
      dest: assms(2) split: sum.splits option.splits)

text \<open>The mode of the key file: 0600 when the file is new, whatever it was before when it is not.\<close>

lemma gen_key_mode:
  assumes "gen_key lib faults torn i path d = (None, d')"
  shows "case dk_live d path of
      None \<Rightarrow> \<exists>j. dk_live d' path = Some j \<and> in_mode (dk_inodes d' j) = private_mode
    | Some j \<Rightarrow> dk_live d' path = Some j \<and> in_mode (dk_inodes d' j) = in_mode (dk_inodes d j)"
  using assms
  by (auto simp: gen_key_def open_truncated_def os_defs Let_def split: sum.splits option.splits)

text \<open>A write that fails leaves a torn key where the old one was: the file was emptied first.\<close>

lemma gen_key_loses_old_key:
  assumes "faults KeyMkdir = None" "faults KeyOpen = None" "faults KeyWrite = Some err"
    and "wl_generate lib = Inr key" "wl_marshal_private lib key = Inr der" "dk_live d path = Some j"
  shows "file_of (snd (gen_key lib faults torn i path d)) path = Some (take torn (wl_pem lib der))"
  using assms by (simp add: gen_key_def open_truncated_def os_defs file_of_def)

text \<open>The exit status: 2 for missing flags, 1 for an error; a minter with an interval only ends by an error.\<close>

lemma mint_loop_runs_on:
  "0 < interval \<Longrightarrow> fst (mint_loop lib key ord interval rs d) \<noteq> Exit 0"
proof (induction rs arbitrary: d)
  case (Cons r rs)
  then show ?case by (auto split: prod.splits option.splits) (metis fst_conv)
qed simp

end
