(* ===== verification/Render.thy ===== *)
theory Render
  imports Poller Wake Complex_Main "HOL-Library.Log_Nat"
begin

text \<open>
  The drawing of a frame: \<open>internal/render/render.go\<close>, \<open>bitmapfont.go\<close> and \<open>spectra6.go\<close>. An image is
  its rectangle and the colour of every point; all colours are opaque, so the alpha channel is left
  out. A font is what \<open>parseBitmapFont\<close> makes of a baked atlas; the atlas files are a parameter. A rune
  outside ASCII has no glyph and all of its bytes are at least 128, so a string is walked by bytes.
  A \<open>float64\<close> is a rational rounded to 53 bits after each operation, to even, without fused
  operations; errors are far too small for an overflow. \<open>None\<close> is an index out of range. The
  lemmas say that dithering never touches a frame, when a frame can change at all, and that the
  packed bytes hold the colours that were drawn.
\<close>

section \<open>Inks\<close>

record rgba =
  ch_r :: byte
  ch_g :: byte
  ch_b :: byte

definition code_black :: byte where "code_black = 0x0"
definition code_white :: byte where "code_white = 0x1"
definition code_yellow :: byte where "code_yellow = 0x2"
definition code_red :: byte where "code_red = 0x3"
definition code_blue :: byte where "code_blue = 0x5"
definition code_green :: byte where "code_green = 0x6"

lemmas code_defs = code_black_def code_white_def code_yellow_def code_red_def code_blue_def code_green_def

definition c_white :: rgba where "c_white = \<lparr>ch_r = 0xFF, ch_g = 0xFF, ch_b = 0xFF\<rparr>"
definition c_black :: rgba where "c_black = \<lparr>ch_r = 0x00, ch_g = 0x00, ch_b = 0x00\<rparr>"
definition c_red :: rgba where "c_red = \<lparr>ch_r = 0xC0, ch_g = 0x20, ch_b = 0x20\<rparr>"
definition c_green :: rgba where "c_green = \<lparr>ch_r = 0x20, ch_g = 0x80, ch_b = 0x40\<rparr>"
definition c_yellow :: rgba where "c_yellow = \<lparr>ch_r = 0xE0, ch_g = 0xC8, ch_b = 0x10\<rparr>"

lemmas colour_defs = c_white_def c_black_def c_red_def c_green_def c_yellow_def

definition palette :: "(rgba \<times> byte) list" where
  "palette = [(\<lparr>ch_r = 0x00, ch_g = 0x00, ch_b = 0x00\<rparr>, code_black),
              (\<lparr>ch_r = 0xFF, ch_g = 0xFF, ch_b = 0xFF\<rparr>, code_white),
              (\<lparr>ch_r = 0xE0, ch_g = 0xC8, ch_b = 0x10\<rparr>, code_yellow),
              (\<lparr>ch_r = 0xC0, ch_g = 0x20, ch_b = 0x20\<rparr>, code_red),
              (\<lparr>ch_r = 0x20, ch_g = 0x30, ch_b = 0xA0\<rparr>, code_blue),
              (\<lparr>ch_r = 0x20, ch_g = 0x80, ch_b = 0x40\<rparr>, code_green)]"

definition achromatic_tolerance :: int where "achromatic_tolerance = 12"

definition is_achromatic :: "rgba \<Rightarrow> bool" where
  "is_achromatic c =
     (let max_c = (let m = ch_r c; m = (if m < ch_g c then ch_g c else m) in if m < ch_b c then ch_b c else m);
          min_c = (let m = ch_r c; m = (if ch_g c < m then ch_g c else m) in if ch_b c < m then ch_b c else m)
      in uint max_c - uint min_c \<le> achromatic_tolerance)"

definition ink_distance :: "rgba \<Rightarrow> rgba \<Rightarrow> int" where
  "ink_distance c p =
     (let dr = uint (ch_r c) - uint (ch_r p); dg = uint (ch_g c) - uint (ch_g p); db = uint (ch_b c) - uint (ch_b p)
      in 2 * dr * dr + 4 * dg * dg + 3 * db * db)"

text \<open>The loop of \<open>nearestAmong\<close> at candidate \<open>i\<close>.\<close>

fun nearest_from :: "rgba \<Rightarrow> (rgba \<times> byte) list \<Rightarrow> nat \<Rightarrow> nat \<Rightarrow> int \<Rightarrow> nat" where
  "nearest_from c [] i best best_d = best"
| "nearest_from c (p # ps) i best best_d =
     (let d = ink_distance c (fst p)
      in if d < best_d then nearest_from c ps (i + 1) i d else nearest_from c ps (i + 1) best best_d)"

definition nearest_among :: "rgba \<Rightarrow> (rgba \<times> byte) list \<Rightarrow> nat" where
  "nearest_among c cands = nearest_from c cands 0 0 (2 ^ 31)"

definition nearest_index :: "rgba \<Rightarrow> nat" where
  "nearest_index c = nearest_among c (if is_achromatic c then take 2 palette else palette)"

definition code_for :: "byte \<Rightarrow> byte" where
  "code_for i = (if unat i < length palette then snd (palette ! unat i) else code_white)"

section \<open>Images\<close>

record rectangle =
  re_x0 :: int
  re_y0 :: int
  re_x1 :: int
  re_y1 :: int

text \<open>\<open>image.Rect\<close> swaps coordinates that are the wrong way round.\<close>

definition image_rect :: "int \<Rightarrow> int \<Rightarrow> int \<Rightarrow> int \<Rightarrow> rectangle" where
  "image_rect x0 y0 x1 y1 = \<lparr>re_x0 = min x0 x1, re_y0 = min y0 y1, re_x1 = max x0 x1, re_y1 = max y0 y1\<rparr>"

definition in_rect :: "int \<Rightarrow> int \<Rightarrow> rectangle \<Rightarrow> bool" where
  "in_rect x y r \<longleftrightarrow> re_x0 r \<le> x \<and> x < re_x1 r \<and> re_y0 r \<le> y \<and> y < re_y1 r"

record canvas =
  cv_bounds :: rectangle
  cv_at :: "int \<Rightarrow> int \<Rightarrow> rgba"

definition new_rgba :: "int \<Rightarrow> int \<Rightarrow> canvas" where
  "new_rgba w h = \<lparr>cv_bounds = image_rect 0 0 w h, cv_at = (\<lambda>x y. c_black)\<rparr>"

definition set_rgba :: "canvas \<Rightarrow> int \<Rightarrow> int \<Rightarrow> rgba \<Rightarrow> canvas" where
  "set_rgba cv x y c =
     (if in_rect x y (cv_bounds cv)
      then cv\<lparr>cv_at := (\<lambda>x' y'. if x' = x \<and> y' = y then c else cv_at cv x' y')\<rparr> else cv)"

definition draw_uniform :: "canvas \<Rightarrow> rectangle \<Rightarrow> rgba \<Rightarrow> canvas" where
  "draw_uniform cv r c =
     cv\<lparr>cv_at := (\<lambda>x y. if in_rect x y r \<and> in_rect x y (cv_bounds cv) then c else cv_at cv x y)\<rparr>"

definition fill_rect :: "canvas \<Rightarrow> int \<Rightarrow> int \<Rightarrow> int \<Rightarrow> int \<Rightarrow> rgba \<Rightarrow> canvas" where
  "fill_rect cv x y w h c = draw_uniform cv (image_rect x y (x + w) (y + h)) c"

section \<open>Fonts\<close>

record glyph =
  gl_w :: int
  gl_h :: int
  gl_offset_x :: int
  gl_offset_y :: int
  gl_advance :: int
  gl_bitmap :: "byte list"

record bitmap_font =
  bf_ascent :: int
  bf_descent :: int
  bf_glyphs :: "glyph list"

definition first_cp :: nat where "first_cp = 32"
definition last_cp :: nat where "last_cp = 126"
definition num_cp :: nat where "num_cp = last_cp - first_cp + 1"

lemmas cp_defs = first_cp_def last_cp_def num_cp_def

datatype font_error = BadMagic | GlyphCount nat | TruncatedHeader nat | TruncatedBitmap nat

definition u16_at :: "byte list \<Rightarrow> nat \<Rightarrow> 16 word" where
  "u16_at data i = of_le16 [data ! (i + 1), data ! i]"

text \<open>The loop over the glyphs: \<open>i\<close> is the index, \<open>k\<close> the number that is left.\<close>

fun parse_glyphs :: "byte list \<Rightarrow> nat \<Rightarrow> nat \<Rightarrow> nat \<Rightarrow> font_error + glyph list" where
  "parse_glyphs data i off 0 = Inr []"
| "parse_glyphs data i off (Suc k) =
     (if length data < off + 10 then Inl (TruncatedHeader i)
      else let w = unat (u16_at data off); h = unat (u16_at data (off + 2)); off' = off + 10
           in if length data < off' + w * h then Inl (TruncatedBitmap i)
              else case parse_glyphs data (i + 1) (off' + w * h) k of
                     Inl e \<Rightarrow> Inl e
                   | Inr gs \<Rightarrow> Inr (\<lparr>gl_w = int w, gl_h = int h,
                        gl_offset_x = sint (u16_at data (off + 4)), gl_offset_y = sint (u16_at data (off + 6)),
                        gl_advance = uint (u16_at data (off + 8)), gl_bitmap = take (w * h) (drop off' data)\<rparr> # gs))"

definition parse_bitmap_font :: "byte list \<Rightarrow> font_error + bitmap_font" where
  "parse_bitmap_font data =
     (if length data < 10 \<or> take 4 data \<noteq> map (of_nat \<circ> of_char) ''BFA3'' then Inl BadMagic
      else let n = unat (u16_at data 8)
           in if n \<noteq> num_cp then Inl (GlyphCount n)
              else case parse_glyphs data 0 10 n of
                     Inl e \<Rightarrow> Inl e
                   | Inr gs \<Rightarrow> Inr \<lparr>bf_ascent = sint (u16_at data 4), bf_descent = sint (u16_at data 6), bf_glyphs = gs\<rparr>)"

definition glyph_of :: "bitmap_font \<Rightarrow> char \<Rightarrow> glyph option" where
  "glyph_of f c =
     (let r = of_char c :: nat
      in if r < first_cp \<or> last_cp < r then None else Some (bf_glyphs f ! (r - first_cp)))"

definition line_height :: "bitmap_font \<Rightarrow> int" where
  "line_height f = bf_ascent f + bf_descent f"

definition ink_extent :: "bitmap_font \<Rightarrow> string \<Rightarrow> int \<times> int" where
  "ink_extent f s =
     (let (top, bottom) = foldl (\<lambda>(top, bottom) c. case glyph_of f c of
            None \<Rightarrow> (top, bottom)
          | Some g \<Rightarrow> if gl_h g = 0 then (top, bottom)
              else (let gt = bf_ascent f + gl_offset_y g; gb = bf_ascent f + gl_offset_y g + gl_h g
                    in (if gt < top then gt else top, if bottom < gb then gb else bottom))) (2 ^ 30, - (2 ^ 30)) s
      in if bottom < top then (0, 0) else (top, bottom))"

definition measure_text :: "bitmap_font \<Rightarrow> string \<Rightarrow> int" where
  "measure_text f s = sum_list (map (\<lambda>c. case glyph_of f c of None \<Rightarrow> 0 | Some g \<Rightarrow> gl_advance g) s)"

definition alpha_at :: "glyph \<Rightarrow> int \<Rightarrow> int \<Rightarrow> byte" where
  "alpha_at g xx yy = gl_bitmap g ! nat (yy * gl_w g + xx)"

definition draw_glyph :: "canvas \<Rightarrow> glyph \<Rightarrow> int \<Rightarrow> int \<Rightarrow> rgba \<Rightarrow> canvas" where
  "draw_glyph dst g gx gy c =
     foldl (\<lambda>d yy. foldl (\<lambda>d xx. if alpha_at g xx yy < 128 then d else set_rgba d (gx + xx) (gy + yy) c)
       d [0..gl_w g - 1]) dst [0..gl_h g - 1]"

text \<open>The loop of \<open>drawBM\<close> with its pen; the result is the image and the final pen.\<close>

fun draw_from :: "canvas \<Rightarrow> bitmap_font \<Rightarrow> int \<Rightarrow> int \<Rightarrow> string \<Rightarrow> rgba \<Rightarrow> canvas \<times> int" where
  "draw_from dst f baseline pen [] col = (dst, pen)"
| "draw_from dst f baseline pen (c # s) col =
     (case glyph_of f c of
        None \<Rightarrow> draw_from dst f baseline pen s col
      | Some g \<Rightarrow> draw_from (draw_glyph dst g (pen + gl_offset_x g) (baseline + gl_offset_y g) col) f baseline
                    (pen + gl_advance g) s col)"

definition draw_bm :: "canvas \<Rightarrow> bitmap_font \<Rightarrow> int \<Rightarrow> int \<Rightarrow> string \<Rightarrow> rgba \<Rightarrow> canvas \<times> int" where
  "draw_bm dst f x y s col = (let (dst, pen) = draw_from dst f (y + bf_ascent f) x s col in (dst, pen - x))"

definition draw_bm_tracked :: "canvas \<Rightarrow> bitmap_font \<Rightarrow> int \<Rightarrow> int \<Rightarrow> string \<Rightarrow> int \<Rightarrow> rgba \<Rightarrow> canvas \<times> int" where
  "draw_bm_tracked dst f x y s tracking col =
     (let (dst, pen) = foldl (\<lambda>(d, pen) c. let (d, adv) = draw_bm d f pen y [c] col in (d, pen + (adv + tracking))) (dst, x) s
      in (dst, pen - x))"

section \<open>Atlases\<close>

record atlas =
  at_bold :: "int \<rightharpoonup> bitmap_font"
  at_regular :: "int \<rightharpoonup> bitmap_font"

definition bold_sizes :: "int list" where "bold_sizes = [53, 45, 37, 35, 32, 27]"
definition regular_sizes :: "int list" where "regular_sizes = [24, 29, 32]"
definition shrink_ladder :: "int list" where "shrink_ladder = [53, 45, 37, 32, 27]"

lemmas size_defs = bold_sizes_def regular_sizes_def shrink_ladder_def

text \<open>The closure \<open>load\<close> of \<open>loadAtlases\<close>; \<open>None\<close> is its panic.\<close>

fun load_fonts :: "(string \<rightharpoonup> byte list) \<Rightarrow> string \<Rightarrow> int list \<Rightarrow> (int \<rightharpoonup> bitmap_font) \<Rightarrow> (int \<rightharpoonup> bitmap_font) option" where
  "load_fonts read pre [] m = Some m"
| "load_fonts read pre (sz # szs) m =
     (case read (''fonts/atlas/'' @ pre @ ''_'' @ show_int sz @ ''.fnt'') of
        None \<Rightarrow> None
      | Some data \<Rightarrow> (case parse_bitmap_font data of
           Inl _ \<Rightarrow> None
         | Inr f \<Rightarrow> load_fonts read pre szs (m(sz \<mapsto> f))))"

definition load_atlases :: "(string \<rightharpoonup> byte list) \<Rightarrow> atlas option" where
  "load_atlases read =
     (case load_fonts read ''bold'' bold_sizes Map.empty of
        None \<Rightarrow> None
      | Some b \<Rightarrow> (case load_fonts read ''regular'' regular_sizes Map.empty of
           None \<Rightarrow> None
         | Some r \<Rightarrow> Some \<lparr>at_bold = b, at_regular = r\<rparr>))"

text \<open>Every call asks for a size of the lists, which are all loaded.\<close>

definition bold :: "atlas \<Rightarrow> int \<Rightarrow> bitmap_font" where "bold a sz = the (at_bold a sz)"
definition regular :: "atlas \<Rightarrow> int \<Rightarrow> bitmap_font" where "regular a sz = the (at_regular a sz)"

definition fit_bitmap_font :: "atlas \<Rightarrow> string list \<Rightarrow> int \<Rightarrow> bitmap_font" where
  "fit_bitmap_font a lines max_w =
     (case find_first (\<lambda>sz. \<forall>l \<in> set lines. \<not> max_w < measure_text (bold a sz) l) shrink_ladder of
        Some sz \<Rightarrow> bold a sz
      | None \<Rightarrow> bold a (last shrink_ladder))"

text \<open>The loop of \<open>wrapTextBM\<close>: \<open>cur\<close> is the line that is being filled.\<close>

fun wrap_from :: "bitmap_font \<Rightarrow> int \<Rightarrow> string \<Rightarrow> string list \<Rightarrow> string list" where
  "wrap_from f max_w cur [] = [cur]"
| "wrap_from f max_w cur (w # ws) =
     (let trial = cur @ '' '' @ w
      in if measure_text f trial \<le> max_w then wrap_from f max_w trial ws else cur # wrap_from f max_w w ws)"

definition wrap_text_bm :: "bitmap_font \<Rightarrow> string \<Rightarrow> int \<Rightarrow> string list" where
  "wrap_text_bm f s max_w = (case fields_of s of [] \<Rightarrow> [] | w # ws \<Rightarrow> wrap_from f max_w w ws)"

section \<open>The two panels\<close>

definition status_panel_w :: int where "status_panel_w = 280"
definition panel_margin :: int where "panel_margin = 44"

lemmas panel_defs = status_panel_w_def panel_margin_def

text \<open>The headline's loop.\<close>

fun draw_headline :: "canvas \<Rightarrow> bitmap_font \<Rightarrow> int \<Rightarrow> int \<Rightarrow> string list \<Rightarrow> rgba \<Rightarrow> canvas" where
  "draw_headline cv f y line_h [] col = cv"
| "draw_headline cv f y line_h (l # ls) col =
     draw_headline (fst (draw_bm cv f (go_div (status_panel_w - measure_text f l) 2) y l col)) f (y + line_h) line_h ls col"

definition status_look :: "string \<Rightarrow> rgba \<times> string list" where
  "status_look st =
     (if st = ''in_meeting'' then (c_red, [''IN'', ''MEETING''])
      else if st = ''starting_soon'' then (c_yellow, [''STARTING'', ''SOON'']) else (c_green, [''AVAILABLE'']))"

definition draw_status_panel :: "atlas \<Rightarrow> int \<Rightarrow> canvas \<Rightarrow> event option \<Rightarrow> event option \<Rightarrow> time \<Rightarrow> canvas" where
  "draw_status_panel a h cv cur nxt now =
     (let (band, lines) = status_look (room_status cur nxt now);
          cv = fill_rect cv 0 0 status_panel_w h band;
          text_col = (if band = c_yellow then c_black else c_white);
          big = fit_bitmap_font a lines (status_panel_w - 2 * 24);
          line_h = line_height big - 8;
          total = line_h * int (length lines);
          y = go_div h 2 - go_div total 2;
          first_top = fst (ink_extent big (hd lines));
          last_top = y + line_h * (int (length lines) - 1);
          last_bottom = snd (ink_extent big (last lines)) + last_top;
          ink_center = go_div (y + first_top + last_bottom) 2
      in draw_headline cv big (y + (go_div h 2 - ink_center)) line_h lines text_col)"

definition day_abbrev :: "zone \<Rightarrow> time \<Rightarrow> time \<Rightarrow> string" where
  "day_abbrev z t now = (if local_day z t = local_day z now then [] else weekday_abbrev z t)"

definition meeting_title :: "event \<Rightarrow> string" where
  "meeting_title e =
     (if ev_private e then ''Private meeting'' else if ev_subject e = [] then ''Busy'' else ev_subject e)"

text \<open>The UTF-8 bytes of the ellipsis.\<close>

definition ellipsis :: string where "ellipsis = [CHR 0xE2, CHR 0x80, CHR 0xA6]"

definition truncate_text :: "string \<Rightarrow> nat \<Rightarrow> string" where
  "truncate_text s n =
     (if length s \<le> n then s else if n \<le> 1 then take n s else take (n - 1) s @ ellipsis)"

definition time_range :: "zone \<Rightarrow> event \<Rightarrow> string" where
  "time_range z e = clock12 z (ev_start e) @ '' - '' @ clock12 z (ev_end e)"

text \<open>\<open>Current\<close> and \<open>Next\<close> return pointers into the events, and the list below the divider skips one by
  its pointer: the same searches, for the index.\<close>

definition event_index :: "(event \<Rightarrow> bool) \<Rightarrow> event list \<Rightarrow> nat option" where
  "event_index P es = find_first (\<lambda>i. P (es ! i)) [0..<length es]"

definition current_index :: "schedule \<Rightarrow> time \<Rightarrow> nat option" where
  "current_index s t = event_index (\<lambda>e. \<not> t < ev_start e \<and> t < ev_end e) (sc_events s)"

definition next_index :: "schedule \<Rightarrow> time \<Rightarrow> nat option" where
  "next_index s t = event_index (\<lambda>e. \<not> ev_start e < t) (sc_events s)"

text \<open>The lines below the divider: the first two later events, other than the one shown above.\<close>

definition upcoming_line :: "zone \<Rightarrow> time \<Rightarrow> event \<Rightarrow> string" where
  "upcoming_line z now e =
     (let line = clock_face z (ev_start e) @ '' - '' @ clock12 z (ev_end e) @ ''   '' @ meeting_title e;
          day = day_abbrev z (ev_start e) now
      in truncate_text (if day \<noteq> [] then day @ '' '' @ line else line) 40)"

fun draw_upcoming :: "canvas \<Rightarrow> bitmap_font \<Rightarrow> zone \<Rightarrow> time \<Rightarrow> nat option \<Rightarrow> int \<Rightarrow> int \<Rightarrow> nat \<Rightarrow> nat \<Rightarrow> event list \<Rightarrow> canvas" where
  "draw_upcoming cv f z now skip x y shown i [] = cv"
| "draw_upcoming cv f z now skip x y shown i (e # es) =
     (if \<not> now < ev_start e \<or> skip = Some i then draw_upcoming cv f z now skip x y shown (i + 1) es
      else let cv = fst (draw_bm cv f x y (upcoming_line z now e) c_black)
           in if 2 \<le> shown + 1 then cv else draw_upcoming cv f z now skip x (y + 26) (shown + 1) (i + 1) es)"

fun draw_name :: "canvas \<Rightarrow> bitmap_font \<Rightarrow> int \<Rightarrow> int \<Rightarrow> string list \<Rightarrow> canvas \<times> int" where
  "draw_name cv f x y [] = (cv, y)"
| "draw_name cv f x y (l # ls) = draw_name (fst (draw_bm cv f x y l c_black)) f x (y + 50) ls"

definition centre_block :: "int \<Rightarrow> int \<Rightarrow> int \<Rightarrow> int" where
  "centre_block h label_bottom block_h =
     (let limit = h - 116 - 46; cy = label_bottom + go_div (limit - label_bottom - block_h) 2
      in if cy < label_bottom + 20 then label_bottom + 20 else cy)"

definition draw_info_panel :: "atlas \<Rightarrow> int \<Rightarrow> int \<Rightarrow> zone \<Rightarrow> canvas \<Rightarrow> schedule \<Rightarrow> nat option \<Rightarrow> nat option \<Rightarrow> time \<Rightarrow> canvas" where
  "draw_info_panel a w h z cv s cur nxt now =
     (let x0 = status_panel_w + panel_margin; max_w = w - x0 - panel_margin;
          (cv, y) = draw_name cv (bold a 53) x0 6 (wrap_text_bm (bold a 53) (sc_room_name s) max_w);
          y = y + 50;
          heading = (\<lambda>cv e label block_h times.
             let cv = fst (draw_bm_tracked cv (regular a 24) x0 y label 2 c_black);
                 y = centre_block h (y + 34) block_h;
                 cv = fst (draw_bm cv (bold a 35) x0 y (truncate_text (meeting_title e) 26) c_black)
             in fst (draw_bm cv (regular a 32) x0 (y + 40 + 5) times c_black));
          cv = (case (cur, nxt) of
                  (Some i, _) \<Rightarrow> (let e = sc_events s ! i in heading cv e ''CURRENT MEETING'' (40 + 34) (time_range z e))
                | (None, Some i) \<Rightarrow>
                    (let e = sc_events s ! i; day = day_abbrev z (ev_start e) now
                     in heading cv e ''NEXT MEETING'' (40 + 40) (if day \<noteq> [] then day @ ''  '' @ time_range z e else time_range z e))
                | (None, None) \<Rightarrow>
                    fst (draw_bm cv (bold a 35) x0 (centre_block h y 40) ''Free for the rest of the day'' c_black));
          skip = (if cur = None then nxt else cur);
          y = h - 100;
          cv = fst (draw_bm cv (regular a 24) x0 (y - 30) ''UPCOMING'' c_black);
          cv = fill_rect cv x0 (y - 16) max_w 2 c_black
      in draw_upcoming cv (regular a 24) z now skip x0 y 0 0 (sc_events s))"

definition draw_room :: "atlas \<Rightarrow> int \<Rightarrow> int \<Rightarrow> zone \<Rightarrow> schedule \<Rightarrow> time \<Rightarrow> canvas" where
  "draw_room a w h z s now =
     (let cv = new_rgba w h; cv = draw_uniform cv (cv_bounds cv) c_white;
          cv = draw_status_panel a h cv (current s now) (next_event s now) now
      in draw_info_panel a w h z cv s (current_index s now) (next_index s now) now)"

section \<open>Quantising\<close>

text \<open>Rounding of a rational to the nearest \<open>float64\<close>, ties to even; \<open>-1074\<close> is the last exponent.\<close>

definition ilog2 :: "rat \<Rightarrow> int" where
  "ilog2 x = (let (p, q) = quotient_of x; e = bitlen p - bitlen q in if 2 powi e \<le> x then e else e - 1)"

definition round_even :: "rat \<Rightarrow> int" where
  "round_even x =
     (let n = \<lfloor>x\<rfloor>; d = x - of_int n in if d < 1 / 2 \<or> (d = 1 / 2 \<and> even n) then n else n + 1)"

definition f64 :: "rat \<Rightarrow> rat" where
  "f64 x = (if x = 0 then 0
            else let e = max (ilog2 \<bar>x\<bar> - 52) (- 1074) in of_int (round_even (x / 2 powi e)) * 2 powi e)"

definition f64_of_byte :: "byte \<Rightarrow> rat" where "f64_of_byte b = of_int (uint b)"

definition clamp_channel :: "rat \<Rightarrow> byte" where
  "clamp_channel v = (if v < 0 then 0 else if 255 < v then 255 else of_int \<lfloor>v\<rfloor>)"

record paletted =
  pa_w :: nat
  pa_h :: nat
  pa_pix :: "byte list"

text \<open>The points of the image in the order of the loops, and the source's colours.\<close>

definition points :: "nat \<Rightarrow> nat \<Rightarrow> (nat \<times> nat) list" where
  "points w h = concat (map (\<lambda>y. map (\<lambda>x. (x, y)) [0..<w]) [0..<h])"

definition cv_width :: "canvas \<Rightarrow> nat" where "cv_width cv = nat (re_x1 (cv_bounds cv) - re_x0 (cv_bounds cv))"
definition cv_height :: "canvas \<Rightarrow> nat" where "cv_height cv = nat (re_y1 (cv_bounds cv) - re_y0 (cv_bounds cv))"

definition source_at :: "canvas \<Rightarrow> nat \<times> nat \<Rightarrow> rgba" where
  "source_at cv = (\<lambda>(x, y). cv_at cv (re_x0 (cv_bounds cv) + int x) (re_y0 (cv_bounds cv) + int y))"

definition quantize_plain :: "canvas \<Rightarrow> paletted" where
  "quantize_plain cv =
     \<lparr>pa_w = cv_width cv, pa_h = cv_height cv,
      pa_pix = map (\<lambda>p. of_nat (nearest_index (source_at cv p))) (points (cv_width cv) (cv_height cv))\<rparr>"

text \<open>Floyd-Steinberg: the buffer holds a triple of floats per point.\<close>

type_synonym float_colour = "rat \<times> rat \<times> rat"
type_synonym error_buffer = "int \<times> int \<Rightarrow> float_colour"

definition float_of_rgba :: "rgba \<Rightarrow> float_colour" where
  "float_of_rgba c = (f64_of_byte (ch_r c), f64_of_byte (ch_g c), f64_of_byte (ch_b c))"

definition add_error :: "float_colour \<Rightarrow> rat \<Rightarrow> float_colour \<Rightarrow> float_colour" where
  "add_error er f p =
     (case (er, p) of ((er, eg, eb), (r, g, b)) \<Rightarrow>
        (f64 (r + f64 (er * f)), f64 (g + f64 (eg * f)), f64 (b + f64 (eb * f))))"

definition spread :: "int \<Rightarrow> int \<Rightarrow> int \<Rightarrow> int \<Rightarrow> float_colour \<Rightarrow> int \<Rightarrow> int \<Rightarrow> rat \<Rightarrow> error_buffer \<Rightarrow> error_buffer" where
  "spread w h x y er dx dy f buf =
     (let nx = x + dx; ny = y + dy
      in if nx < 0 \<or> w \<le> nx \<or> ny < 0 \<or> h \<le> ny then buf
         else buf((nx, ny) := add_error er f (buf (nx, ny))))"

definition dither_pixel :: "int \<Rightarrow> int \<Rightarrow> error_buffer \<times> byte list \<Rightarrow> nat \<times> nat \<Rightarrow> error_buffer \<times> byte list" where
  "dither_pixel w h st p =
     (case st of (buf, pix) \<Rightarrow>
        let x = int (fst p); y = int (snd p); (r, g, b) = buf (x, y);
            idx = nearest_index \<lparr>ch_r = clamp_channel r, ch_g = clamp_channel g, ch_b = clamp_channel b\<rparr>;
            np = fst (palette ! idx);
            er = (f64 (r - f64_of_byte (ch_r np)), f64 (g - f64_of_byte (ch_g np)), f64 (b - f64_of_byte (ch_b np)));
            buf = spread w h x y er 1 0 (7 / 16) buf;
            buf = spread w h x y er (- 1) 1 (3 / 16) buf;
            buf = spread w h x y er 0 1 (5 / 16) buf;
            buf = spread w h x y er 1 1 (1 / 16) buf
        in (buf, pix @ [of_nat idx]))"

definition quantize_dithered :: "canvas \<Rightarrow> paletted" where
  "quantize_dithered cv =
     (let w = cv_width cv; h = cv_height cv; buf = (\<lambda>(x, y). float_of_rgba (source_at cv (nat x, nat y)))
      in \<lparr>pa_w = w, pa_h = h, pa_pix = snd (foldl (dither_pixel (int w) (int h)) (buf, []) (points w h))\<rparr>)"

definition quantize :: "canvas \<Rightarrow> bool \<Rightarrow> paletted" where
  "quantize cv dither = (if dither then quantize_dithered cv else quantize_plain cv)"

section \<open>Packing and the payload\<close>

text \<open>The loops of \<open>Pack\<close> over the indices of the left pixels; \<open>out\<close> is written at \<open>oi\<close>.\<close>

fun pack_pixels :: "byte list \<Rightarrow> nat list \<Rightarrow> byte list \<Rightarrow> nat \<Rightarrow> byte list option" where
  "pack_pixels pix [] out oi = Some out"
| "pack_pixels pix (p # ps) out oi =
     (if p + 1 < length pix \<and> oi < length out
      then pack_pixels pix ps (out[oi := push_bit 4 (code_for (pix ! p)) OR code_for (pix ! (p + 1))]) (oi + 1)
      else None)"

definition pack :: "paletted \<Rightarrow> byte list option" where
  "pack img =
     (let w = pa_w img; h = pa_h img
      in pack_pixels (pa_pix img) (concat (map (\<lambda>y. map (\<lambda>k. y * w + 2 * k) [0..<(w + 1) div 2]) [0..<h]))
           (replicate (w * h div 2) 0) 0)"

definition compose :: "atlas \<Rightarrow> int \<Rightarrow> int \<Rightarrow> bool \<Rightarrow> zone \<Rightarrow> schedule \<Rightarrow> time \<Rightarrow> paletted" where
  "compose a w h dither z s now = quantize (draw_room a w h z s now) dither"

definition render :: "atlas \<Rightarrow> int \<Rightarrow> int \<Rightarrow> bool \<Rightarrow> zone \<Rightarrow> schedule \<Rightarrow> time \<Rightarrow> payload option" where
  "render a w h dither z s now =
     map_option (\<lambda>packed. encode packed w h 0 True) (pack (compose a w h dither z s now))"

text \<open>The poller's renderer: \<open>render.New\<close> with the PNG encoder of the library.\<close>

definition go_renderer :: "atlas \<Rightarrow> int \<Rightarrow> int \<Rightarrow> bool \<Rightarrow> zone \<Rightarrow> (paletted \<Rightarrow> byte list option) \<Rightarrow> paletted renderer" where
  "go_renderer a w h dither z png =
     \<lparr>rn_compose = compose a w h dither z, rn_pack = (\<lambda>p. the (pack p)), rn_png = png, rn_width = w, rn_height = h\<rparr>"

section \<open>Only inks are drawn\<close>

definition inks :: "rgba set" where "inks = fst ` set palette"

definition inked :: "canvas \<Rightarrow> bool" where "inked cv \<longleftrightarrow> (\<forall>x y. cv_at cv x y \<in> inks)"

lemma ink_mem [simp]: "c_white \<in> inks" "c_black \<in> inks" "c_red \<in> inks" "c_green \<in> inks" "c_yellow \<in> inks"
  by (auto simp: inks_def palette_def colour_defs)

lemma foldl_keeps: "P a \<Longrightarrow> (\<And>a x. P a \<Longrightarrow> P (f a x)) \<Longrightarrow> P (foldl f a xs)"
  by (induction xs arbitrary: a) auto

text \<open>A property of images that survives the two operations the panels are drawn with survives the
  drawing.\<close>

locale painting =
  fixes P :: "canvas \<Rightarrow> bool"
  assumes set_pixel: "P cv \<Longrightarrow> c \<in> inks \<Longrightarrow> P (set_rgba cv x y c)"
    and uniform: "P cv \<Longrightarrow> c \<in> inks \<Longrightarrow> P (draw_uniform cv r c)"
begin

lemma fill: "P cv \<Longrightarrow> c \<in> inks \<Longrightarrow> P (fill_rect cv x y w h c)"
  by (simp add: fill_rect_def uniform)

lemma glyph: "P cv \<Longrightarrow> c \<in> inks \<Longrightarrow> P (draw_glyph cv g gx gy c)"
  unfolding draw_glyph_def by (intro foldl_keeps [where P = P]) (auto intro: set_pixel)

lemma from_pen: "P cv \<Longrightarrow> col \<in> inks \<Longrightarrow> P (fst (draw_from cv f b pen s col))"
  by (induction cv f b pen s col rule: draw_from.induct) (auto intro: glyph split: option.split)

lemma bm: "P cv \<Longrightarrow> col \<in> inks \<Longrightarrow> P (fst (draw_bm cv f x y s col))"
  using from_pen [of cv col f "y + bf_ascent f" x s] by (simp add: draw_bm_def split_def Let_def)

lemma tracked: "P cv \<Longrightarrow> col \<in> inks \<Longrightarrow> P (fst (draw_bm_tracked cv f x y s k col))"
  unfolding draw_bm_tracked_def Let_def prod.case_eq_if fst_conv
  by (intro foldl_keeps [where P = "\<lambda>st. P (fst st)"]) (auto intro: bm)

lemma headline: "P cv \<Longrightarrow> col \<in> inks \<Longrightarrow> P (draw_headline cv f y lh ls col)"
  by (induction ls arbitrary: cv y) (auto intro: bm)

lemma name_lines: "P cv \<Longrightarrow> P (fst (draw_name cv f x y ls))"
  by (induction ls arbitrary: cv y) (simp_all add: bm)

lemma upcoming: "P cv \<Longrightarrow> P (draw_upcoming cv f z now skip x y n i es)"
  by (induction es arbitrary: cv y n i) (simp_all add: Let_def bm)

lemma status_panel: "P cv \<Longrightarrow> P (draw_status_panel a h cv cur nxt now)"
  by (auto simp: draw_status_panel_def status_look_def Let_def simp del: draw_headline.simps intro!: headline fill)

lemma info_panel: "P cv \<Longrightarrow> P (draw_info_panel a w h z cv s cur nxt now)"
  using name_lines [of cv "bold a 53" "status_panel_w + panel_margin" 6]
  by (auto simp: draw_info_panel_def Let_def split_def split: option.split intro!: upcoming fill bm tracked)

lemma room: "P (new_rgba w h) \<Longrightarrow> P (draw_room a w h z s now)"
  by (auto simp: draw_room_def Let_def intro!: info_panel status_panel uniform)

end

interpretation inked: painting inked
  by unfold_locales (simp_all add: inked_def set_rgba_def draw_uniform_def)

interpretation sized: painting "\<lambda>cv. cv_bounds cv = b" for b
  by unfold_locales (simp_all add: set_rgba_def draw_uniform_def)

lemma inked_room: "inked (draw_room a w h z s now)"
  by (rule inked.room) (simp add: inked_def new_rgba_def)

lemma room_bounds: "cv_bounds (draw_room a w h z s now) = image_rect 0 0 w h"
  by (rule sized.room) (simp add: new_rgba_def)

section \<open>Dithering leaves a frame alone\<close>

lemma round_even_int [simp]: "round_even (of_int n) = n"
  by (simp add: round_even_def)

lemma ilog2_int: "0 < n \<Longrightarrow> n < 256 \<Longrightarrow> ilog2 (of_int n) \<le> 8"
proof -
  assume "0 < n" "n < 256"
  then have "bitlen n \<le> 8" by (simp add: bitlen_le_iff_power)
  moreover have "bitlen 1 = 1" using bitlen_ge_iff_power [of 1 1] bitlen_le_iff_power [of 1 1] by simp
  ultimately show ?thesis by (simp add: ilog2_def Let_def)
qed

lemma f64_byte [simp]: "f64 (f64_of_byte b) = f64_of_byte b"
proof (cases "b = 0")
  case False
  define n where "n = uint b"
  have n: "0 < n" "n < 256" using False uint_lt2p [of b] uint_ge_0 [of b] unfolding n_def by (auto simp: le_less uint_0_iff)
  let ?e = "max (ilog2 (of_int n) - 52) (- 1074)"
  have e: "?e \<le> 0" using ilog2_int [OF n] by simp
  define k where "k = nat (- ?e)"
  have pow: "(2 :: rat) powi ?e = 1 / 2 ^ k" using e by (simp add: k_def power_int_def field_simps)
  have "of_int n / (1 / 2 ^ k) = (of_int (n * 2 ^ k) :: rat)" by simp
  then have "round_even (of_int n / 2 powi ?e) = n * 2 ^ k" unfolding pow by (metis round_even_int)
  then show ?thesis using n by (simp add: f64_def f64_of_byte_def Let_def pow flip: n_def)
qed (simp add: f64_def f64_of_byte_def)

lemma f64_zero [simp]: "f64 0 = 0" by (simp add: f64_def)

lemma clamp_int:
  assumes "0 \<le> n" "n \<le> 255"
  shows "clamp_channel (of_int n) = of_int n"
proof -
  have "(of_int n :: rat) \<le> of_int 255" using assms(2) by (simp only: of_int_le_iff)
  then show ?thesis using assms(1) by (simp add: clamp_channel_def)
qed

lemma clamp_byte [simp]: "clamp_channel (f64_of_byte b) = b"
  unfolding f64_of_byte_def by (rule trans, rule clamp_int) (use uint_lt2p [of b] in simp_all)

lemma nearest_ink:
  assumes "c \<in> inks"
  shows "fst (palette ! nearest_index c) = c" "nearest_index c < 6"
proof -
  have "list_all (\<lambda>c. fst (palette ! nearest_index c) = c \<and> nearest_index c < 6) (map fst palette)"
    by code_simp
  then show "fst (palette ! nearest_index c) = c" "nearest_index c < 6"
    using assms by (auto simp: list_all_iff inks_def)
qed

lemma spread_none: "spread w h x y (0, 0, 0) dx dy f buf = buf" if "\<And>p. add_error (0, 0, 0) f (buf p) = buf p"
  using that by (simp add: spread_def Let_def fun_upd_idem)

lemma dither_ink:
  assumes "buf = (\<lambda>(x, y). float_of_rgba (c (nat x, nat y)))" "\<And>p. c p \<in> inks"
  shows "dither_pixel w h (buf, pix) p = (buf, pix @ [of_nat (nearest_index (c p))])"
proof -
  have none: "add_error (0, 0, 0) f (buf p) = buf p" for f p
    by (cases p) (simp add: assms(1) add_error_def float_of_rgba_def)
  obtain r g b where q: "c p = \<lparr>ch_r = r, ch_g = g, ch_b = b\<rparr>" by (cases "c p")
  have "buf (int (fst p), int (snd p)) = float_of_rgba (c p)" by (simp add: assms(1))
  then show ?thesis
    using nearest_ink(1) [OF assms(2), of p]
    by (simp add: dither_pixel_def float_of_rgba_def Let_def spread_none [OF none] q)
qed

lemma dither_inked: "inked cv \<Longrightarrow> quantize_dithered cv = quantize_plain cv"
proof -
  assume "inked cv"
  then have c: "source_at cv p \<in> inks" for p by (simp add: inked_def source_at_def split_def)
  define buf where "buf = (\<lambda>(x, y). float_of_rgba (source_at cv (nat x, nat y)))"
  have "foldl (dither_pixel w h) (buf, pix) ps = (buf, pix @ map (\<lambda>p. of_nat (nearest_index (source_at cv p))) ps)" for w h pix ps
    by (induction ps arbitrary: pix) (simp_all add: dither_ink [OF buf_def c])
  then show ?thesis by (simp add: quantize_dithered_def quantize_plain_def Let_def flip: buf_def)
qed

section \<open>Packed frames\<close>

text \<open>How the panel reads a pixel: two to a byte, the left one in the high half.\<close>

definition pixel_code :: "byte list \<Rightarrow> nat \<Rightarrow> byte" where
  "pixel_code bs i = (if even i then drop_bit 4 (bs ! (i div 2)) else bs ! (i div 2) AND 0xF)"

lemma pack_pixels_None:
  "oi \<le> length out \<Longrightarrow> length out < oi + length ps \<Longrightarrow> pack_pixels pix ps out oi = None"
  by (induction pix ps out oi rule: pack_pixels.induct) auto

lemma pack_pixels_Some:
  "(\<forall>p \<in> set ps. p + 1 < length pix) \<Longrightarrow> oi + length ps = length out \<Longrightarrow>
    pack_pixels pix ps out oi
      = Some (take oi out @ map (\<lambda>p. push_bit 4 (code_for (pix ! p)) OR code_for (pix ! (p + 1))) ps)"
  by (induction pix ps out oi rule: pack_pixels.induct) (auto simp: take_Suc_conv_app_nth take_update_swap list_update_append)

lemma code_cases: "code_for i \<in> set [0x0, 0x1, 0x2, 0x3, 0x5, 0x6]"
proof (cases "unat i < length palette")
  case True
  have "set (map snd palette) \<subseteq> set [0x0, 0x1, 0x2, 0x3, 0x5, 0x6]" by (simp add: palette_def code_defs)
  moreover have "snd (palette ! unat i) \<in> set (map snd palette)" using True by simp
  ultimately have "snd (palette ! unat i) \<in> set [0x0, 0x1, 0x2, 0x3, 0x5, 0x6]" by (rule subsetD)
  then show ?thesis using True by (simp only: code_for_def if_True)
qed (simp add: code_for_def code_defs)

lemma halves:
  "drop_bit 4 (push_bit 4 (code_for i) OR code_for j) = code_for i"
  "(push_bit 4 (code_for i) OR code_for j) AND 0xF = code_for j"
  using code_cases [of i] code_cases [of j] by auto

lemma even_positions:
  "concat (map (\<lambda>y. map (\<lambda>j. y * (2 * k) + 2 * j) [0..<k]) [0..<h]) = map ((*) 2) [0..<h * k]"
proof (induction h)
  case (Suc h)
  have "[0..<Suc h * k] = [0..<h * k] @ map (\<lambda>j. h * k + j) [0..<k]"
    using upt_add_eq_append [of 0 "h * k" k] map_add_upt [of "h * k" k] by (simp add: add.commute)
  then show ?case using Suc by (simp add: algebra_simps)
qed simp

lemma length_points [simp]: "length (points w h) = w * h"
  by (induction h) (simp_all add: points_def)

lemma points_nth: "x < w \<Longrightarrow> y < h \<Longrightarrow> points w h ! (y * w + x) = (x, y)"
proof (induction h)
  case (Suc h)
  have app: "points w (Suc h) = points w h @ map (\<lambda>x. (x, h)) [0..<w]" by (simp add: points_def)
  show ?case
  proof (cases "y = h")
    case True
    then show ?thesis using Suc.prems by (simp add: app nth_append mult.commute)
  next
    case False
    then have y: "y < h" using Suc.prems by simp
    then have "y * w + x < h * w" using Suc.prems(1)
      by (metis add_less_cancel_left less_le_trans mult_Suc mult_le_mono1 Suc_leI add.commute)
    then show ?thesis using Suc y by (simp add: app nth_append mult.commute)
  qed
qed simp

lemma pack_even:
  assumes "pa_w img = 2 * k" "length (pa_pix img) = pa_w img * pa_h img"
  shows "\<exists>bs. pack img = Some bs \<and> length bs = pa_w img * pa_h img div 2
    \<and> (\<forall>i < pa_w img * pa_h img. pixel_code bs i = code_for (pa_pix img ! i))"
proof -
  let ?h = "pa_h img" and ?v = "\<lambda>p. push_bit 4 (code_for (pa_pix img ! p)) OR code_for (pa_pix img ! (p + 1))"
  have len: "2 * k * ?h div 2 = ?h * k" by simp
  have "pack img = Some (map ?v (map ((*) 2) [0..<?h * k]))"
  proof -
    have "\<forall>p \<in> set (map ((*) 2) [0..<?h * k]). p + 1 < length (pa_pix img)" using assms by (auto simp: algebra_simps)
    then have "pack_pixels (pa_pix img) (map ((*) 2) [0..<?h * k]) (replicate (?h * k) 0) 0
        = Some (map ?v (map ((*) 2) [0..<?h * k]))"
      by (subst pack_pixels_Some) simp_all
    then show ?thesis using assms(1) by (simp add: pack_def Let_def even_positions len del: map_map)
  qed
  moreover have "pixel_code (map ?v (map ((*) 2) [0..<?h * k])) i = code_for (pa_pix img ! i)"
    if "i < 2 * (?h * k)" for i
    using that by (auto simp: pixel_code_def halves simp del: drop_bit_or elim!: evenE oddE)
  moreover have w: "pa_w img * ?h = 2 * (?h * k)" using assms(1) by simp
  ultimately show ?thesis unfolding w by (intro exI [of _ "map ?v (map ((*) 2) [0..<?h * k])"] conjI allI impI) simp_all
qed

lemma pack_odd:
  assumes "odd (pa_w img)" "0 < pa_h img"
  shows "pack img = None"
proof -
  let ?w = "pa_w img" and ?h = "pa_h img"
  obtain b where b: "?w = 2 * b + 1" using assms(1) by (rule oddE)
  have "?w * ?h div 2 < ?h * ((?w + 1) div 2)"
    by (rule less_mult_imp_div_less) (use assms(2) b in \<open>simp add: algebra_simps\<close>)
  then show ?thesis
    by (simp add: pack_def Let_def) (rule pack_pixels_None; simp add: length_concat comp_def sum_list_triv)
qed

lemma quantize_room: "quantize (draw_room a w h z s now) d = quantize_plain (draw_room a w h z s now)"
  by (simp add: quantize_def dither_inked [OF inked_room])

text \<open>C32. Whatever is drawn, the error diffusion never moves a pixel: the frame of a room is the same with and
  without the dithering option, because every panel, rule and glyph is drawn in exact inks.\<close>

theorem dithering_changes_nothing:
  "render a w h True z s now = render a w h False z s now"
  unfolding render_def compose_def quantize_room by (rule refl)

text \<open>The frame of a room, quantised, packed and read back.\<close>

lemma code_of_ink:
  assumes "c \<in> inks"
  shows "map_of palette c = Some (code_for (of_nat (nearest_index c)))"
proof -
  have "list_all (\<lambda>c. map_of palette c = Some (code_for (of_nat (nearest_index c)))) (map fst palette)"
    by code_simp
  then show ?thesis using assms by (auto simp: list_all_iff inks_def)
qed

lemma room_frame:
  assumes "0 \<le> w" "0 \<le> h"
  shows "compose a w h d z s now
    = \<lparr>pa_w = nat w, pa_h = nat h, pa_pix = map (\<lambda>(x, y). of_nat (nearest_index (cv_at (draw_room a w h z s now) (int x) (int y))))
        (points (nat w) (nat h))\<rparr>"
  using assms by (simp add: compose_def quantize_room quantize_plain_def cv_width_def cv_height_def source_at_def
      room_bounds image_rect_def split_def)

text \<open>C31. A frame of even width packs into half a byte per pixel, and the half byte that the panel reads for a
  pixel is the controller code of the ink that was drawn there.\<close>

theorem frame_shows_drawing:
  assumes "0 \<le> w" "0 \<le> h" "even w"
  shows "\<exists>bs. pack (compose a w h dither z s now) = Some bs \<and> length bs = nat w * nat h div 2
    \<and> (\<forall>x < nat w. \<forall>y < nat h. map_of palette (cv_at (draw_room a w h z s now) (int x) (int y))
          = Some (pixel_code bs (y * nat w + x)))"
proof -
  let ?img = "compose a w h dither z s now" and ?at = "\<lambda>x y. cv_at (draw_room a w h z s now) (int x) (int y)"
  obtain k where "nat w = 2 * k" using assms(1,3) by (metis dvdE even_nat_iff)
  then obtain bs where bs: "pack ?img = Some bs" "length bs = nat w * nat h div 2"
      "\<And>i. i < nat w * nat h \<Longrightarrow> pixel_code bs i = code_for (pa_pix ?img ! i)"
    using pack_even [of ?img k] by (auto simp: room_frame [OF assms(1,2)])
  have "map_of palette (?at x y) = Some (pixel_code bs (y * nat w + x))" if "x < nat w" "y < nat h" for x y
  proof -
    have "y * nat w + x < nat w * nat h"
      using that mult_le_mono1 [of "Suc y" "nat h" "nat w"] by (simp add: mult.commute)
    then show ?thesis
      using that bs(3) points_nth [OF that] inked_room [of a w h z s now]
      by (simp add: room_frame [OF assms(1,2)] code_of_ink inked_def)
  qed
  with bs show ?thesis by blast
qed

definition sample_font :: bitmap_font where
  "sample_font = \<lparr>bf_ascent = 1, bf_descent = 0,
     bf_glyphs = replicate 95 \<lparr>gl_w = 1, gl_h = 1, gl_offset_x = 0, gl_offset_y = 0, gl_advance = 1, gl_bitmap = [255]\<rparr>\<rparr>"

definition sample_atlas :: atlas where
  "sample_atlas = \<lparr>at_bold = (\<lambda>sz. Some sample_font), at_regular = (\<lambda>sz. Some sample_font)\<rparr>"

definition sample_plan :: schedule where
  "sample_plan = \<lparr>sc_room_name = ''Room A'', sc_events =
     [\<lparr>ev_subject = ''Standup'', ev_organizer = [], ev_start = 7200 * second, ev_end = 9000 * second, ev_private = False\<rparr>,
      \<lparr>ev_subject = ''Review'', ev_organizer = [], ev_start = 9000 * second, ev_end = 10800 * second, ev_private = True\<rparr>],
      sc_fetched_at = 0\<rparr>"

theorem frame_shows_drawing_witness:
  "\<exists>bs. pack (compose sample_atlas 4 2 True (\<lambda>t. 0) sample_plan 0) = Some bs \<and> length bs = 4"
  using frame_shows_drawing [of 4 2 sample_atlas True "\<lambda>t. 0" sample_plan 0] by auto

text \<open>With an odd width a frame cannot be packed: the loop reads and writes out of range, which ends the
  poller and with it the broker.\<close>

lemma odd_width_panics:
  assumes "0 < w" "0 < h" "odd w"
  shows "render a w h dither z s now = None"
proof -
  have "odd (nat w)" using assms(1,3) by (simp add: even_nat_iff)
  then have "pack (compose a w h dither z s now) = None"
    using assms(1,2) by (intro pack_odd) (simp_all add: room_frame)
  then show ?thesis by (simp add: render_def)
qed

section \<open>When a frame can change\<close>

lemma find_first_cong: "(\<And>x. x \<in> set xs \<Longrightarrow> P x = Q x) \<Longrightarrow> find_first P xs = find_first Q xs"
  by (induction xs) auto

lemma event_index_cong: "(\<And>e. e \<in> set es \<Longrightarrow> P e = Q e) \<Longrightarrow> event_index P es = event_index Q es"
  unfolding event_index_def by (rule find_first_cong) simp

lemma draw_upcoming_cong:
  "(\<And>e. e \<in> set es \<Longrightarrow> now < ev_start e \<longleftrightarrow> t < ev_start e) \<Longrightarrow> upcoming_line z now = upcoming_line z t \<Longrightarrow>
    draw_upcoming cv f z now skip x y n i es = draw_upcoming cv f z t skip x y n i es"
  by (induction es arbitrary: cv y n i) (simp_all add: Let_def)

text \<open>No boundary of the schedule falls between two instants.\<close>

definition no_boundary :: "schedule \<Rightarrow> time \<Rightarrow> time \<Rightarrow> bool" where
  "no_boundary s now t \<longleftrightarrow> (\<forall>e \<in> set (sc_events s).
     \<forall>b \<in> {ev_start e, ev_end e, ev_start e - starting_soon_window}. b < now \<or> t < b)"

lemma no_boundary_same:
  assumes "no_boundary s now t" "now \<le> t"
  shows "current_index s t = current_index s now" "next_index s t = next_index s now"
    "current s t = current s now" "next_event s t = next_event s now"
    "room_status (current s t) (next_event s t) t = room_status (current s now) (next_event s now) now"
    "\<And>e. e \<in> set (sc_events s) \<Longrightarrow> now < ev_start e \<longleftrightarrow> t < ev_start e"
proof -
  have b: "ev_start e < now \<or> t < ev_start e" "ev_end e < now \<or> t < ev_end e"
    "ev_start e - starting_soon_window < now \<or> t < ev_start e - starting_soon_window" if "e \<in> set (sc_events s)" for e
    using assms(1) that by (auto simp: no_boundary_def)
  then have e: "now < ev_start e \<longleftrightarrow> t < ev_start e" "ev_start e < now \<longleftrightarrow> ev_start e < t"
    "now < ev_end e \<longleftrightarrow> t < ev_end e" "ev_start e - starting_soon_window \<le> now \<longleftrightarrow> ev_start e - starting_soon_window \<le> t"
    if "e \<in> set (sc_events s)" for e
    using assms(2) b [OF that] by linarith+
  show "current_index s t = current_index s now" "next_index s t = next_index s now"
    unfolding current_index_def next_index_def by (rule event_index_cong; simp add: e)+
  show cur: "current s t = current s now" and nxt: "next_event s t = next_event s now"
    unfolding current_def next_event_def by (rule find_first_cong; simp add: e)+
  show "room_status (current s t) (next_event s t) t = room_status (current s now) (next_event s now) now"
  proof (cases "current s now")
    case None
    have st: "room_status None (Some n) t
        = (if ev_start n - starting_soon_window \<le> t then ''starting_soon'' else ''available'')" for n t
      using room_status_soon [of n t] by auto
    show ?thesis
    proof (cases "next_event s now")
      case (Some n)
      then show ?thesis using e(4) [OF conjunct1 [OF next_event_SomeD [OF Some]]] by (simp add: cur nxt None st)
    qed (simp add: cur nxt None room_status_def)
  qed (simp add: cur room_status_def)
  show "now < ev_start e \<longleftrightarrow> t < ev_start e" if "e \<in> set (sc_events s)" for e by (rule e(1) [OF that])
qed

lemma draw_room_same:
  assumes "no_boundary s now t" "now \<le> t" "local_day z now = local_day z t"
  shows "draw_room a w h z s t = draw_room a w h z s now"
proof -
  note same = no_boundary_same [OF assms(1,2)]
  have up: "draw_upcoming cv f z t skip x y n i (sc_events s) = draw_upcoming cv f z now skip x y n i (sc_events s)" for cv f skip x y n i
    by (rule draw_upcoming_cong) (simp_all add: same(6) assms(3) upcoming_line_def day_abbrev_def fun_eq_iff)
  have panel: "draw_status_panel a h cv (current s t) (next_event s t) t
      = draw_status_panel a h cv (current s now) (next_event s now) now" for cv
    by (simp only: draw_status_panel_def same(5))
  have day: "day_abbrev z x t = day_abbrev z x now" for x by (simp add: day_abbrev_def assms(3))
  show ?thesis
    unfolding draw_room_def Let_def panel same(1,2) draw_info_panel_def up day by (rule refl)
qed

text \<open>C33. A frame, and with it the entity tag that devices compare, stays the same until a meeting starts or ends,
  comes within ten minutes, or the local day changes.\<close>

theorem frame_stable:
  assumes "no_boundary s now t" "now \<le> t" "local_day z now = local_day z t"
  shows "ce_etag (compose_entry (go_renderer a w h dither z png) s name t)
        = ce_etag (compose_entry (go_renderer a w h dither z png) s name now)
      \<and> render a w h dither z s t = render a w h dither z s now"
proof -
  have "no_boundary (s\<lparr>sc_room_name := name\<rparr>) now t" using assms(1) by (simp add: no_boundary_def)
  then show ?thesis
    using assms by (simp add: compose_entry_def go_renderer_def render_def compose_def draw_room_same Let_def)
qed

theorem frame_stable_witness:
  "render sample_atlas 800 480 True (\<lambda>t. 0) sample_plan (6000 * second) = render sample_atlas 800 480 True (\<lambda>t. 0) sample_plan 0"
  using frame_stable [of sample_plan 0 "6000 * second" "\<lambda>t. 0"]
  by (simp add: no_boundary_def sample_plan_def window_defs local_day_def local_secs_def unix_def)

section \<open>Text\<close>

text \<open>The atlas that was parsed covers every pixel of its glyphs.\<close>

lemma parse_glyphs_sizes:
  "parse_glyphs data i off k = Inr gs \<Longrightarrow> length gs = k
    \<and> (\<forall>g \<in> set gs. 0 \<le> gl_w g \<and> 0 \<le> gl_h g \<and> length (gl_bitmap g) = nat (gl_w g * gl_h g))"
proof (induction data i off k arbitrary: gs rule: parse_glyphs.induct)
  case (2 data i off k)
  then show ?case by (auto simp: Let_def nat_mult_distrib split: if_splits sum.splits)
qed simp

lemma alpha_in_range:
  assumes "parse_bitmap_font data = Inr f" "glyph_of f c = Some g" "0 \<le> xx" "xx < gl_w g" "0 \<le> yy" "yy < gl_h g"
  shows "nat (yy * gl_w g + xx) < length (gl_bitmap g)"
proof -
  have "length (bf_glyphs f) = num_cp" "\<forall>g \<in> set (bf_glyphs f). length (gl_bitmap g) = nat (gl_w g * gl_h g)"
    using assms(1) parse_glyphs_sizes by (fastforce simp: parse_bitmap_font_def Let_def split: if_splits sum.splits)+
  then have "length (gl_bitmap g) = nat (gl_w g * gl_h g)"
    using assms(2) by (auto simp: glyph_of_def Let_def cp_defs split: if_splits)
  moreover have "yy * gl_w g + xx < gl_w g * gl_h g"
    using assms(3-6) mult_right_mono [of "yy + 1" "gl_h g" "gl_w g"] by (simp add: algebra_simps)
  ultimately show ?thesis using assms(3-6) by simp
qed

lemma load_fonts_sizes:
  "load_fonts read pre szs m = Some m' \<Longrightarrow> dom m' = dom m \<union> set szs"
  by (induction szs arbitrary: m) (fastforce split: option.splits sum.splits)+

lemma atlas_complete:
  assumes "load_atlases read = Some a"
  shows "dom (at_bold a) = set bold_sizes" "dom (at_regular a) = set regular_sizes" "set shrink_ladder \<subseteq> set bold_sizes"
  using assms load_fonts_sizes [of read] by (fastforce simp: load_atlases_def split: option.splits)+ (simp add: size_defs)

text \<open>The wrapped lines are the words in order, and each fits unless it is a single word.\<close>

fun join_words :: "string list \<Rightarrow> string" where
  "join_words [] = []"
| "join_words [w] = w"
| "join_words (w # ws) = w @ '' '' @ join_words ws"

lemma join_wrap: "join_words (wrap_from f m cur ws) = join_words (cur # ws)"
proof (induction ws arbitrary: cur)
  case (Cons w ws)
  have ne: "wrap_from f m w ws \<noteq> []" for w by (induction ws arbitrary: w) (simp_all add: Let_def)
  show ?case
  proof (cases "measure_text f (cur @ '' '' @ w) \<le> m")
    case True
    have "join_words ((cur @ '' '' @ w) # ws) = join_words (cur # w # ws)" by (cases ws) simp_all
    then show ?thesis using True Cons by simp
  next
    case False
    then show ?thesis using Cons.IH [of w] ne [of w] by (cases "wrap_from f m w ws") (simp_all add: Let_def)
  qed
qed simp

lemma wrap_text_correct:
  "join_words (wrap_text_bm f s m) = join_words (fields_of s)"
  "l \<in> set (wrap_text_bm f s m) \<Longrightarrow> measure_text f l \<le> m \<or> l \<in> set (fields_of s)"
proof -
  have fits: "l \<in> set (wrap_from f m cur ws) \<Longrightarrow> measure_text f l \<le> m \<or> l = cur \<or> l \<in> set ws" for cur ws
    by (induction ws arbitrary: cur) (auto simp: Let_def split: if_splits)
  show "join_words (wrap_text_bm f s m) = join_words (fields_of s)"
    by (simp add: wrap_text_bm_def join_wrap split: list.split)
  show "l \<in> set (wrap_text_bm f s m) \<Longrightarrow> measure_text f l \<le> m \<or> l \<in> set (fields_of s)"
    by (cases "fields_of s") (auto simp: wrap_text_bm_def dest!: fits)
qed

lemma draw_from_append:
  "draw_from cv f b pen (s @ t) col = (let (cv, pen) = draw_from cv f b pen s col in draw_from cv f b pen t col)"
  by (induction cv f b pen s col rule: draw_from.induct) (simp_all split: option.split)

text \<open>A title that is too long is cut without any mark: the ellipsis that is appended has no glyph, so what is
  drawn is the shortened title alone.\<close>

lemma truncated_title_unmarked:
  assumes "1 < n" "n < length s"
  shows "draw_bm cv f x y (truncate_text s n) col = draw_bm cv f x y (take (n - 1) s) col"
proof -
  have "glyph_of f c = None" if "c \<in> set ellipsis" for c
    using that by (auto simp: ellipsis_def glyph_of_def cp_defs)
  then have "draw_from cv f b pen ellipsis col = (cv, pen)" for cv b pen
    by (simp add: ellipsis_def)
  then show ?thesis using assms by (simp add: truncate_text_def draw_bm_def draw_from_append split_def Let_def)
qed

end
