(* ===== verification/Preview.thy ===== *)
theory Preview
  imports Render Google
begin

text \<open>
  The two tools that draw without a broker: \<open>cmd/preview/main.go\<close>, which writes one image per state of a
  panel, and \<open>cmd/benchframe/main.go\<close>, which writes one wire frame for the bench. The zone database, the PNG
  encoder and the file system are parameters; the exit status is a number, and a panic is \<open>None\<close>. The
  lemmas evaluate the model on the schedules that the tools draw, where the source says what to see.
\<close>

section \<open>Wall-clock times of the fixed day\<close>

text \<open>\<open>t.AddDate(0, 0, n)\<close>.\<close>

definition add_days :: "zone \<Rightarrow> int \<Rightarrow> time \<Rightarrow> time" where
  "add_days z n t = time_of_local z (local_secs z t + n * 86400) + t mod second"

definition on_the_day :: "zone \<Rightarrow> int \<Rightarrow> int \<Rightarrow> int \<Rightarrow> time" where
  "on_the_day z h m day_offset =
     add_days z day_offset (time_of_local z (day_of_date 2026 6 25 * 86400 + h * 3600 + m * 60))"

definition booking :: "string \<Rightarrow> time \<Rightarrow> time \<Rightarrow> bool \<Rightarrow> event" where
  "booking subj s e private =
     \<lparr>ev_subject = subj, ev_organizer = [], ev_start = s, ev_end = e, ev_private = private\<rparr>"

section \<open>The scenarios\<close>

record scenario =
  pv_file :: string
  pv_now :: time
  pv_sched :: schedule

definition scenario_at :: "string \<Rightarrow> string \<Rightarrow> time \<Rightarrow> event list \<Rightarrow> scenario" where
  "scenario_at name room now evs =
     \<lparr>pv_file = name, pv_now = now, pv_sched = \<lparr>sc_room_name = room, sc_events = evs, sc_fetched_at = now\<rparr>\<rparr>"

definition one_to_one :: string where "one_to_one = ''1:1 '' @ em_dash @ '' Priya / Sam''"

definition scenarios :: "zone \<Rightarrow> scenario list" where
  "scenarios z =
     (let tm = on_the_day z
      in [scenario_at ''preview-available.png'' ''Aspen'' (tm 10 0 0)
            [booking ''Design review'' (tm 12 0 0) (tm 13 0 0) False,
             booking one_to_one (tm 14 0 0) (tm 14 30 0) True],
          scenario_at ''preview-inuse.png'' ''Birch'' (tm 10 0 0)
            [booking ''Quarterly planning'' (tm 9 0 0) (tm 11 0 0) False,
             booking ''Vendor demo'' (tm 11 0 0) (tm 11 30 0) False,
             booking ''Eng sync'' (tm 13 0 0) (tm 14 0 0) False],
          scenario_at ''preview-soon.png'' ''Cedar'' (tm 9 50 0)
            [booking ''Standup'' (tm 10 0 0) (tm 10 30 0) False,
             booking ''Customer call'' (tm 11 0 0) (tm 12 0 0) False],
          scenario_at ''preview-nextday.png'' ''Dogwood'' (tm 18 0 0)
            [booking ''Team offsite prep'' (tm 7 0 1) (tm 8 0 1) False],
          scenario_at ''preview-backtoback.png'' ''Elm'' (tm 9 59 0)
            [booking ''Sprint retro'' (tm 9 0 0) (tm 10 0 0) False,
             booking ''Roadmap sync'' (tm 10 0 0) (tm 10 45 0) False]])"

text \<open>\<open>enc\<close> is what the PNG encoder puts into the file, and whether it finished.\<close>

fun write_previews ::
  "(paletted \<Rightarrow> byte list \<times> bool) \<Rightarrow> (string \<Rightarrow> bool) \<Rightarrow> (scenario \<Rightarrow> paletted) \<Rightarrow> scenario list
     \<Rightarrow> (string \<rightharpoonup> byte list) \<Rightarrow> nat \<times> (string \<rightharpoonup> byte list)" where
  "write_previews enc can_create draw [] files = (0, files)"
| "write_previews enc can_create draw (sc # scs) files =
     (if can_create (pv_file sc)
      then (case enc (draw sc) of (bs, ok) \<Rightarrow>
              if ok then write_previews enc can_create draw scs (files(pv_file sc \<mapsto> bs))
              else (1, files(pv_file sc \<mapsto> bs)))
      else (1, files))"

text \<open>\<open>time.Date\<close> panics without a location.\<close>

definition preview_main ::
  "go_env \<Rightarrow> atlas \<Rightarrow> (paletted \<Rightarrow> byte list \<times> bool) \<Rightarrow> (string \<Rightarrow> bool) \<Rightarrow> bool
     \<Rightarrow> (string \<rightharpoonup> byte list) \<Rightarrow> (nat \<times> (string \<rightharpoonup> byte list)) option" where
  "preview_main e a enc can_create dither files =
     (case env_zone e ''America/New_York'' of
        None \<Rightarrow> None
      | Some z \<Rightarrow> Some (write_previews enc can_create
                          (\<lambda>sc. compose a 800 480 dither z (pv_sched sc) (pv_now sc)) (scenarios z) files))"

section \<open>The bench frame\<close>

definition bench_now :: "zone \<Rightarrow> time" where
  "bench_now z = time_of_local z (day_of_date 2026 6 25 * 86400 + 10 * 3600)"

definition bench_sched :: "time \<Rightarrow> schedule" where
  "bench_sched now =
     \<lparr>sc_room_name = ''Aspen'',
      sc_events = [booking ''Design review'' (now + 2 * hour) (now + 3 * hour) False,
                   booking one_to_one (now + 4 * hour) (now + (4 * hour + 30 * minute)) True],
      sc_fetched_at = now\<rparr>"

definition bench_main ::
  "go_env \<Rightarrow> atlas \<Rightarrow> (string \<Rightarrow> byte list \<Rightarrow> (string \<rightharpoonup> byte list) \<Rightarrow> bool \<times> (string \<rightharpoonup> byte list))
     \<Rightarrow> string \<Rightarrow> bool \<Rightarrow> (string \<rightharpoonup> byte list) \<Rightarrow> (nat \<times> (string \<rightharpoonup> byte list)) option" where
  "bench_main e a write_file out dither files =
     (case env_zone e ''America/New_York'' of
        None \<Rightarrow> None
      | Some z \<Rightarrow>
          (case render a 800 480 dither z (bench_sched (bench_now z)) (bench_now z) of
             None \<Rightarrow> None
           | Some p \<Rightarrow> (case write_file out (pl_bytes p) files of (ok, files') \<Rightarrow> Some (if ok then 0 else 1, files'))))"

section \<open>What the tools show\<close>

text \<open>New York keeps summer time throughout those days.\<close>

definition new_york_summer :: zone where "new_york_summer t = - (4 * 3600)"

lemma on_the_day_new_york:
  "on_the_day new_york_summer h m d = (1782345600 + d * 86400 + (h + 4) * 3600 + m * 60) * second"
  by (simp add: on_the_day_def add_days_def new_york_summer_def day_of_date_def year_start_def
      month_lengths_def is_leap_def time_defs algebra_simps)

definition shown_status :: "scenario \<Rightarrow> string" where
  "shown_status sc =
     room_status (current (pv_sched sc) (pv_now sc)) (next_event (pv_sched sc) (pv_now sc)) (pv_now sc)"

lemmas scenario_eval = scenarios_def scenario_at_def booking_def on_the_day_new_york Let_def

text \<open>Each image shows the state that its file is named after.\<close>

lemma preview_statuses:
  "map (\<lambda>sc. (pv_file sc, shown_status sc)) (scenarios new_york_summer) =
     [(''preview-available.png'', ''available''), (''preview-inuse.png'', ''in_meeting''),
      (''preview-soon.png'', ''starting_soon''), (''preview-nextday.png'', ''available''),
      (''preview-backtoback.png'', ''in_meeting'')]"
  by (simp add: scenario_eval shown_status_def room_status_def current_def next_event_def window_defs
      time_sub_def max_duration_def min_duration_def)

text \<open>What the source's comments ask of two of them: the meeting of the next morning is announced with its
  day, and the meeting that follows at once is recognised as back to back.\<close>

lemma preview_next_day:
  "let sc = scenarios new_york_summer ! 3 in
     map (upcoming_line new_york_summer (pv_now sc)) (sc_events (pv_sched sc)) = [''FRI 7:00 - 8:00 AM   Team offsite prep'']"
  by (simp add: scenario_eval upcoming_line_def day_abbrev_def weekday_abbrev_def weekday_names_def new_york_summer_def
      clock_face_def clock12_def two_digits_def show_int_def show_nat.simps truncate_text_def meeting_title_def time_defs
      char_of_def bit_0)

lemma preview_back_to_back:
  "let sc = scenarios new_york_summer ! 4; cur = current (pv_sched sc) (pv_now sc); nxt = next_event (pv_sched sc) (pv_now sc) in
     map_option ev_subject (back_to_back cur nxt) = Some ''Roadmap sync''"
  by (simp add: scenario_eval back_to_back_def current_def next_event_def window_defs
      time_sub_def max_duration_def min_duration_def)

lemma write_previews_all:
  "\<forall>sc \<in> set scs. can_create (pv_file sc) \<and> snd (enc (draw sc)) \<Longrightarrow> distinct (map pv_file scs) \<Longrightarrow>
     \<exists>files'. write_previews enc can_create draw scs files = (0, files')
       \<and> (\<forall>sc \<in> set scs. files' (pv_file sc) = Some (fst (enc (draw sc))))
       \<and> (\<forall>n. n \<notin> pv_file ` set scs \<longrightarrow> files' n = files n)"
proof (induction scs arbitrary: files)
  case (Cons sc scs)
  obtain bs where e: "enc (draw sc) = (bs, True)" using Cons.prems(1) by (cases "enc (draw sc)") auto
  have "\<exists>files'. write_previews enc can_create draw scs (files(pv_file sc \<mapsto> bs)) = (0, files')
      \<and> (\<forall>sc \<in> set scs. files' (pv_file sc) = Some (fst (enc (draw sc))))
      \<and> (\<forall>n. n \<notin> pv_file ` set scs \<longrightarrow> files' n = (files(pv_file sc \<mapsto> bs)) n)"
    using Cons.prems by (intro Cons.IH) auto
  then obtain files' where
    r: "write_previews enc can_create draw scs (files(pv_file sc \<mapsto> bs)) = (0, files')"
       "\<forall>sc \<in> set scs. files' (pv_file sc) = Some (fst (enc (draw sc)))"
       "\<forall>n. n \<notin> pv_file ` set scs \<longrightarrow> files' n = (files(pv_file sc \<mapsto> bs)) n" by blast
  have "pv_file sc \<notin> pv_file ` set scs" using Cons.prems(2) by auto
  then show ?case using r Cons.prems(1) e by (intro exI [of _ files']) auto
qed simp

text \<open>When nothing fails, the tool ends with status 0 and has written one image for each scenario.\<close>

lemma previews_written:
  assumes "env_zone e ''America/New_York'' = Some z" "\<forall>n. can_create n" "\<forall>p. snd (enc p)"
  shows "\<exists>files'. preview_main e a enc can_create dither files = Some (0, files')
    \<and> (\<forall>sc \<in> set (scenarios z). files' (pv_file sc)
         = Some (fst (enc (compose a 800 480 dither z (pv_sched sc) (pv_now sc)))))"
proof -
  have "distinct (map pv_file (scenarios z))" by (simp add: scenarios_def scenario_at_def Let_def)
  from write_previews_all [OF _ this, of can_create enc "\<lambda>sc. compose a 800 480 dither z (pv_sched sc) (pv_now sc)" files]
    assms(2,3) obtain files' where
    "write_previews enc can_create (\<lambda>sc. compose a 800 480 dither z (pv_sched sc) (pv_now sc)) (scenarios z) files = (0, files')"
    "\<forall>sc \<in> set (scenarios z). files' (pv_file sc) = Some (fst (enc (compose a 800 480 dither z (pv_sched sc) (pv_now sc))))"
    by blast
  then show ?thesis by (simp add: preview_main_def assms(1))
qed

text \<open>The frame has an even width, so that packing it never fails.\<close>

lemma bench_frame_written:
  assumes "env_zone e ''America/New_York'' = Some z"
  shows "\<exists>p. render a 800 480 dither z (bench_sched (bench_now z)) (bench_now z) = Some p
    \<and> bench_main e a (\<lambda>n bs files. (True, files(n \<mapsto> bs))) out dither files = Some (0, files(out \<mapsto> pl_bytes p))"
proof -
  let ?img = "compose a 800 480 dither z (bench_sched (bench_now z)) (bench_now z)"
  have "\<exists>bs. pack ?img = Some bs"
    using pack_even [of ?img 400] by (auto simp: room_frame)
  then show ?thesis using assms by (auto simp: bench_main_def render_def)
qed

end
